(* ===== verification/Prelude.thy ===== *)
theory Prelude
  imports Main "HOL-Library.Word" "HOL-Library.AList" "HOL-Library.Monad_Syntax" "HOL-Library.Multiset"
    "HOL-Library.Char_ord" "HOL-Library.List_Lexorder"
begin

text \<open>
  The vocabulary the components share: the widths of the machine integers, results with an
  error, the pieces of Go's standard library the sources use on strings and numbers
  (\<^verbatim>\<open>strconv.FormatUint\<close>, \<^verbatim>\<open>strconv.ParseUint\<close>, \<^verbatim>\<open>strconv.Itoa\<close>, \<^verbatim>\<open>strings.HasPrefix\<close>,
  \<^verbatim>\<open>strings.TrimLeft\<close>, \<^verbatim>\<open>strings.SplitN\<close>, \<^verbatim>\<open>strings.ToLower\<close>, \<^verbatim>\<open>encoding/binary\<close>), and generic lemmas
  on association lists and lists that carry the proofs of the components.
  Strings are byte strings, as in Go: a \<^typ>\<open>char\<close> is one byte and the order on strings is the
  lexicographic order of their bytes.
\<close>

named_theorems store_frame \<open>fields of the store an operation leaves alone\<close>
named_theorems alist_simps \<open>lookup after update and delete on association lists\<close>

type_synonym uint64 = "64 word"
type_synonym bytes = "8 word list"
type_synonym time = int

section \<open>Counting in a word\<close>

lemma unat_succ:
  fixes r :: uint64
  assumes "r \<noteq> - 1"
  shows "unat (r + 1) = Suc (unat r)"
proof -
  have "1 + r \<noteq> 0" using assms by (metis add.commute add_eq_0_iff)
  then show ?thesis using unatSuc [of r] by (simp add: add.commute)
qed

lemma unat_bound_not_max:
  fixes r :: uint64
  assumes "unat r + Suc n \<le> 2 ^ 64 - 1"
  shows "r \<noteq> - 1"
proof
  assume "r = - 1"
  then have "unat r = 2 ^ 64 - 1" by (simp add: unsigned_minus_1_eq_mask mask_eq_exp_minus_1)
  with assms show False by simp
qed

lemma next_version_fresh:
  fixes n :: uint64
  assumes "n \<le> r" "r \<noteq> - 1"
  shows "n < r + 1"
  using assms by (simp add: word_less_nat_alt word_le_nat_alt unat_succ)

section \<open>Association lists: Go maps with their entries\<close>

text \<open>
  A Go map that is ranged over is an association list with distinct keys; lookup is
  \<^const>\<open>map_of\<close>, assignment \<^const>\<open>AList.update\<close> and \<^verbatim>\<open>delete\<close> is \<^const>\<open>AList.delete\<close>.
\<close>

lemma map_of_alist_update [alist_simps, simp]:
  "map_of (AList.update k v xs) = (map_of xs)(k \<mapsto> v)"
  by (simp add: update_conv' fun_eq_iff)

lemma map_of_alist_delete [alist_simps, simp]:
  "map_of (AList.delete k xs) = (map_of xs)(k := None)"
  by (simp add: delete_conv' fun_eq_iff)

lemma distinct_alist_delete [simp]:
  "distinct (map fst xs) \<Longrightarrow> distinct (map fst (AList.delete k xs))"
  by (induction xs) (auto simp: AList.delete_eq)

lemma distinct_alist_update [simp]:
  "distinct (map fst xs) \<Longrightarrow> distinct (map fst (AList.update k v xs))"
  by (rule distinct_update)

lemma ball_alist_update:
  assumes "\<forall>x \<in> set xs. P (fst x) (snd x)" and "P k v" and "distinct (map fst xs)"
  shows "\<forall>x \<in> set (AList.update k v xs). P (fst x) (snd x)"
proof
  fix x assume "x \<in> set (AList.update k v xs)"
  then have "map_of (AList.update k v xs) (fst x) = Some (snd x)"
    using assms(3) by (simp add: distinct_update map_of_is_SomeI del: map_of_alist_update)
  then show "P (fst x) (snd x)"
    using assms by (auto split: if_splits dest: map_of_SomeD)
qed

lemma ball_alist_delete:
  "\<forall>x \<in> set xs. P (fst x) (snd x) \<Longrightarrow> \<forall>x \<in> set (AList.delete k xs). P (fst x) (snd x)"
  by (auto simp: AList.delete_eq)

lemma find_SomeD: "find P xs = Some x \<Longrightarrow> x \<in> set xs \<and> P x"
  by (induction xs) (auto split: if_splits)

lemma map_of_mset:
  assumes "mset xs = mset ys" "distinct (map fst xs)"
  shows "map_of xs = map_of ys"
proof -
  have "distinct (map fst ys)" using assms by (metis mset_eq_imp_distinct_iff mset_map)
  then show ?thesis using assms by (metis map_of_inject_set mset_eq_setD)
qed

section \<open>Decimal numbers\<close>

definition digit_char :: "nat \<Rightarrow> char" where
  "digit_char d = char_of (48 + d)"

definition is_digit :: "char \<Rightarrow> bool" where
  "is_digit c \<longleftrightarrow> 48 \<le> (of_char c :: nat) \<and> (of_char c :: nat) \<le> 57"

fun dec_digits :: "nat \<Rightarrow> string" where
  "dec_digits n = (if n < 10 then [digit_char n] else dec_digits (n div 10) @ [digit_char (n mod 10)])"

declare dec_digits.simps [simp del]

fun dec_val :: "nat \<Rightarrow> string \<Rightarrow> nat option" where
  "dec_val acc [] = Some acc"
| "dec_val acc (c # cs) = (if is_digit c then dec_val (10 * acc + (of_char c - 48)) cs else None)"

text \<open>\<^verbatim>\<open>strconv.FormatUint(n, 10)\<close> and \<^verbatim>\<open>strconv.ParseUint(s, 10, 64)\<close>.\<close>

definition FormatUint :: "uint64 \<Rightarrow> string" where
  "FormatUint n = dec_digits (unat n)"

definition ParseUint :: "string \<Rightarrow> uint64 option" where
  "ParseUint s = (if s = [] then None else
     case dec_val 0 s of None \<Rightarrow> None | Some n \<Rightarrow> if n < 2 ^ 64 then Some (of_nat n) else None)"

text \<open>\<^verbatim>\<open>strconv.Itoa\<close> and the \<^verbatim>\<open>%d\<close> verb of \<^verbatim>\<open>fmt.Sprintf\<close>.\<close>

definition Itoa :: "int \<Rightarrow> string" where
  "Itoa i = (if i < 0 then CHR ''-'' # dec_digits (nat (- i)) else dec_digits (nat i))"

text \<open>A table evaluates faster than the bits of the character.\<close>

lemma digit_char_code [code]: "digit_char n = (if n < 10 then ''0123456789'' ! n else char_of (48 + n))"
proof -
  have "list_all (\<lambda>n. digit_char n = ''0123456789'' ! n) [0..<10]" by code_simp
  then show ?thesis by (auto simp: list_all_iff digit_char_def)
qed

function int_digits :: "int \<Rightarrow> string" where
  "int_digits i = (if i < 10 then [digit_char (nat i)] else int_digits (i div 10) @ [digit_char (nat (i mod 10))])"
  by auto
termination by (relation "measure nat") auto

declare int_digits.simps [simp del]

lemma dec_digits_int: "0 \<le> i \<Longrightarrow> dec_digits (nat i) = int_digits i"
proof (induction i rule: int_digits.induct)
  case (1 i)
  have "nat i < 10 \<longleftrightarrow> i < 10" using "1.prems" by auto
  then have "dec_digits (nat i) = (if i < 10 then [digit_char (nat i)] else dec_digits (nat (i div 10)) @ [digit_char (nat (i mod 10))])"
    using "1.prems" by (subst dec_digits.simps) (simp add: nat_div_distrib nat_mod_distrib)
  then show ?case using 1 by (subst int_digits.simps) simp
qed

lemma Itoa_code [code]: "Itoa i = (if i < 0 then CHR ''-'' # int_digits (- i) else int_digits i)"
  by (simp add: Itoa_def dec_digits_int)

lemma is_digit_digit_char [simp]: "d < 10 \<Longrightarrow> is_digit (digit_char d)"
  by (simp add: is_digit_def digit_char_def)

lemma of_char_digit_char [simp]: "d < 10 \<Longrightarrow> (of_char (digit_char d) :: nat) = 48 + d"
  by (simp add: digit_char_def)

lemma dec_digits_not_Nil [simp]: "dec_digits n \<noteq> []"
  by (subst dec_digits.simps) simp

lemma dec_val_append:
  "dec_val acc (xs @ ys) = (case dec_val acc xs of None \<Rightarrow> None | Some a \<Rightarrow> dec_val a ys)"
  by (induction xs arbitrary: acc) auto

lemma dec_val_dec_digits [simp]: "dec_val 0 (dec_digits n) = Some n"
proof (induction n rule: dec_digits.induct)
  case (1 n)
  show ?case
  proof (cases "n < 10")
    case True
    then show ?thesis by (subst dec_digits.simps) simp
  next
    case False
    then have "dec_val 0 (dec_digits (n div 10) @ [digit_char (n mod 10)]) = Some n"
      using "1" by (simp add: dec_val_append)
    then show ?thesis using False by (subst dec_digits.simps) simp
  qed
qed

lemma ParseUint_FormatUint [simp]: "ParseUint (FormatUint n) = Some n"
proof -
  have "unat n < 2 ^ 64" using unsigned_less [of n] by simp
  then show ?thesis by (simp add: ParseUint_def FormatUint_def)
qed

lemma FormatUint_not_Nil [simp]: "FormatUint n \<noteq> []"
  by (simp add: FormatUint_def)

lemma FormatUint_inject [simp]: "FormatUint a = FormatUint b \<longleftrightarrow> a = b"
  by (metis ParseUint_FormatUint option.inject)

section \<open>Strings\<close>

text \<open>\<^verbatim>\<open>strings.HasPrefix\<close>, \<^verbatim>\<open>strings.TrimLeft\<close> with a one-byte cutset, \<^verbatim>\<open>strings.ToLower\<close> on
  ASCII, \<^verbatim>\<open>strings.SplitN(s, sep, 2)\<close> with a one-byte separator.\<close>

definition HasPrefix :: "string \<Rightarrow> string \<Rightarrow> bool" where
  "HasPrefix s p \<longleftrightarrow> take (length p) s = p"

definition TrimLeft :: "string \<Rightarrow> char \<Rightarrow> string" where
  "TrimLeft s c = dropWhile (\<lambda>d. d = c) s"

definition lower_char :: "char \<Rightarrow> char" where
  "lower_char c = (if 65 \<le> (of_char c :: nat) \<and> (of_char c :: nat) \<le> 90 then char_of ((of_char c :: nat) + 32) else c)"

definition ToLower :: "string \<Rightarrow> string" where
  "ToLower s = map lower_char s"

definition SplitN2 :: "string \<Rightarrow> char \<Rightarrow> string list" where
  "SplitN2 s c = (case dropWhile (\<lambda>d. d \<noteq> c) s of
     [] \<Rightarrow> [s] | _ # rest \<Rightarrow> [takeWhile (\<lambda>d. d \<noteq> c) s, rest])"

lemma HasPrefix_append [simp]: "HasPrefix (p @ s) p"
  by (simp add: HasPrefix_def)

lemma HasPrefixE: "HasPrefix s p \<Longrightarrow> \<exists>r. s = p @ r"
  by (metis HasPrefix_def append_take_drop_id)

lemma SplitN2_key:
  "c \<notin> set a \<Longrightarrow> SplitN2 (a @ c # b) c = [a, b]"
  by (induction a) (auto simp: SplitN2_def split: list.splits)

lemma append_slash_inject:
  fixes c :: char
  assumes "c \<notin> set a" "c \<notin> set a'"
  shows "a @ c # b = a' @ c # b' \<longleftrightarrow> a = a' \<and> b = b'"
proof
  assume "a @ c # b = a' @ c # b'"
  then have "SplitN2 (a @ c # b) c = SplitN2 (a' @ c # b') c" by simp
  then show "a = a' \<and> b = b'" using assms by (simp add: SplitN2_key)
qed simp

section \<open>Big-endian words\<close>

text \<open>\<^verbatim>\<open>binary.BigEndian.PutUint64\<close> and \<^verbatim>\<open>binary.BigEndian.Uint64\<close>.\<close>

definition PutUint64 :: "uint64 \<Rightarrow> bytes" where
  "PutUint64 n = map (\<lambda>i. of_nat (unat n div 256 ^ i)) [7, 6, 5, 4, 3, 2, 1, 0]"

definition Uint64 :: "bytes \<Rightarrow> uint64" where
  "Uint64 bs = of_nat (foldl (\<lambda>a b. a * 256 + unat b) 0 bs)"

lemma length_PutUint64 [simp]: "length (PutUint64 n) = 8"
  by (simp add: PutUint64_def)

lemma digits256:
  fixes n :: nat
  assumes "n < 256 ^ 8"
  shows "foldl (\<lambda>a b. a * 256 + b) 0 (map (\<lambda>i. n div 256 ^ i mod 256) [7, 6, 5, 4, 3, 2, 1, 0]) = n"
proof -
  have step: "n div 256 ^ Suc i * 256 + n div 256 ^ i mod 256 = n div 256 ^ i" for i
  proof -
    have "n div 256 ^ Suc i = n div 256 ^ i div 256"
      by (simp add: power_Suc2 div_mult2_eq del: power_Suc)
    then show ?thesis using div_mult_mod_eq [of "n div 256 ^ i" 256] by simp
  qed
  have top: "n div 256 ^ 7 mod 256 = n div 256 ^ 7"
    using assms by (simp add: less_mult_imp_div_less)
  show ?thesis
    using top step [of 6] step [of 5] step [of 4] step [of 3] step [of 2] step [of 1] step [of 0]
    by simp
qed

lemma unat_of_nat_byte: "unat (of_nat k :: 8 word) = k mod 256"
  by (simp add: unat_of_nat)

lemma foldl_unat_bytes:
  "foldl (\<lambda>a b. a * 256 + unat (b :: 8 word)) a (map (\<lambda>i. of_nat (f i)) is)
     = foldl (\<lambda>a b. a * 256 + b) a (map (\<lambda>i. f i mod 256) is)"
  by (induction "is" arbitrary: a) (simp_all add: unat_of_nat_byte)

lemma Uint64_PutUint64 [simp]: "Uint64 (PutUint64 n) = n"
proof -
  have "unat n < 256 ^ 8" using unsigned_less [of n] by simp
  then have "foldl (\<lambda>a b. a * 256 + unat b) 0 (PutUint64 n) = unat n"
    unfolding PutUint64_def foldl_unat_bytes by (rule digits256)
  then show ?thesis by (simp add: Uint64_def)
qed

section \<open>Runs that log events\<close>

text \<open>Steps of a system emit events; a run is a sequence of steps with the events of all of them
  in order.\<close>

inductive run :: "('s \<Rightarrow> 'e list \<Rightarrow> 's \<Rightarrow> bool) \<Rightarrow> 's \<Rightarrow> 'e list \<Rightarrow> 's \<Rightarrow> bool" for step where
  run_refl: "run step s [] s"
| run_step: "run step s log t \<Longrightarrow> step t es u \<Longrightarrow> run step s (log @ es) u"

lemma run_one: "step s es t \<Longrightarrow> run step s es t"
  using run_step [OF run_refl, of step s es t] by simp

text \<open>A logged system: a clock that counts the emitted events up to a bound, and an invariant every
  step within the bound keeps. Both then hold along every run within the bound.\<close>

locale logged_system =
  fixes step :: "'s \<Rightarrow> 'e list \<Rightarrow> 's \<Rightarrow> bool"
    and clock :: "'s \<Rightarrow> nat"
    and bound :: nat
    and inv :: "'s \<Rightarrow> bool"
  assumes step_clock: "inv s \<Longrightarrow> step s es t \<Longrightarrow> clock s + length es \<le> bound \<Longrightarrow> clock t = clock s + length es"
    and step_inv: "inv s \<Longrightarrow> step s es t \<Longrightarrow> clock s + length es \<le> bound \<Longrightarrow> inv t"
begin

lemma run_keeps:
  assumes "run step s log t" and "inv s" and "clock s + length log \<le> bound"
  shows "inv t \<and> clock t = clock s + length log"
  using assms
proof (induction rule: run.induct)
  case (run_refl s)
  then show ?case by simp
next
  case (run_step s log t es u)
  then have t: "inv t" "clock t = clock s + length log" by simp_all
  with run_step.prems have "clock t + length es \<le> bound" by simp
  with t run_step.hyps show ?case using step_clock [of t es u] step_inv [of t es u] by simp
qed

lemma run_induct_bounded [consumes 3, case_names refl step]:
  assumes "run step s log t" and "inv s" and "clock s + length log \<le> bound"
    and "P [] s"
    and "\<And>log t es u. \<lbrakk>run step s log t; inv t; clock t = clock s + length log; clock t + length es \<le> bound;
      step t es u; P log t\<rbrakk> \<Longrightarrow> P (log @ es) u"
  shows "P log t"
  using assms
proof (induction rule: run.induct)
  case (run_refl s)
  then show ?case by simp
next
  case (run_step s log t es u)
  have "clock s + length log \<le> bound" using run_step.prems(2) by simp
  with run_step.hyps run_step.prems(1) have "inv t" "clock t = clock s + length log"
    using run_keeps by blast+
  then show ?case
    using run_step by simp
qed

end

end
