(* ===== verification/Apis.thy ===== *)
theory Apis
  imports Prelude
begin

text \<open>
  The registry of served resources, \<^verbatim>\<open>internal/apis/scheme.go\<close>: group/version/resource triples,
  the ten resources of \<^verbatim>\<open>NewDefaultRegistry\<close> with their scope and subresources, and the lookups
  by path segment, group and group version that discovery and the facade use.
\<close>

section \<open>Group, version, resource\<close>

record GVR =
  Group :: string
  Version :: string
  ResourceName :: string

definition GVR_String :: "GVR \<Rightarrow> string" where
  "GVR_String g = Group g @ ''/'' @ Version g @ ''/'' @ ResourceName g"

record GroupResource =
  grGroup :: string
  grResource :: string

definition GVR_GroupResource :: "GVR \<Rightarrow> GroupResource" where
  "GVR_GroupResource g = \<lparr>grGroup = Group g, grResource = ResourceName g\<rparr>"

definition GroupVersion :: "GVR \<Rightarrow> string" where
  "GroupVersion g = (if Group g = '''' then Version g else Group g @ ''/'' @ Version g)"

definition GroupAgents :: string where "GroupAgents = ''agents.x-k8s.io''"
definition GroupExtensions :: string where "GroupExtensions = ''extensions.agents.x-k8s.io''"
definition GroupDiscovery :: string where "GroupDiscovery = ''discovery.k8s.io''"
definition GroupGateway :: string where "GroupGateway = ''gateway.networking.k8s.io''"
definition VersionV1Beta1 :: string where "VersionV1Beta1 = ''v1beta1''"

definition ExtensionsGV :: string where
  "ExtensionsGV = GroupExtensions @ ''/'' @ VersionV1Beta1"

definition AgentsGV :: string where
  "AgentsGV = GroupAgents @ ''/'' @ VersionV1Beta1"

definition SandboxGVR :: GVR where
  "SandboxGVR = \<lparr>Group = GroupAgents, Version = VersionV1Beta1, ResourceName = ''sandboxes''\<rparr>"
definition SandboxClaimGVR :: GVR where
  "SandboxClaimGVR = \<lparr>Group = GroupExtensions, Version = VersionV1Beta1, ResourceName = ''sandboxclaims''\<rparr>"
definition TemplateGVR :: GVR where
  "TemplateGVR = \<lparr>Group = GroupExtensions, Version = VersionV1Beta1, ResourceName = ''sandboxtemplates''\<rparr>"
definition WarmPoolGVR :: GVR where
  "WarmPoolGVR = \<lparr>Group = GroupExtensions, Version = VersionV1Beta1, ResourceName = ''sandboxwarmpools''\<rparr>"
definition NamespaceGVR :: GVR where
  "NamespaceGVR = \<lparr>Group = '''', Version = ''v1'', ResourceName = ''namespaces''\<rparr>"
definition PodGVR :: GVR where
  "PodGVR = \<lparr>Group = '''', Version = ''v1'', ResourceName = ''pods''\<rparr>"
definition ServiceGVR :: GVR where
  "ServiceGVR = \<lparr>Group = '''', Version = ''v1'', ResourceName = ''services''\<rparr>"
definition PVCGVR :: GVR where
  "PVCGVR = \<lparr>Group = '''', Version = ''v1'', ResourceName = ''persistentvolumeclaims''\<rparr>"
definition EndpointSliceGVR :: GVR where
  "EndpointSliceGVR = \<lparr>Group = GroupDiscovery, Version = ''v1'', ResourceName = ''endpointslices''\<rparr>"
definition GatewayGVR :: GVR where
  "GatewayGVR = \<lparr>Group = GroupGateway, Version = ''v1'', ResourceName = ''gateways''\<rparr>"

lemmas group_defs = GroupAgents_def GroupExtensions_def GroupDiscovery_def GroupGateway_def
  VersionV1Beta1_def

lemmas gvr_defs = SandboxGVR_def SandboxClaimGVR_def TemplateGVR_def WarmPoolGVR_def
  NamespaceGVR_def PodGVR_def ServiceGVR_def PVCGVR_def EndpointSliceGVR_def GatewayGVR_def

text \<open>The resource types the reconcilers dispatch on are pairwise different.\<close>

lemma gvr_distinct [simp]:
  "SandboxGVR \<noteq> SandboxClaimGVR" "SandboxGVR \<noteq> TemplateGVR" "SandboxGVR \<noteq> WarmPoolGVR"
  "SandboxGVR \<noteq> PVCGVR" "SandboxClaimGVR \<noteq> SandboxGVR" "SandboxClaimGVR \<noteq> TemplateGVR"
  "SandboxClaimGVR \<noteq> WarmPoolGVR" "SandboxClaimGVR \<noteq> PVCGVR" "TemplateGVR \<noteq> SandboxGVR"
  "TemplateGVR \<noteq> SandboxClaimGVR" "TemplateGVR \<noteq> WarmPoolGVR" "TemplateGVR \<noteq> PVCGVR"
  "WarmPoolGVR \<noteq> SandboxGVR" "WarmPoolGVR \<noteq> SandboxClaimGVR" "WarmPoolGVR \<noteq> TemplateGVR"
  "WarmPoolGVR \<noteq> PVCGVR" "PVCGVR \<noteq> SandboxGVR" "PVCGVR \<noteq> SandboxClaimGVR"
  "PVCGVR \<noteq> TemplateGVR" "PVCGVR \<noteq> WarmPoolGVR"
  by (simp_all add: gvr_defs group_defs)

section \<open>The registry\<close>

record Resource =
  rGVR :: GVR
  rKind :: string
  rListKind :: string
  rSingular :: string
  rShortNames :: "string list"
  rNamespaced :: bool
  rHasStatus :: bool
  rHasScale :: bool
  rVerbs :: "string list"

definition defaultVerbs :: "string list" where
  "defaultVerbs = [''create'', ''delete'', ''deletecollection'', ''get'', ''list'', ''patch'', ''update'', ''watch'']"

text \<open>The fields a composite literal of \<^verbatim>\<open>NewDefaultRegistry\<close> sets; the others are zero.\<close>

definition mk_resource :: "GVR \<Rightarrow> string \<Rightarrow> string \<Rightarrow> string \<Rightarrow> string list \<Rightarrow> bool \<Rightarrow> bool \<Rightarrow> bool \<Rightarrow> Resource" where
  "mk_resource g k lk sg sn nsd st sc = \<lparr>rGVR = g, rKind = k, rListKind = lk, rSingular = sg,
     rShortNames = sn, rNamespaced = nsd, rHasStatus = st, rHasScale = sc, rVerbs = []\<rparr>"

definition default_resources :: "Resource list" where
  "default_resources = [
     mk_resource SandboxGVR ''Sandbox'' ''SandboxList'' ''sandbox'' [''sandbox'', ''sb''] True True False,
     mk_resource SandboxClaimGVR ''SandboxClaim'' ''SandboxClaimList'' ''sandboxclaim'' [''sbc''] True True False,
     mk_resource TemplateGVR ''SandboxTemplate'' ''SandboxTemplateList'' ''sandboxtemplate'' [''sbt''] True False False,
     mk_resource WarmPoolGVR ''SandboxWarmPool'' ''SandboxWarmPoolList'' ''sandboxwarmpool'' [''sbwp''] True True True,
     mk_resource NamespaceGVR ''Namespace'' ''NamespaceList'' ''namespace'' [''ns''] False True False,
     mk_resource PodGVR ''Pod'' ''PodList'' ''pod'' [''po''] True True False,
     mk_resource ServiceGVR ''Service'' ''ServiceList'' ''service'' [''svc''] True True False,
     mk_resource PVCGVR ''PersistentVolumeClaim'' ''PersistentVolumeClaimList'' ''persistentvolumeclaim'' [''pvc''] True True False,
     mk_resource EndpointSliceGVR ''EndpointSlice'' ''EndpointSliceList'' ''endpointslice'' [''eps''] True False False,
     mk_resource GatewayGVR ''Gateway'' ''GatewayList'' ''gateway'' [''gtw''] True True False]"

record Registry =
  byGVR :: "GVR \<rightharpoonup> Resource"
  byGVKind :: "string \<rightharpoonup> Resource"
  byResource :: "string \<rightharpoonup> Resource"
  reg_list :: "Resource list"

text \<open>One iteration of the loop over \<^verbatim>\<open>rs\<close>.\<close>

definition add_resource :: "Registry \<Rightarrow> Resource \<Rightarrow> Registry" where
  "add_resource reg r0 = (
     let r = (if rVerbs r0 = [] then r0\<lparr>rVerbs := defaultVerbs\<rparr> else r0);
         gv = GroupVersion (rGVR r);
         byR = (byResource reg)(gv @ ''/'' @ ResourceName (rGVR r) \<mapsto> r,
                                gv @ ''/'' @ rSingular r \<mapsto> r);
         byR' = foldl (\<lambda>m sn. m(gv @ ''/'' @ sn \<mapsto> r)) byR (rShortNames r)
     in \<lparr>byGVR = (byGVR reg)(rGVR r \<mapsto> r),
         byGVKind = (byGVKind reg)(gv @ ''/'' @ rKind r \<mapsto> r),
         byResource = byR',
         reg_list = reg_list reg @ [r]\<rparr>)"

definition NewDefaultRegistry :: Registry where
  "NewDefaultRegistry = foldl add_resource
     \<lparr>byGVR = Map.empty, byGVKind = Map.empty, byResource = Map.empty, reg_list = []\<rparr> default_resources"

definition Registry_Get :: "Registry \<Rightarrow> GVR \<Rightarrow> Resource option" where
  "Registry_Get reg g = byGVR reg g"

definition ResolveResource :: "Registry \<Rightarrow> string \<Rightarrow> string \<Rightarrow> string \<Rightarrow> Resource option" where
  "ResolveResource reg grp version resource = (
     let gv = (if grp \<noteq> '''' then grp @ ''/'' @ version else version)
     in byResource reg (gv @ ''/'' @ ToLower resource))"

text \<open>\<^verbatim>\<open>sort.Slice\<close> sorts by the given order; the keys are pairwise different here, so the result
  does not depend on its being unstable.\<close>

definition Registry_All :: "Registry \<Rightarrow> Resource list" where
  "Registry_All reg = sort_key (\<lambda>r. GVR_String (rGVR r)) (reg_list reg)"

fun distinct_groups :: "string list \<Rightarrow> Resource list \<Rightarrow> string list" where
  "distinct_groups seen [] = []"
| "distinct_groups seen (r # rs) =
     (if Group (rGVR r) = '''' \<or> Group (rGVR r) \<in> set seen then distinct_groups seen rs
      else Group (rGVR r) # distinct_groups (Group (rGVR r) # seen) rs)"

definition Registry_Groups :: "Registry \<Rightarrow> string list" where
  "Registry_Groups reg = sort (distinct_groups [] (reg_list reg))"

definition ResourcesForGroupVersion :: "Registry \<Rightarrow> string \<Rightarrow> string \<Rightarrow> Resource list" where
  "ResourcesForGroupVersion reg grp version =
     sort_key (\<lambda>r. ResourceName (rGVR r))
       (filter (\<lambda>r. Group (rGVR r) = grp \<and> Version (rGVR r) = version) (reg_list reg))"

section \<open>What the registry promises\<close>

lemma set_distinct_groups:
  "set (distinct_groups seen rs) = (\<lambda>r. Group (rGVR r)) ` set rs - {''''} - set seen"
  by (induction rs arbitrary: seen) auto

lemma distinct_distinct_groups: "distinct (distinct_groups seen rs)"
  by (induction rs arbitrary: seen) (auto simp: set_distinct_groups)

lemma set_ResourcesForGroupVersion:
  "set (ResourcesForGroupVersion reg g v) = {r \<in> set (reg_list reg). Group (rGVR r) = g \<and> Version (rGVR r) = v}"
  by (auto simp: ResourcesForGroupVersion_def)

text \<open>The aliases a client may name a resource by.\<close>

definition aliases :: "Resource \<Rightarrow> string list" where
  "aliases r = ResourceName (rGVR r) # rSingular r # rShortNames r"

end
