(* ===== verification/Objects.thy ===== *)
theory Objects
  imports Apis
begin

text \<open>
  Kubernetes objects as the store keeps them, API errors, selectors, and the third-party
  libraries the store calls.

  An \<^verbatim>\<open>unstructured.Unstructured\<close> is a record: the metadata fields the program reads and writes
  through the accessors (\<^verbatim>\<open>GetName\<close>/\<^verbatim>\<open>SetName\<close> are the selector and the update of \<open>name\<close>, and so on),
  the top-level \<^verbatim>\<open>spec\<close> and \<^verbatim>\<open>status\<close> trees, present or absent, and every other top-level field.
  The type \<open>'j\<close> of JSON trees is a parameter: the store copies and compares them, never looks
  inside. \<^verbatim>\<open>DeepCopy\<close> is the identity on values, and a zero timestamp is \<^const>\<open>None\<close>.

  The libraries outside the repository (JSON marshalling, bbolt, json-patch, YAML, the label and
  field selector parsers) are the fields of \<open>storelib\<close>, an argument of the operations that call them.
\<close>

section \<open>Objects\<close>

record OwnerReference =
  refAPIVersion :: string
  refKind :: string
  refName :: string
  refUID :: string
  refController :: "bool option"
  refBlockOwnerDeletion :: "bool option"

record 'j obj =
  apiVersion :: string
  kind :: string
  namespace :: string
  name :: string
  generateName :: string
  uid :: string
  resourceVersion :: string
  generation :: uint64
  creationTimestamp :: "time option"
  deletionTimestamp :: "time option"
  labels :: "string \<rightharpoonup> string"
  annotations :: "string \<rightharpoonup> string"
  ownerReferences :: "OwnerReference list"
  spec :: "'j option"
  status :: "'j option"
  extra :: "string \<rightharpoonup> 'j"

text \<open>\<^verbatim>\<open>&unstructured.Unstructured{}\<close>: no field is set.\<close>

definition empty_obj :: "'j obj" where
  "empty_obj = \<lparr>apiVersion = '''', kind = '''', namespace = '''', name = '''', generateName = '''',
     uid = '''', resourceVersion = '''', generation = 0, creationTimestamp = None,
     deletionTimestamp = None, labels = Map.empty, annotations = Map.empty, ownerReferences = [],
     spec = None, status = None, extra = Map.empty\<rparr>"

section \<open>API errors\<close>

datatype apierr =
    NotFound GroupResource string
  | AlreadyExists GroupResource string
  | Conflict GroupResource string
  | BadRequest string
  | InternalError string
  | MethodNotSupported GroupResource string

fun IsNotFound :: "apierr \<Rightarrow> bool" where
  "IsNotFound (NotFound _ _) = True"
| "IsNotFound _ = False"

fun IsAlreadyExists :: "apierr \<Rightarrow> bool" where
  "IsAlreadyExists (AlreadyExists _ _) = True"
| "IsAlreadyExists _ = False"

fun IsConflict :: "apierr \<Rightarrow> bool" where
  "IsConflict (Conflict _ _) = True"
| "IsConflict _ = False"

section \<open>Selectors\<close>

text \<open>A parsed \<^verbatim>\<open>labels.Selector\<close> or \<^verbatim>\<open>fields.Selector\<close> is the record of the methods called on it.\<close>

record LabelSelector =
  lEmpty :: bool
  lMatches :: "(string \<rightharpoonup> string) \<Rightarrow> bool"

record FieldSelector =
  fEmpty :: bool
  fMatches :: "(string \<rightharpoonup> string) \<Rightarrow> bool"
  fRequirements :: "string list"

text \<open>\<^verbatim>\<open>nil\<close> selectors are \<^const>\<open>None\<close>.\<close>

record Selectors =
  selLabel :: "LabelSelector option"
  selField :: "FieldSelector option"

definition no_selectors :: Selectors where
  "no_selectors = \<lparr>selLabel = None, selField = None\<rparr>"

section \<open>The libraries the store calls\<close>

record ('j, 'db) storelib =
  MarshalJSON :: "'j obj \<Rightarrow> string + bytes"
  UnmarshalJSON :: "bytes \<Rightarrow> string + 'j obj"
  boltUpdate :: "('db \<Rightarrow> string + 'db) \<Rightarrow> 'db \<Rightarrow> string option \<times> 'db"
  boltView :: "'db \<Rightarrow> string option"
  boltCreateBucket :: "string \<Rightarrow> 'db \<Rightarrow> string + 'db"
  boltHasBucket :: "string \<Rightarrow> 'db \<Rightarrow> bool"
  boltPut :: "string \<Rightarrow> string \<Rightarrow> bytes \<Rightarrow> 'db \<Rightarrow> string + 'db"
  boltDelete :: "string \<Rightarrow> string \<Rightarrow> 'db \<Rightarrow> string + 'db"
  boltGet :: "string \<Rightarrow> string \<Rightarrow> 'db \<Rightarrow> bytes option"
  boltBuckets :: "'db \<Rightarrow> string list"
  boltEntries :: "string \<Rightarrow> 'db \<Rightarrow> (string \<times> bytes) list"
  DecodePatch :: "bytes \<Rightarrow> string + (bytes \<Rightarrow> string + bytes)"
  MergePatch :: "bytes \<Rightarrow> bytes \<Rightarrow> string + bytes"
  YAMLToJSON :: "bytes \<Rightarrow> string + bytes"
  labelsParse :: "string \<Rightarrow> string + LabelSelector"
  labelsEverything :: LabelSelector
  fieldsParse :: "string \<Rightarrow> string + FieldSelector"
  fieldsEverything :: FieldSelector

section \<open>Parsing and matching selectors\<close>

text \<open>\<^verbatim>\<open>internal/store/selectors.go\<close>.\<close>

definition supported_field :: "string \<Rightarrow> bool" where
  "supported_field f \<longleftrightarrow> f = ''metadata.name'' \<or> f = ''metadata.namespace''"

definition ParseSelectors :: "('j, 'db) storelib \<Rightarrow> string \<Rightarrow> string \<Rightarrow> string + Selectors" where
  "ParseSelectors L labelSelector fieldSelector = (
     case (if labelSelector \<noteq> '''' then labelsParse L labelSelector else Inr (labelsEverything L)) of
       Inl err \<Rightarrow> Inl err
     | Inr ls \<Rightarrow>
        (if fieldSelector = '''' then Inr \<lparr>selLabel = Some ls, selField = Some (fieldsEverything L)\<rparr>
         else case fieldsParse L fieldSelector of
             Inl err \<Rightarrow> Inl err
           | Inr fs \<Rightarrow>
              (case find (\<lambda>f. \<not> supported_field f) (fRequirements fs) of
                 Some f \<Rightarrow> Inl (''field label '' @ f @ '' not supported (only metadata.name and metadata.namespace)'')
               | None \<Rightarrow> Inr \<lparr>selLabel = Some ls, selField = Some fs\<rparr>)))"

definition Selectors_Matches :: "Selectors \<Rightarrow> 'j obj \<Rightarrow> bool" where
  "Selectors_Matches sel ob = (
     if (case selLabel sel of None \<Rightarrow> False | Some l \<Rightarrow> \<not> lEmpty l \<and> \<not> lMatches l (labels ob)) then False
     else if (case selField sel of None \<Rightarrow> False
              | Some f \<Rightarrow> \<not> fEmpty f \<and>
                  \<not> fMatches f [''metadata.name'' \<mapsto> name ob, ''metadata.namespace'' \<mapsto> namespace ob]) then False
     else True)"

lemma Selectors_Matches_none [simp]: "Selectors_Matches no_selectors ob"
  by (simp add: Selectors_Matches_def no_selectors_def)

lemma ParseSelectors_fields_supported:
  assumes "ParseSelectors L ls fs = Inr sel" and "fs \<noteq> ''''"
  obtains f where "selField sel = Some f" "\<forall>r \<in> set (fRequirements f). supported_field r"
  using assms
  by (auto simp: ParseSelectors_def find_None_iff split: sum.splits if_splits option.splits)

end
