(* ===== verification/Persist.thy ===== *)
theory Persist
  imports Objects
begin

text \<open>
  \<^verbatim>\<open>internal/store/persist.go\<close>: the bbolt persister. A database is a value of type \<open>'db\<close> the bolt
  operations of \<open>storelib\<close> act on; a write transaction is \<open>boltUpdate\<close> applied to the body of the
  closure. The file also has the codecs of bucket names and resource versions.
\<close>

definition metaBucket :: string where "metaBucket = ''__meta__''"
definition rvKey :: string where "rvKey = ''rv''"

definition bucketName :: "GVR \<Rightarrow> string" where
  "bucketName gvr = GVR_String gvr"

definition putRV :: "('j, 'db) storelib \<Rightarrow> uint64 \<Rightarrow> 'db \<Rightarrow> string + 'db" where
  "putRV L rv tx = (
     case boltCreateBucket L metaBucket tx of
       Inl err \<Rightarrow> Inl err
     | Inr tx1 \<Rightarrow> boltPut L metaBucket rvKey (PutUint64 rv) tx1)"

definition saveTx :: "('j, 'db) storelib \<Rightarrow> GVR \<Rightarrow> string \<Rightarrow> bytes \<Rightarrow> uint64 \<Rightarrow> 'db \<Rightarrow> string + 'db" where
  "saveTx L gvr key data rv tx = (
     case boltCreateBucket L (bucketName gvr) tx of
       Inl err \<Rightarrow> Inl err
     | Inr tx1 \<Rightarrow>
        (case boltPut L (bucketName gvr) key data tx1 of
           Inl err \<Rightarrow> Inl err
         | Inr tx2 \<Rightarrow> putRV L rv tx2))"

definition SaveObject :: "('j, 'db) storelib \<Rightarrow> GVR \<Rightarrow> string \<Rightarrow> bytes \<Rightarrow> uint64 \<Rightarrow> 'db \<Rightarrow> string option \<times> 'db" where
  "SaveObject L gvr key data rv db = boltUpdate L (saveTx L gvr key data rv) db"

definition removeTx :: "('j, 'db) storelib \<Rightarrow> GVR \<Rightarrow> string \<Rightarrow> uint64 \<Rightarrow> 'db \<Rightarrow> string + 'db" where
  "removeTx L gvr key rv tx = (
     if boltHasBucket L (bucketName gvr) tx
     then (case boltDelete L (bucketName gvr) key tx of
             Inl err \<Rightarrow> Inl err
           | Inr tx1 \<Rightarrow> putRV L rv tx1)
     else putRV L rv tx)"

definition RemoveObject :: "('j, 'db) storelib \<Rightarrow> GVR \<Rightarrow> string \<Rightarrow> uint64 \<Rightarrow> 'db \<Rightarrow> string option \<times> 'db" where
  "RemoveObject L gvr key rv db = boltUpdate L (removeTx L gvr key rv) db"

text \<open>The loop of \<^verbatim>\<open>parseGVRBucket\<close>: the indices of the first two slashes, \<^const>\<open>None\<close> for \<^verbatim>\<open>-1\<close>.\<close>

fun scanSlashes :: "string \<Rightarrow> nat \<Rightarrow> nat option \<Rightarrow> nat option \<times> nat option" where
  "scanSlashes [] i first = (first, None)"
| "scanSlashes (c # cs) i first =
     (if c = CHR ''/'' then
        (case first of None \<Rightarrow> scanSlashes cs (Suc i) (Some i) | Some f \<Rightarrow> (Some f, Some i))
      else scanSlashes cs (Suc i) first)"

definition parseGVRBucket :: "string \<Rightarrow> GVR option" where
  "parseGVRBucket nm = (case scanSlashes nm 0 None of
      (Some first, Some second) \<Rightarrow>
        (let version = take (second - (first + 1)) (drop (first + 1) nm);
             resource = drop (second + 1) nm
         in if version = '''' \<or> resource = '''' then None
            else Some \<lparr>Group = take first nm, Version = version, ResourceName = resource\<rparr>)
    | _ \<Rightarrow> None)"

definition parseRV :: "string \<Rightarrow> uint64" where
  "parseRV s = (if s = '''' then 0 else case ParseUint s of None \<Rightarrow> 0 | Some n \<Rightarrow> n)"

type_synonym snapshot = "(GVR \<times> (string \<times> bytes) list) list"

text \<open>One bucket of the loop in \<^verbatim>\<open>Load\<close>.\<close>

definition loadBucket :: "('j, 'db) storelib \<Rightarrow> 'db \<Rightarrow> snapshot \<times> uint64 \<Rightarrow> string \<Rightarrow> snapshot \<times> uint64" where
  "loadBucket L db acc b = (case acc of (out, rv) \<Rightarrow>
     if b = metaBucket then
       (case boltGet L b rvKey db of
          Some v \<Rightarrow> if length v = 8 then (out, Uint64 v) else (out, rv)
        | None \<Rightarrow> (out, rv))
     else case parseGVRBucket b of
         None \<Rightarrow> (out, rv)
       | Some gvr \<Rightarrow> (AList.update gvr (boltEntries L b db) out, rv))"

definition Load :: "('j, 'db) storelib \<Rightarrow> 'db \<Rightarrow> string + (snapshot \<times> uint64)" where
  "Load L db = (case boltView L db of
      Some err \<Rightarrow> Inl err
    | None \<Rightarrow> Inr (foldl (loadBucket L db) ([], 0) (boltBuckets L db)))"

section \<open>Codecs\<close>

lemma parseRV_FormatUint [simp]: "parseRV (FormatUint n) = n"
  by (simp add: parseRV_def)

lemma scanSlashes_skip:
  "CHR ''/'' \<notin> set a \<Longrightarrow> scanSlashes (a @ s) i f = scanSlashes s (i + length a) f"
  by (induction a arbitrary: i) auto

lemma scanSlashes_GVR_String:
  assumes "CHR ''/'' \<notin> set (Group g)" "CHR ''/'' \<notin> set (Version g)"
  shows "scanSlashes (GVR_String g) 0 None = (Some (length (Group g)), Some (length (Group g) + 1 + length (Version g)))"
  using assms by (simp add: GVR_String_def scanSlashes_skip)

lemma parseGVRBucket_bucketName:
  assumes "CHR ''/'' \<notin> set (Group g)" "CHR ''/'' \<notin> set (Version g)"
    and "Version g \<noteq> ''''" "ResourceName g \<noteq> ''''"
  shows "parseGVRBucket (bucketName g) = Some g"
proof -
  have "drop (length (Group g) + 1) (GVR_String g) = Version g @ ''/'' @ ResourceName g"
    "drop (length (Group g) + 1 + length (Version g) + 1) (GVR_String g) = ResourceName g"
    "take (length (Group g)) (GVR_String g) = Group g"
    by (simp_all add: GVR_String_def)
  then show ?thesis
    using assms(3,4) scanSlashes_GVR_String [OF assms(1,2)]
    by (simp add: parseGVRBucket_def bucketName_def Let_def)
qed

text \<open>The metadata bucket is never read as a resource bucket: its name has no slash.\<close>

lemma parseGVRBucket_metaBucket [simp]: "parseGVRBucket metaBucket = None"
  by (simp add: parseGVRBucket_def metaBucket_def)

lemma bucketName_not_meta [simp]: "bucketName g \<noteq> metaBucket"
proof
  assume "bucketName g = metaBucket"
  then have "CHR ''/'' \<in> set metaBucket"
    by (metis GVR_String_def bucketName_def append_Cons in_set_conv_decomp)
  then show False by (simp add: metaBucket_def)
qed

end
