(* ===== verification/Store.thy ===== *)
theory Store
  imports Persist
begin

text \<open>
  \<^verbatim>\<open>internal/store/store.go\<close>, \<^verbatim>\<open>meta.go\<close> and the event side of \<^verbatim>\<open>watch.go\<close>: the object store.
  Every operation runs under the store's lock, so it is one function on the state.
  The state keeps the maps of the Go struct; a subscription's buffered channel lives in \<open>chans\<close>
  under the subscription's id, because the goroutine that drains it outlives its entry in \<open>subs\<close>.
  The injected sources are streams with a position: the \<open>n\<close>-th call of \<^verbatim>\<open>s.newUID()\<close> returns
  \<open>newUID s n\<close>, the \<open>n\<close>-th random draw is \<open>rand s n\<close>; \<open>now\<close> is the clock's reading.
  \<open>onDelete\<close> says whether the delete hook is set (the program sets one hook only, the
  reconcilers' \<^verbatim>\<open>OnDelete\<close>, modelled with them).
\<close>

section \<open>State\<close>

datatype EventType = Added | Modified | Deleted | ErrorEvent

record 'j Event =
  evType :: EventType
  evObject :: "'j obj"
  evRV :: uint64
  evGVR :: GVR

record resourceMeta =
  rmNamespaced :: bool
  rmGroupRes :: GroupResource

record 'j chan =
  buf :: "'j Event list"
  closed :: bool

record ('j, 'db) store =
  data :: "GVR \<Rightarrow> (string \<times> 'j obj) list"
  resources :: "GVR \<rightharpoonup> resourceMeta"
  rv :: uint64
  history :: "'j Event list"
  histCap :: nat
  subs :: "nat \<rightharpoonup> GVR"
  chans :: "nat \<Rightarrow> 'j chan"
  nextSub :: nat
  persist :: "'db option"
  onDelete :: bool
  now :: time
  newUID :: "nat \<Rightarrow> string"
  uidCount :: nat
  rand :: "nat \<Rightarrow> nat"
  randCount :: nat

record ('j, 'db) Options =
  oPersister :: "'db option"
  oHistoryCap :: int
  oStartRV :: uint64

definition store_New :: "('j, 'db) Options \<Rightarrow> time \<Rightarrow> (nat \<Rightarrow> string) \<Rightarrow> (nat \<Rightarrow> nat) \<Rightarrow> ('j, 'db) store" where
  "store_New opts t0 uids draws = \<lparr>data = (\<lambda>_. []), resources = Map.empty, rv = oStartRV opts,
     history = [], histCap = (if oHistoryCap opts \<le> 0 then 8192 else nat (oHistoryCap opts)),
     subs = Map.empty, chans = (\<lambda>_. \<lparr>buf = [], closed = False\<rparr>), nextSub = 0,
     persist = oPersister opts, onDelete = False, now = t0, newUID = uids, uidCount = 0,
     rand = draws, randCount = 0\<rparr>"

definition Register :: "GVR \<Rightarrow> bool \<Rightarrow> ('j, 'db) store \<Rightarrow> ('j, 'db) store" where
  "Register gvr nsd s = s\<lparr>resources := (resources s)(gvr \<mapsto>
     \<lparr>rmNamespaced = nsd, rmGroupRes = GVR_GroupResource gvr\<rparr>)\<rparr>"

definition key :: "bool \<Rightarrow> string \<Rightarrow> string \<Rightarrow> string" where
  "key nsd ns nm = (if nsd then ns @ ''/'' @ nm else ''/'' @ nm)"

definition CurrentRV :: "('j, 'db) store \<Rightarrow> uint64" where
  "CurrentRV s = rv s"

definition nextRV :: "('j, 'db) store \<Rightarrow> ('j, 'db) store" where
  "nextRV s = s\<lparr>rv := rv s + 1\<rparr>"

definition meta :: "('j, 'db) store \<Rightarrow> GVR \<Rightarrow> apierr + resourceMeta" where
  "meta s gvr = (case resources s gvr of
      None \<Rightarrow> Inl (InternalError (''store: GVR '' @ GVR_String gvr @ '' not registered''))
    | Some rm \<Rightarrow> Inr rm)"

definition lookup :: "('j, 'db) store \<Rightarrow> GVR \<Rightarrow> string \<Rightarrow> 'j obj option" where
  "lookup s gvr k = map_of (data s gvr) k"

section \<open>Names and identifiers\<close>

text \<open>\<^verbatim>\<open>newUUID\<close> on the sixteen random bytes it draws: version and variant bits, then hexadecimal.\<close>

unbundle bit_operations_syntax

definition hex_char :: "nat \<Rightarrow> char" where
  "hex_char d = (if d < 10 then char_of (48 + d) else char_of (87 + d))"

lemma hex_char_code [code]: "hex_char n = (if n < 16 then ''0123456789abcdef'' ! n else char_of (87 + n))"
proof -
  have "list_all (\<lambda>n. hex_char n = ''0123456789abcdef'' ! n) [0..<16]" by code_simp
  then show ?thesis by (auto simp: list_all_iff hex_char_def)
qed

definition hex_byte :: "8 word \<Rightarrow> string" where
  "hex_byte b = [hex_char (unat b div 16), hex_char (unat b mod 16)]"

definition hexEncode :: "bytes \<Rightarrow> string" where
  "hexEncode bs = concat (map hex_byte bs)"

definition newUUID :: "bytes \<Rightarrow> string" where
  "newUUID b0 = (
     let b = b0[6 := ((b0 ! 6) AND 0x0f) OR 0x40];
         b = b[8 := ((b ! 8) AND 0x3f) OR 0x80]
     in hexEncode (take 4 b) @ ''-'' @ hexEncode (take 2 (drop 4 b)) @ ''-'' @
        hexEncode (take 2 (drop 6 b)) @ ''-'' @ hexEncode (take 2 (drop 8 b)) @ ''-'' @
        hexEncode (take 6 (drop 10 b)))"

definition nameSuffixAlphabet :: string where
  "nameSuffixAlphabet = ''bcdfghjklmnpqrstvwxz2456789''"

text \<open>\<^verbatim>\<open>randSuffix(n)\<close>, drawing from position \<open>i\<close> on; \<^verbatim>\<open>IntN(m)\<close> is the draw modulo \<open>m\<close>.\<close>

definition randSuffix :: "nat \<Rightarrow> (nat \<Rightarrow> nat) \<Rightarrow> nat \<Rightarrow> string" where
  "randSuffix n draws i = map (\<lambda>j. nameSuffixAlphabet ! (draws (i + j) mod length nameSuffixAlphabet)) [0..<n]"

text \<open>The loop of \<^verbatim>\<open>generateUniqueName\<close> need not end: not returning is \<^const>\<open>None\<close>. A result comes with
  the position of the random source after it.\<close>

partial_function (option) generateLoop ::
    "(string \<Rightarrow> bool) \<Rightarrow> string \<Rightarrow> (nat \<Rightarrow> nat) \<Rightarrow> nat \<Rightarrow> (string \<times> nat) option" where
  "generateLoop exists prefix draws i = (
     let candidate = prefix @ randSuffix 5 draws i
     in if exists candidate then generateLoop exists prefix draws (i + 5) else Some (candidate, i + 5))"

declare generateLoop.simps [code]

definition generateUniqueName ::
    "('j, 'db) store \<Rightarrow> GVR \<Rightarrow> resourceMeta \<Rightarrow> string \<Rightarrow> string \<Rightarrow> (string \<times> nat) option" where
  "generateUniqueName s gvr rm ns prefix =
     generateLoop (\<lambda>c. lookup s gvr (key (rmNamespaced rm) ns c) \<noteq> None) prefix (rand s) (randCount s)"

section \<open>Events and persistence of a write\<close>

definition chanCap :: nat where "chanCap = 512"

text \<open>One iteration of the loop of \<^verbatim>\<open>emitLocked\<close> touches the entries of its own subscription only, so
  the loop is a pointwise update: a matching subscription gets the event, or, when its
  buffer is full, its channel is closed and it leaves the map.\<close>

definition chan_full :: "'j chan \<Rightarrow> bool" where
  "chan_full c \<longleftrightarrow> chanCap \<le> length (buf c)"

lemma chan_full_code [code]: "chan_full c \<longleftrightarrow> 512 \<le> int (length (buf c))"
  by (simp add: chan_full_def chanCap_def)

definition emitLocked :: "'j Event \<Rightarrow> ('j, 'db) store \<Rightarrow> ('j, 'db) store" where
  "emitLocked ev s = (
     let h = history s @ [ev];
         h' = (if length h > histCap s then drop (length h - histCap s) h else h)
     in s\<lparr>history := h',
          chans := (\<lambda>i. if subs s i = Some (evGVR ev)
             then (if chan_full (chans s i) then (chans s i)\<lparr>closed := True\<rparr>
                   else (chans s i)\<lparr>buf := buf (chans s i) @ [ev]\<rparr>)
             else chans s i),
          subs := (\<lambda>i. if subs s i = Some (evGVR ev) \<and> chan_full (chans s i) then None else subs s i)\<rparr>)"

definition putLocked :: "('j, 'db) storelib \<Rightarrow> GVR \<Rightarrow> string \<Rightarrow> 'j obj \<Rightarrow> uint64 \<Rightarrow> ('j, 'db) store \<Rightarrow> ('j, 'db) store" where
  "putLocked L gvr k ob n s = (
     let s1 = s\<lparr>data := (data s)(gvr := AList.update k ob (data s gvr))\<rparr>
     in case persist s1 of
          None \<Rightarrow> s1
        | Some db \<Rightarrow> (case MarshalJSON L ob of
              Inl _ \<Rightarrow> s1
            | Inr bs \<Rightarrow> s1\<lparr>persist := Some (snd (SaveObject L gvr k bs n db))\<rparr>))"

definition put_and_emit :: "('j, 'db) storelib \<Rightarrow> EventType \<Rightarrow> GVR \<Rightarrow> string \<Rightarrow> 'j obj \<Rightarrow> ('j, 'db) store \<Rightarrow> ('j, 'db) store" where
  "put_and_emit L t gvr k ob s =
     emitLocked \<lparr>evType = t, evObject = ob, evRV = rv s, evGVR = gvr\<rparr> (putLocked L gvr k ob (rv s) s)"

section \<open>Create\<close>

text \<open>The object \<^verbatim>\<open>Create\<close> stores, with the system metadata filled in, and the state after
  \<^verbatim>\<open>nextRV\<close> and \<^verbatim>\<open>newUID\<close>.\<close>

definition stampNew :: "'j obj \<Rightarrow> ('j, 'db) store \<Rightarrow> ('j, 'db) store \<times> 'j obj" where
  "stampNew ob s = (
     let s1 = nextRV s;
         (s2, ob1) = (if uid ob = '''' then (s1\<lparr>uidCount := uidCount s1 + 1\<rparr>, ob\<lparr>uid := newUID s1 (uidCount s1)\<rparr>)
                      else (s1, ob));
         ob2 = ob1\<lparr>resourceVersion := FormatUint (rv s1), generation := 1\<rparr>;
         ob3 = (if creationTimestamp ob2 = None then ob2\<lparr>creationTimestamp := Some (now s)\<rparr> else ob2)
     in (s2, ob3))"

definition createNamed :: "('j, 'db) storelib \<Rightarrow> GVR \<Rightarrow> resourceMeta \<Rightarrow> 'j obj \<Rightarrow> ('j, 'db) store \<Rightarrow>
    ('j, 'db) store \<times> (apierr + 'j obj)" where
  "createNamed L gvr rm ob s = (
     let k = key (rmNamespaced rm) (namespace ob) (name ob)
     in if lookup s gvr k \<noteq> None then (s, Inl (AlreadyExists (rmGroupRes rm) (name ob)))
        else (let (s1, ob1) = stampNew ob s in (put_and_emit L Added gvr k ob1 s1, Inr ob1)))"

definition Create :: "('j, 'db) storelib \<Rightarrow> GVR \<Rightarrow> 'j obj \<Rightarrow> ('j, 'db) store \<Rightarrow>
    (('j, 'db) store \<times> (apierr + 'j obj)) option" where
  "Create L gvr ob s = (case meta s gvr of
      Inl err \<Rightarrow> Some (s, Inl err)
    | Inr rm \<Rightarrow>
       (let ob1 = (if rmNamespaced rm then ob else ob\<lparr>namespace := ''''\<rparr>)
        in if name ob1 = '''' then
             (if generateName ob1 \<noteq> '''' then
                (case generateUniqueName s gvr rm (namespace ob1) (generateName ob1) of
                   None \<Rightarrow> None
                 | Some (nm, i) \<Rightarrow> Some (createNamed L gvr rm (ob1\<lparr>name := nm\<rparr>) (s\<lparr>randCount := i\<rparr>)))
              else Some (s, Inl (BadRequest ''store: object has neither metadata.name nor metadata.generateName'')))
           else Some (createNamed L gvr rm ob1 s)))"

section \<open>Get, Update, Delete, List\<close>

definition Get :: "GVR \<Rightarrow> string \<Rightarrow> string \<Rightarrow> ('j, 'db) store \<Rightarrow> apierr + 'j obj" where
  "Get gvr ns nm s = (case meta s gvr of
      Inl err \<Rightarrow> Inl err
    | Inr rm \<Rightarrow> (case lookup s gvr (key (rmNamespaced rm) ns nm) of
          None \<Rightarrow> Inl (NotFound (rmGroupRes rm) nm)
        | Some ob \<Rightarrow> Inr ob))"

definition mergeForUpdate :: "'j obj \<Rightarrow> 'j obj \<Rightarrow> bool \<Rightarrow> 'j obj" where
  "mergeForUpdate old incoming isStatus = (
     if isStatus then old\<lparr>status := status incoming\<rparr>
     else (let result = incoming\<lparr>uid := uid old, creationTimestamp := creationTimestamp old,
                 status := status old\<rparr>
           in if spec old = spec result then result\<lparr>generation := generation old\<rparr>
              else result\<lparr>generation := generation old + 1\<rparr>))"

text \<open>The tail \<^verbatim>\<open>Update\<close> and \<^verbatim>\<open>Patch\<close> share: merge, take the next version, store and announce.\<close>

definition commitUpdate :: "('j, 'db) storelib \<Rightarrow> GVR \<Rightarrow> string \<Rightarrow> 'j obj \<Rightarrow> 'j obj \<Rightarrow> bool \<Rightarrow> ('j, 'db) store \<Rightarrow>
    ('j, 'db) store \<times> 'j obj" where
  "commitUpdate L gvr k old incoming isStatus s = (
     let s1 = nextRV s;
         merged = (mergeForUpdate old incoming isStatus)\<lparr>resourceVersion := FormatUint (rv s1)\<rparr>
     in (put_and_emit L Modified gvr k merged s1, merged))"

definition stale :: "'j obj \<Rightarrow> 'j obj \<Rightarrow> bool" where
  "stale ob old \<longleftrightarrow> resourceVersion ob \<noteq> '''' \<and> resourceVersion ob \<noteq> resourceVersion old"

definition Update :: "('j, 'db) storelib \<Rightarrow> GVR \<Rightarrow> 'j obj \<Rightarrow> bool \<Rightarrow> ('j, 'db) store \<Rightarrow>
    ('j, 'db) store \<times> (apierr + 'j obj)" where
  "Update L gvr ob isStatus s = (case meta s gvr of
      Inl err \<Rightarrow> (s, Inl err)
    | Inr rm \<Rightarrow>
       (let ns = (if rmNamespaced rm then namespace ob else '''');
            k = key (rmNamespaced rm) ns (name ob)
        in case lookup s gvr k of
             None \<Rightarrow> (s, Inl (NotFound (rmGroupRes rm) (name ob)))
           | Some old \<Rightarrow>
              (if stale ob old then (s, Inl (Conflict (rmGroupRes rm) (name ob)))
               else (let (s1, merged) = commitUpdate L gvr k old ob isStatus s in (s1, Inr merged)))))"

text \<open>\<^verbatim>\<open>Delete\<close> up to the release of the lock; the hook runs after it, outside the store.\<close>

definition Delete :: "('j, 'db) storelib \<Rightarrow> GVR \<Rightarrow> string \<Rightarrow> string \<Rightarrow> ('j, 'db) store \<Rightarrow>
    ('j, 'db) store \<times> (apierr + 'j obj)" where
  "Delete L gvr ns0 nm s = (case meta s gvr of
      Inl err \<Rightarrow> (s, Inl err)
    | Inr rm \<Rightarrow>
       (let ns = (if rmNamespaced rm then ns0 else '''');
            k = key (rmNamespaced rm) ns nm
        in case lookup s gvr k of
             None \<Rightarrow> (s, Inl (NotFound (rmGroupRes rm) nm))
           | Some old \<Rightarrow>
              (let s1 = nextRV (s\<lparr>data := (data s)(gvr := AList.delete k (data s gvr))\<rparr>);
                   s2 = (case persist s1 of
                           None \<Rightarrow> s1
                         | Some db \<Rightarrow> s1\<lparr>persist := Some (snd (RemoveObject L gvr k (rv s1) db))\<rparr>);
                   deleted = old\<lparr>resourceVersion := FormatUint (rv s1)\<rparr>
               in (emitLocked \<lparr>evType = Deleted, evObject = deleted, evRV = rv s1, evGVR = gvr\<rparr> s2, Inr deleted))))"

definition SetDeleteHook :: "('j, 'db) store \<Rightarrow> ('j, 'db) store" where
  "SetDeleteHook s = s\<lparr>onDelete := True\<rparr>"

record 'j ListResult =
  lrItems :: "'j obj list"
  lrRV :: uint64

text \<open>Ranging over a Go map visits its entries in an order the runtime picks: the argument \<open>ord\<close>,
  any function that permutes the entries.\<close>

type_synonym 'j maporder = "(string \<times> 'j obj) list \<Rightarrow> (string \<times> 'j obj) list"

definition permutes :: "'j maporder \<Rightarrow> bool" where
  "permutes ord \<longleftrightarrow> (\<forall>xs. mset (ord xs) = mset xs)"

definition in_namespace :: "resourceMeta \<Rightarrow> string \<Rightarrow> 'j obj \<Rightarrow> bool" where
  "in_namespace rm ns ob \<longleftrightarrow> \<not> (rmNamespaced rm \<and> ns \<noteq> '''' \<and> namespace ob \<noteq> ns)"

definition StoreList :: "'j maporder \<Rightarrow> GVR \<Rightarrow> string \<Rightarrow> Selectors \<Rightarrow> ('j, 'db) store \<Rightarrow> apierr + 'j ListResult" where
  "StoreList ord gvr ns sel s = (case meta s gvr of
      Inl err \<Rightarrow> Inl err
    | Inr rm \<Rightarrow> Inr \<lparr>lrItems = filter (\<lambda>ob. in_namespace rm ns ob \<and> Selectors_Matches sel ob)
          (map snd (ord (data s gvr))), lrRV = rv s\<rparr>)"

section \<open>Loading a snapshot\<close>

text \<open>The two nested loops stop at the first object that does not decode, keeping what was
  loaded before it.\<close>

fun loadObjects :: "('j, 'db) storelib \<Rightarrow> GVR \<Rightarrow> (string \<times> bytes) list \<Rightarrow> ('j, 'db) store \<Rightarrow>
    ('j, 'db) store \<times> string option" where
  "loadObjects L gvr [] s = (s, None)"
| "loadObjects L gvr ((k, bs) # objs) s = (case UnmarshalJSON L bs of
      Inl err \<Rightarrow> (s, Some (''store: load '' @ GVR_String gvr @ ''/'' @ k @ '': '' @ err))
    | Inr u \<Rightarrow> loadObjects L gvr objs (s\<lparr>data := (data s)(gvr := AList.update k u (data s gvr))\<rparr>))"

fun LoadFrom :: "('j, 'db) storelib \<Rightarrow> snapshot \<Rightarrow> ('j, 'db) store \<Rightarrow> ('j, 'db) store \<times> string option" where
  "LoadFrom L [] s = (s, None)"
| "LoadFrom L ((gvr, objs) # snap) s =
     (if resources s gvr = None then LoadFrom L snap s
      else case loadObjects L gvr objs s of
          (s1, Some err) \<Rightarrow> (s1, Some err)
        | (s1, None) \<Rightarrow> LoadFrom L snap s1)"

end
