(* ===== verification/Patch.thy ===== *)
theory Patch
  imports Store
begin

text \<open>
  \<^verbatim>\<open>internal/store/patch.go\<close>: the PATCH verb. The three patch algorithms are library code; the file
  decides which one runs, decodes the result, checks the version precondition and commits
  through the same path as \<^verbatim>\<open>Update\<close>.
\<close>

definition JSONPatchType :: string where "JSONPatchType = ''application/json-patch+json''"
definition MergePatchType :: string where "MergePatchType = ''application/merge-patch+json''"
definition StrategicMergePatchType :: string where
  "StrategicMergePatchType = ''application/strategic-merge-patch+json''"
definition ApplyPatchType :: string where "ApplyPatchType = ''application/apply-patch+yaml''"

lemmas patch_type_defs = JSONPatchType_def MergePatchType_def StrategicMergePatchType_def ApplyPatchType_def

text \<open>The switch on the patch type.\<close>

definition patchJSON :: "('j, 'db) storelib \<Rightarrow> string \<Rightarrow> bytes \<Rightarrow> bytes \<Rightarrow> apierr + bytes" where
  "patchJSON L patchType oldJSON body = (
     if patchType = JSONPatchType then
       (case DecodePatch L body of
          Inl err \<Rightarrow> Inl (BadRequest (''store: invalid json patch: '' @ err))
        | Inr p \<Rightarrow> (case p oldJSON of
              Inl err \<Rightarrow> Inl (BadRequest (''store: json patch apply failed: '' @ err))
            | Inr j \<Rightarrow> Inr j))
     else if patchType = MergePatchType \<or> patchType = StrategicMergePatchType then
       (case MergePatch L oldJSON body of
          Inl err \<Rightarrow> Inl (BadRequest (''store: merge patch failed: '' @ err))
        | Inr j \<Rightarrow> Inr j)
     else if patchType = ApplyPatchType then
       (case YAMLToJSON L body of
          Inl err \<Rightarrow> Inl (BadRequest (''store: apply patch yaml decode failed: '' @ err))
        | Inr jsonData \<Rightarrow> (case MergePatch L oldJSON jsonData of
              Inl err \<Rightarrow> Inl (BadRequest (''store: apply patch merge failed: '' @ err))
            | Inr j \<Rightarrow> Inr j))
     else Inl (BadRequest (''store: unsupported patch type '' @ patchType)))"

definition Patch :: "('j, 'db) storelib \<Rightarrow> GVR \<Rightarrow> string \<Rightarrow> string \<Rightarrow> string \<Rightarrow> bytes \<Rightarrow> bool \<Rightarrow>
    ('j, 'db) store \<Rightarrow> ('j, 'db) store \<times> (apierr + 'j obj)" where
  "Patch L gvr ns0 nm patchType body isStatus s = (case meta s gvr of
      Inl err \<Rightarrow> (s, Inl err)
    | Inr rm \<Rightarrow>
       (let ns = (if rmNamespaced rm then ns0 else '''');
            k = key (rmNamespaced rm) ns nm
        in case lookup s gvr k of
             None \<Rightarrow> (s, Inl (NotFound (rmGroupRes rm) nm))
           | Some old \<Rightarrow>
              (case MarshalJSON L old of
                 Inl err \<Rightarrow> (s, Inl (InternalError err))
               | Inr oldJSON \<Rightarrow>
                  (case patchJSON L patchType oldJSON body of
                     Inl err \<Rightarrow> (s, Inl err)
                   | Inr patchedJSON \<Rightarrow>
                      (case UnmarshalJSON L patchedJSON of
                         Inl err \<Rightarrow> (s, Inl (InternalError err))
                       | Inr patched \<Rightarrow>
                          (if stale patched old then (s, Inl (Conflict (rmGroupRes rm) nm))
                           else (let (s1, merged) = commitUpdate L gvr k old patched isStatus s
                                 in (s1, Inr merged))))))))"

end
