(* ===== verification/Watch.thy ===== *)
theory Watch
  imports Store
begin

text \<open>
  \<^verbatim>\<open>internal/store/watch.go\<close>: setting a watch up, the goroutine that delivers its events, and its
  removal. \<^verbatim>\<open>Watch\<close> returns the state of the goroutine it starts, a \<open>pump\<close>; the goroutine's
  statements between two channel operations are the step functions below, so that they can be
  interleaved with the operations of other goroutines. \<open>delivered\<close> is what the consumer has
  received on the channel \<^verbatim>\<open>out\<close>.
\<close>

record WatchOptions =
  woNamespace :: string
  woSelectors :: Selectors
  woStartRV :: uint64
  woHasStartRV :: bool

record 'j pump =
  pSub :: nat
  pGVR :: GVR
  pMeta :: resourceMeta
  pBoot :: "'j Event list"
  pCurrentRV :: uint64
  pOpts :: WatchOptions
  delivered :: "'j Event list"
  finished :: bool

definition oldestHistoryRV :: "('j, 'db) store \<Rightarrow> uint64" where
  "oldestHistoryRV s = (case history s of [] \<Rightarrow> 0 | ev # _ \<Rightarrow> evRV ev)"

definition replayFromHistory :: "WatchOptions \<Rightarrow> ('j, 'db) store \<Rightarrow> bool" where
  "replayFromHistory opts s \<longleftrightarrow> woHasStartRV opts \<and> woStartRV opts > 0 \<and>
     (woStartRV opts \<ge> oldestHistoryRV s \<or> length (history s) = 0)"

definition replayEvents :: "GVR \<Rightarrow> WatchOptions \<Rightarrow> ('j, 'db) store \<Rightarrow> 'j Event list" where
  "replayEvents gvr opts s = filter (\<lambda>ev. evRV ev > woStartRV opts \<and> evGVR ev = gvr) (history s)"

definition snapshotEvents :: "'j maporder \<Rightarrow> GVR \<Rightarrow> resourceMeta \<Rightarrow> WatchOptions \<Rightarrow> ('j, 'db) store \<Rightarrow> 'j Event list" where
  "snapshotEvents ord gvr rm opts s =
     map (\<lambda>ob. \<lparr>evType = Added, evObject = ob, evRV = parseRV (resourceVersion ob), evGVR = gvr\<rparr>)
       (filter (\<lambda>ob. in_namespace rm (woNamespace opts) ob \<and>
           \<not> (woHasStartRV opts \<and> woStartRV opts > 0 \<and> parseRV (resourceVersion ob) \<le> woStartRV opts))
         (map snd (ord (data s gvr))))"

definition bootstrapEvents :: "'j maporder \<Rightarrow> GVR \<Rightarrow> resourceMeta \<Rightarrow> WatchOptions \<Rightarrow> ('j, 'db) store \<Rightarrow> 'j Event list" where
  "bootstrapEvents ord gvr rm opts s =
     (if replayFromHistory opts s then replayEvents gvr opts s else snapshotEvents ord gvr rm opts s)"

definition Watch :: "'j maporder \<Rightarrow> GVR \<Rightarrow> WatchOptions \<Rightarrow> ('j, 'db) store \<Rightarrow>
    ('j, 'db) store \<times> (apierr + 'j pump)" where
  "Watch ord gvr opts s = (case meta s gvr of
      Inl err \<Rightarrow> (s, Inl err)
    | Inr rm \<Rightarrow>
       (let i = nextSub s
        in (s\<lparr>nextSub := i + 1, subs := (subs s)(i \<mapsto> gvr), chans := (chans s)(i := \<lparr>buf = [], closed = False\<rparr>)\<rparr>,
            Inr \<lparr>pSub = i, pGVR = gvr, pMeta = rm, pBoot = bootstrapEvents ord gvr rm opts s,
                 pCurrentRV = rv s, pOpts = opts, delivered = [], finished = False\<rparr>)))"

definition pump_match :: "'j pump \<Rightarrow> 'j Event \<Rightarrow> bool" where
  "pump_match p ev \<longleftrightarrow> in_namespace (pMeta p) (woNamespace (pOpts p)) (evObject ev) \<and>
     Selectors_Matches (woSelectors (pOpts p)) (evObject ev)"

definition removeSub :: "nat \<Rightarrow> ('j, 'db) store \<Rightarrow> ('j, 'db) store" where
  "removeSub i s = s\<lparr>subs := (subs s)(i := None)\<rparr>"

text \<open>One iteration of the loop over \<^verbatim>\<open>bootstrap\<close>.\<close>

definition pump_boot :: "'j pump \<Rightarrow> 'j pump" where
  "pump_boot p = (case pBoot p of
      [] \<Rightarrow> p
    | ev # rest \<Rightarrow>
       (if pump_match p ev then p\<lparr>pBoot := rest, delivered := delivered p @ [ev]\<rparr>
        else p\<lparr>pBoot := rest\<rparr>))"

text \<open>One receive from \<^verbatim>\<open>sub.ch\<close>: a closed and drained channel ends the watch, and the deferred
  \<^verbatim>\<open>removeSub\<close> runs.\<close>

definition pump_live :: "('j, 'db) store \<Rightarrow> 'j pump \<Rightarrow> ('j, 'db) store \<times> 'j pump" where
  "pump_live s p = (
     let c = chans s (pSub p)
     in case buf c of
          [] \<Rightarrow> (if closed c then (removeSub (pSub p) s, p\<lparr>finished := True\<rparr>) else (s, p))
        | ev # rest \<Rightarrow>
           (let s1 = s\<lparr>chans := (chans s)(pSub p := c\<lparr>buf := rest\<rparr>)\<rparr>
            in if evRV ev \<le> pCurrentRV p then (s1, p)
               else if \<not> pump_match p ev then (s1, p)
               else (s1, p\<lparr>delivered := delivered p @ [ev]\<rparr>)))"

text \<open>\<^verbatim>\<open>ctx.Done()\<close>.\<close>

definition pump_cancel :: "('j, 'db) store \<Rightarrow> 'j pump \<Rightarrow> ('j, 'db) store \<times> 'j pump" where
  "pump_cancel s p = (removeSub (pSub p) s, p\<lparr>finished := True\<rparr>)"

end
