(* ===== verification/StoreFacts.thy ===== *)
theory StoreFacts
  imports Patch Watch
begin

text \<open>
  Facts about single store operations: what each leaves alone, what it does to a lookup and to
  the event history, and a summary lemma per mutating operation on which the invariants rest.
\<close>

section \<open>Frames\<close>

lemma emitLocked_frame [simp, store_frame]:
  "data (emitLocked ev s) = data s" "resources (emitLocked ev s) = resources s"
  "rv (emitLocked ev s) = rv s" "histCap (emitLocked ev s) = histCap s"
  "nextSub (emitLocked ev s) = nextSub s" "persist (emitLocked ev s) = persist s"
  "onDelete (emitLocked ev s) = onDelete s" "now (emitLocked ev s) = now s"
  "newUID (emitLocked ev s) = newUID s" "uidCount (emitLocked ev s) = uidCount s"
  "rand (emitLocked ev s) = rand s" "randCount (emitLocked ev s) = randCount s"
  by (simp_all add: emitLocked_def Let_def)

lemma putLocked_frame [simp, store_frame]:
  "resources (putLocked L g k ob n s) = resources s" "rv (putLocked L g k ob n s) = rv s"
  "history (putLocked L g k ob n s) = history s" "histCap (putLocked L g k ob n s) = histCap s"
  "subs (putLocked L g k ob n s) = subs s" "chans (putLocked L g k ob n s) = chans s"
  "nextSub (putLocked L g k ob n s) = nextSub s" "onDelete (putLocked L g k ob n s) = onDelete s"
  "now (putLocked L g k ob n s) = now s" "newUID (putLocked L g k ob n s) = newUID s"
  "uidCount (putLocked L g k ob n s) = uidCount s" "rand (putLocked L g k ob n s) = rand s"
  "randCount (putLocked L g k ob n s) = randCount s"
  "data (putLocked L g k ob n s) = (data s)(g := AList.update k ob (data s g))"
  by (simp_all add: putLocked_def Let_def split: option.split sum.split)

lemma nextRV_frame [simp, store_frame]:
  "data (nextRV s) = data s" "resources (nextRV s) = resources s" "rv (nextRV s) = rv s + 1"
  "history (nextRV s) = history s" "histCap (nextRV s) = histCap s" "subs (nextRV s) = subs s"
  "chans (nextRV s) = chans s" "nextSub (nextRV s) = nextSub s" "persist (nextRV s) = persist s"
  "onDelete (nextRV s) = onDelete s" "now (nextRV s) = now s" "newUID (nextRV s) = newUID s"
  "uidCount (nextRV s) = uidCount s" "rand (nextRV s) = rand s" "randCount (nextRV s) = randCount s"
  by (simp_all add: nextRV_def)

lemma lookup_cong: "data s = data s' \<Longrightarrow> lookup s = lookup s'"
  by (simp add: lookup_def fun_eq_iff)

lemma meta_cong: "resources s = resources s' \<Longrightarrow> meta s = meta s'"
  by (simp add: meta_def fun_eq_iff)

lemma meta_Inr [simp]: "meta s g = Inr rm \<longleftrightarrow> resources s g = Some rm"
  by (simp add: meta_def split: option.split)

lemma meta_Inl: "meta s g = Inl e \<longleftrightarrow>
    resources s g = None \<and> e = InternalError (''store: GVR '' @ GVR_String g @ '' not registered'')"
  by (auto simp: meta_def split: option.split)

section \<open>Trimming the history\<close>

definition trim :: "nat \<Rightarrow> 'a list \<Rightarrow> 'a list" where
  "trim n xs = drop (length xs - n) xs"

lemma history_emitLocked [simp]: "history (emitLocked ev s) = trim (histCap s) (history s @ [ev])"
  by (auto simp: emitLocked_def trim_def Let_def)

lemma length_trim [simp]: "length (trim n xs) = min n (length xs)"
  by (auto simp: trim_def)

lemma trim_snoc: "trim n (trim n xs @ [x]) = trim n (xs @ [x])"
proof (cases n)
  case 0
  then show ?thesis by (simp add: trim_def)
next
  case (Suc m)
  have "length xs - (length xs - Suc m + m) + (length xs - Suc m) = length xs - m" by arith
  with Suc show ?thesis by (simp add: trim_def)
qed

section \<open>What a committed write does\<close>

text \<open>The effect every successful mutation has, whatever else it does: one event, one version.\<close>

definition commits :: "('j, 'db) store \<Rightarrow> 'j Event \<Rightarrow> ('j, 'db) store \<Rightarrow> bool" where
  "commits s ev s' \<longleftrightarrow>
     rv s' = rv s + 1 \<and> evRV ev = rv s' \<and> resourceVersion (evObject ev) = FormatUint (rv s') \<and>
     history s' = trim (histCap s) (history s @ [ev]) \<and> histCap s' = histCap s \<and>
     resources s' = resources s \<and> nextSub s' = nextSub s \<and>
     subs s' = subs (emitLocked ev s) \<and> chans s' = chans (emitLocked ev s)"

lemma emit_subs_chans:
  assumes "subs s = subs t" "chans s = chans t"
  shows "subs (emitLocked ev s) = subs (emitLocked ev t)" "chans (emitLocked ev s) = chans (emitLocked ev t)"
  using assms by (simp_all add: emitLocked_def Let_def cong: if_cong)

text \<open>The stored objects after an event: what a client's cache does with it.\<close>

definition event_key :: "('j, 'db) store \<Rightarrow> 'j Event \<Rightarrow> string" where
  "event_key s ev = key (case resources s (evGVR ev) of Some rm \<Rightarrow> rmNamespaced rm | None \<Rightarrow> False)
     (namespace (evObject ev)) (name (evObject ev))"

definition apply_event :: "('j, 'db) store \<Rightarrow> 'j Event \<Rightarrow> (GVR \<times> string \<rightharpoonup> 'j obj) \<Rightarrow> (GVR \<times> string \<rightharpoonup> 'j obj)" where
  "apply_event s ev m = (if evType ev = Deleted then m((evGVR ev, event_key s ev) := None)
     else m((evGVR ev, event_key s ev) \<mapsto> evObject ev))"

lemma apply_event_put:
  "resources s g = Some rm \<Longrightarrow> t \<noteq> Deleted \<Longrightarrow>
   apply_event s \<lparr>evType = t, evObject = ob, evRV = r, evGVR = g\<rparr> m = m((g, key (rmNamespaced rm) (namespace ob) (name ob)) \<mapsto> ob)"
  by (simp add: apply_event_def event_key_def)

lemma apply_event_delete:
  "resources s g = Some rm \<Longrightarrow>
   apply_event s \<lparr>evType = Deleted, evObject = ob, evRV = r, evGVR = g\<rparr> m = m((g, key (rmNamespaced rm) (namespace ob) (name ob)) := None)"
  by (simp add: apply_event_def event_key_def)

definition view :: "('j, 'db) store \<Rightarrow> (GVR \<times> string \<rightharpoonup> 'j obj)" where
  "view s = (\<lambda>(g, k). lookup s g k)"

lemma view_apply: "view s (g, k) = lookup s g k"
  by (simp add: view_def)

lemma view_put:
  "view (emitLocked ev (putLocked L g k ob n s)) = (view s)((g, k) \<mapsto> ob)"
  by (auto simp: fun_eq_iff view_def lookup_def)

lemma key_non_namespaced [simp]: "key False ns nm = ''/'' @ nm" "key False ns nm = key False ns' nm"
  by (simp_all add: key_def)

lemma stampNew_frame:
  assumes "stampNew ob s = (s1, ob1)"
  shows "data s1 = data s" "resources s1 = resources s" "rv s1 = rv s + 1" "history s1 = history s"
    "histCap s1 = histCap s" "subs s1 = subs s" "chans s1 = chans s" "nextSub s1 = nextSub s"
    "persist s1 = persist s" "onDelete s1 = onDelete s" "randCount s1 = randCount s"
    "namespace ob1 = namespace ob" "name ob1 = name ob" "resourceVersion ob1 = FormatUint (rv s1)"
    "generation ob1 = 1" "spec ob1 = spec ob" "status ob1 = status ob" "labels ob1 = labels ob"
    "annotations ob1 = annotations ob" "ownerReferences ob1 = ownerReferences ob" "kind ob1 = kind ob"
    "apiVersion ob1 = apiVersion ob" "extra ob1 = extra ob" "deletionTimestamp ob1 = deletionTimestamp ob"
    "uid ob1 = (if uid ob = '''' then newUID s (uidCount s) else uid ob)"
    "creationTimestamp ob1 = (if creationTimestamp ob = None then Some (now s) else creationTimestamp ob)"
  using assms by (auto simp: stampNew_def Let_def split: if_splits)

lemma put_and_emit_commits:
  assumes "rv s1 = rv s + 1" "history s1 = history s" "histCap s1 = histCap s" "subs s1 = subs s"
    "chans s1 = chans s" "nextSub s1 = nextSub s" "resources s1 = resources s"
    "resourceVersion ob = FormatUint (rv s1)"
  shows "commits s \<lparr>evType = t, evObject = ob, evRV = rv s1, evGVR = g\<rparr> (put_and_emit L t g k ob s1)"
  using assms emit_subs_chans [of "putLocked L g k ob (rv s1) s1" s]
  by (simp add: commits_def put_and_emit_def)

section \<open>Create\<close>

definition eff_ns :: "resourceMeta \<Rightarrow> string \<Rightarrow> string" where
  "eff_ns rm ns = (if rmNamespaced rm then ns else '''')"

lemma createNamed_ok:
  assumes "createNamed L g rm ob s = (s', Inr ob')" and "resources s g = Some rm"
  shows "commits s \<lparr>evType = Added, evObject = ob', evRV = rv s', evGVR = g\<rparr> s'"
    and "lookup s g (key (rmNamespaced rm) (namespace ob) (name ob)) = None"
    and "view s' = (view s)((g, key (rmNamespaced rm) (namespace ob) (name ob)) \<mapsto> ob')"
    and "namespace ob' = namespace ob" "name ob' = name ob"
    and "\<exists>s1. stampNew ob s = (s1, ob')"
proof -
  let ?k = "key (rmNamespaced rm) (namespace ob) (name ob)"
  obtain s1 ob1 where st: "stampNew ob s = (s1, ob1)" by fastforce
  with assms(1) have none: "lookup s g ?k = None" and s': "s' = put_and_emit L Added g ?k ob1 s1" and ob': "ob' = ob1"
    by (auto simp: createNamed_def Let_def split: if_splits)
  note fr = stampNew_frame [OF st]
  show "lookup s g ?k = None" by (rule none)
  have rv': "rv s' = rv s1" by (simp add: s' put_and_emit_def)
  show "commits s \<lparr>evType = Added, evObject = ob', evRV = rv s', evGVR = g\<rparr> s'"
    unfolding ob' rv' unfolding s' using fr by (intro put_and_emit_commits) simp_all
  have "view s1 = view s" using fr(1) by (simp add: view_def lookup_def fun_eq_iff)
  then show "view s' = (view s)((g, ?k) \<mapsto> ob')"
    by (simp add: s' ob' put_and_emit_def view_put)
  show "namespace ob' = namespace ob" "name ob' = name ob" "\<exists>s1. stampNew ob s = (s1, ob')"
    using fr st by (simp_all add: ob')
qed

lemma createNamed_err:
  assumes "createNamed L g rm ob s = (s', Inl e)"
  shows "s' = s" "e = AlreadyExists (rmGroupRes rm) (name ob)"
    "lookup s g (key (rmNamespaced rm) (namespace ob) (name ob)) \<noteq> None"
  using assms by (auto simp: createNamed_def Let_def split: if_splits prod.splits)

text \<open>\<open>Create\<close> succeeds only through \<open>createNamed\<close>, with the name given or generated.\<close>

lemma Create_okE:
  assumes "Create L g ob s = Some (s', Inr ob')"
  obtains rm ob1 i where "resources s g = Some rm" "createNamed L g rm ob1 (s\<lparr>randCount := i\<rparr>) = (s', Inr ob')"
    "namespace ob1 = eff_ns rm (namespace ob)" "name ob1 = name ob \<or> name ob = ''''" "name ob = '''' \<or> i = randCount s"
    "name ob = '''' \<Longrightarrow> generateUniqueName s g rm (namespace ob1) (generateName ob) = Some (name ob1, i)"
    "ob1 = ob\<lparr>namespace := namespace ob1, name := name ob1\<rparr>"
proof (cases "meta s g")
  case (Inl e)
  with assms show ?thesis by (simp add: Create_def)
next
  case (Inr rm)
  let ?ob1 = "if rmNamespaced rm then ob else ob\<lparr>namespace := ''''\<rparr>"
  have rm: "resources s g = Some rm" using Inr by simp
  show ?thesis
  proof (cases "name ob = ''''")
    case False
    then have "createNamed L g rm ?ob1 (s\<lparr>randCount := randCount s\<rparr>) = (s', Inr ob')"
      using assms Inr by (auto simp: Create_def Let_def split: if_splits)
    with rm False show ?thesis by (intro that [of rm ?ob1 "randCount s"]) (auto simp: eff_ns_def)
  next
    case True
    then obtain nm i where gen: "generateUniqueName s g rm (namespace ?ob1) (generateName ob) = Some (nm, i)"
      and cn: "createNamed L g rm (?ob1\<lparr>name := nm\<rparr>) (s\<lparr>randCount := i\<rparr>) = (s', Inr ob')"
      using assms Inr by (auto simp: Create_def Let_def split: if_splits option.splits)
    with rm True show ?thesis
      by (intro that [of rm "?ob1\<lparr>name := nm\<rparr>" i]) (auto simp: eff_ns_def)
  qed
qed

lemma Create_errE:
  assumes "Create L g ob s = Some (s', Inl e)"
  shows "\<exists>i. s' = s\<lparr>randCount := i\<rparr>"
proof (cases "meta s g")
  case (Inl e')
  with assms have "s' = s\<lparr>randCount := randCount s\<rparr>" by (simp add: Create_def)
  then show ?thesis by blast
next
  case (Inr rm)
  show ?thesis
  proof (cases "name ob = ''''")
    case False
    with assms Inr have "s' = s\<lparr>randCount := randCount s\<rparr>"
      by (auto simp: Create_def Let_def dest: createNamed_err split: if_splits)
    then show ?thesis by blast
  next
    case True
    with assms Inr show ?thesis
      by (auto simp: Create_def Let_def dest: createNamed_err split: if_splits option.splits intro: exI [of _ "randCount s"])
  qed
qed

section \<open>Update and Patch\<close>

lemma mergeForUpdate_meta [simp]:
  "uid (mergeForUpdate old inc st) = uid old"
  "creationTimestamp (mergeForUpdate old inc st) = creationTimestamp old"
  by (simp_all add: mergeForUpdate_def Let_def)

lemma mergeForUpdate_status [simp]:
  "status (mergeForUpdate old inc st) = (if st then status inc else status old)"
  "spec (mergeForUpdate old inc st) = (if st then spec old else spec inc)"
  "namespace (mergeForUpdate old inc st) = (if st then namespace old else namespace inc)"
  "name (mergeForUpdate old inc st) = (if st then name old else name inc)"
  "labels (mergeForUpdate old inc st) = (if st then labels old else labels inc)"
  "ownerReferences (mergeForUpdate old inc st) = (if st then ownerReferences old else ownerReferences inc)"
  "annotations (mergeForUpdate old inc st) = (if st then annotations old else annotations inc)"
  "generation (mergeForUpdate old inc st) =
     (if st \<or> spec old = spec inc then generation old else generation old + 1)"
  by (simp_all add: mergeForUpdate_def Let_def)

lemma commitUpdate_facts:
  assumes "commitUpdate L g k old inc st s = (s', m)"
  shows "commits s \<lparr>evType = Modified, evObject = m, evRV = rv s', evGVR = g\<rparr> s'"
    and "view s' = (view s)((g, k) \<mapsto> m)"
    and "m = (mergeForUpdate old inc st)\<lparr>resourceVersion := FormatUint (rv s + 1)\<rparr>"
    and "rv s' = rv s + 1"
proof -
  let ?m = "(mergeForUpdate old inc st)\<lparr>resourceVersion := FormatUint (rv (nextRV s))\<rparr>"
  from assms have s': "s' = put_and_emit L Modified g k ?m (nextRV s)" and m: "m = ?m"
    by (auto simp: commitUpdate_def Let_def)
  have rv': "rv s' = rv (nextRV s)" by (simp add: s' put_and_emit_def)
  show "commits s \<lparr>evType = Modified, evObject = m, evRV = rv s', evGVR = g\<rparr> s'"
    unfolding m rv' unfolding s' by (rule put_and_emit_commits) simp_all
  have "view (nextRV s) = view s" by (simp add: view_def lookup_def fun_eq_iff)
  then show "view s' = (view s)((g, k) \<mapsto> m)" by (simp add: s' m put_and_emit_def view_put)
  show "m = (mergeForUpdate old inc st)\<lparr>resourceVersion := FormatUint (rv s + 1)\<rparr>" "rv s' = rv s + 1"
    using rv' by (simp_all add: m)
qed

lemma Update_okE:
  assumes "Update L g ob st s = (s', Inr m)"
  obtains rm old where "resources s g = Some rm"
    "lookup s g (key (rmNamespaced rm) (eff_ns rm (namespace ob)) (name ob)) = Some old"
    "\<not> stale ob old" "commitUpdate L g (key (rmNamespaced rm) (eff_ns rm (namespace ob)) (name ob)) old ob st s = (s', m)"
  using assms by (auto simp: Update_def eff_ns_def Let_def split: sum.splits option.splits if_splits prod.splits)

lemma Update_err: "Update L g ob st s = (s', Inl e) \<Longrightarrow> s' = s"
  by (auto simp: Update_def Let_def split: sum.splits option.splits if_splits prod.splits)

lemma Patch_okE:
  assumes "Patch L g ns nm t body st s = (s', Inr m)"
  obtains rm old patched oldJSON j where "resources s g = Some rm"
    "lookup s g (key (rmNamespaced rm) (eff_ns rm ns) nm) = Some old"
    "MarshalJSON L old = Inr oldJSON" "patchJSON L t oldJSON body = Inr j" "UnmarshalJSON L j = Inr patched"
    "\<not> stale patched old" "commitUpdate L g (key (rmNamespaced rm) (eff_ns rm ns) nm) old patched st s = (s', m)"
  using assms by (auto simp: Patch_def eff_ns_def Let_def split: sum.splits option.splits if_splits prod.splits)

lemma Patch_err: "Patch L g ns nm t body st s = (s', Inl e) \<Longrightarrow> s' = s"
  by (auto simp: Patch_def Let_def split: sum.splits option.splits if_splits prod.splits)

section \<open>Delete\<close>

lemma Delete_okE:
  assumes "Delete L g ns nm s = (s', Inr d)"
  obtains rm old where "resources s g = Some rm"
    "lookup s g (key (rmNamespaced rm) (eff_ns rm ns) nm) = Some old"
    "d = old\<lparr>resourceVersion := FormatUint (rv s + 1)\<rparr>" "rv s' = rv s + 1"
    "commits s \<lparr>evType = Deleted, evObject = d, evRV = rv s', evGVR = g\<rparr> s'"
    "view s' = (view s)((g, key (rmNamespaced rm) (eff_ns rm ns) nm) := None)"
proof -
  from assms obtain rm old where rm: "resources s g = Some rm"
    and old: "lookup s g (key (rmNamespaced rm) (eff_ns rm ns) nm) = Some old"
    by (auto simp: Delete_def eff_ns_def Let_def split: sum.splits option.splits if_splits)
  let ?k = "key (rmNamespaced rm) (eff_ns rm ns) nm"
  let ?s1 = "nextRV (s\<lparr>data := (data s)(g := AList.delete ?k (data s g))\<rparr>)"
  let ?s2 = "case persist ?s1 of None \<Rightarrow> ?s1 | Some db \<Rightarrow> ?s1\<lparr>persist := Some (snd (RemoveObject L g ?k (rv ?s1) db))\<rparr>"
  let ?d = "old\<lparr>resourceVersion := FormatUint (rv ?s1)\<rparr>"
  have s': "s' = emitLocked \<lparr>evType = Deleted, evObject = ?d, evRV = rv ?s1, evGVR = g\<rparr> ?s2" and d: "d = ?d"
    using assms rm old meta_Inr [of s g rm] by (auto simp: Delete_def Let_def simp flip: eff_ns_def simp del: meta_Inr)
  have s2: "data ?s2 = data ?s1" "resources ?s2 = resources s" "rv ?s2 = rv s + 1" "history ?s2 = history s"
    "histCap ?s2 = histCap s" "subs ?s2 = subs s" "chans ?s2 = chans s" "nextSub ?s2 = nextSub s"
    by (simp_all split: option.split)
  have rv': "rv s' = rv s + 1" unfolding s' using s2 by simp
  have "commits s \<lparr>evType = Deleted, evObject = ?d, evRV = rv s + 1, evGVR = g\<rparr> s'"
    unfolding commits_def s' using s2 emit_subs_chans [OF s2(6,7)] by simp
  moreover have "view s' = (view s)((g, ?k) := None)"
    unfolding s' using s2(1) by (auto simp: view_def lookup_def fun_eq_iff)
  ultimately show ?thesis using that [OF rm old] d rv' by simp
qed

lemma delete_effect_resources: "Delete L g ns nm s = (s', r) \<Longrightarrow> resources s' = resources s"
  by (auto simp: Delete_def Let_def split: sum.splits option.splits)

lemma Delete_err: "Delete L g ns nm s = (s', Inl e) \<Longrightarrow> s' = s"
  by (auto simp: Delete_def Let_def split: sum.splits option.splits if_splits prod.splits)

section \<open>Name generation\<close>

text \<open>The loop returns as soon as some candidate is free, and what it returns is free.\<close>

lemma generateLoop_free:
  assumes "generateLoop ex prefix draws i = Some (c, j)"
  shows "\<not> ex c"
proof -
  have "\<not> ex (fst (c, j))"
  proof (rule generateLoop.raw_induct [where P = "\<lambda>ex prefix draws i r. \<not> ex (fst r)", OF _ assms])
    fix f ex prefix draws i r
    assume IH: "\<And>ex prefix draws i r. f ex prefix draws i = Some r \<Longrightarrow> \<not> ex (fst r)"
      and eq: "(let candidate = prefix @ randSuffix 5 draws i
        in if ex candidate then f ex prefix draws (i + 5) else Some (candidate, i + 5)) = Some r"
    show "\<not> ex (fst r)"
      using eq IH [of ex prefix draws "i + 5" r] by (auto simp: Let_def split: if_splits)
  qed
  then show ?thesis by simp
qed

lemma generateLoop_returns:
  "\<not> ex (prefix @ randSuffix 5 draws (i + 5 * n)) \<Longrightarrow> \<exists>c j. generateLoop ex prefix draws i = Some (c, j)"
proof (induction n arbitrary: i)
  case 0
  then show ?case by (subst generateLoop.simps) (simp add: Let_def)
next
  case (Suc n)
  then have "\<not> ex (prefix @ randSuffix 5 draws ((i + 5) + 5 * n))" by (simp add: add.assoc)
  then obtain c j where "generateLoop ex prefix draws (i + 5) = Some (c, j)" using Suc.IH by blast
  then show ?case by (subst generateLoop.simps) (simp add: Let_def)
qed

lemma generateLoop_shape:
  assumes "generateLoop ex prefix draws i = Some (c, j)"
  shows "\<exists>m. c = prefix @ randSuffix 5 draws m"
proof -
  have "\<exists>m. fst (c, j) = prefix @ randSuffix 5 draws m"
  proof (rule generateLoop.raw_induct [where P = "\<lambda>ex prefix draws i r. \<exists>m. fst r = prefix @ randSuffix 5 draws m", OF _ assms])
    fix f ex prefix draws i r
    assume IH: "\<And>ex prefix draws i r. f ex prefix draws i = Some r \<Longrightarrow> \<exists>m. fst r = prefix @ randSuffix 5 draws m"
      and eq: "(let candidate = prefix @ randSuffix 5 draws i
        in if ex candidate then f ex prefix draws (i + 5) else Some (candidate, i + 5)) = Some r"
    show "\<exists>m. fst r = prefix @ randSuffix 5 draws m"
      using eq IH [of ex prefix draws "i + 5" r] by (auto simp: Let_def split: if_splits)
  qed
  then show ?thesis by simp
qed

lemma randSuffix_alphabet: "length (randSuffix n draws i) = n" "set (randSuffix n draws i) \<subseteq> set nameSuffixAlphabet"
proof -
  have "nameSuffixAlphabet \<noteq> []" by (simp add: nameSuffixAlphabet_def)
  then show "set (randSuffix n draws i) \<subseteq> set nameSuffixAlphabet" by (auto simp: randSuffix_def)
qed (simp add: randSuffix_def)

end
