(* ===== verification/StoreRun.thy ===== *)
theory StoreRun
  imports StoreFacts
begin

text \<open>
  The store as a state machine: any interleaving of the operations of its clients, each atomic
  under the lock, with the events they emit as the log of the run. The well-formedness invariant,
  the versions along a run, the history as the tail of the log, and the refinement of the stored
  objects by the log.
\<close>

section \<open>Steps\<close>

text \<open>\<^verbatim>\<open>Patch\<close> stores its result under the key it was addressed by, whatever name the patched object
  carries; the runs below are those whose patches leave the name and namespace alone.\<close>

definition keeps_identity :: "('j, 'db) store \<Rightarrow> GVR \<Rightarrow> string \<Rightarrow> string \<Rightarrow> 'j obj \<Rightarrow> bool" where
  "keeps_identity s g ns nm m \<longleftrightarrow> (\<forall>rm. resources s g = Some rm \<longrightarrow>
     key (rmNamespaced rm) (namespace m) (name m) = key (rmNamespaced rm) (eff_ns rm ns) nm)"

inductive store_op :: "('j, 'db) storelib \<Rightarrow> ('j, 'db) store \<Rightarrow> 'j Event list \<Rightarrow> ('j, 'db) store \<Rightarrow> bool" for L where
  register: "resources s g = None \<Longrightarrow> store_op L s [] (Register g nsd s)"
| create: "Create L g ob s = Some (s', Inr ob') \<Longrightarrow>
     store_op L s [\<lparr>evType = Added, evObject = ob', evRV = rv s', evGVR = g\<rparr>] s'"
| create_error: "Create L g ob s = Some (s', Inl e) \<Longrightarrow> store_op L s [] s'"
| update: "Update L g ob st s = (s', Inr m) \<Longrightarrow>
     store_op L s [\<lparr>evType = Modified, evObject = m, evRV = rv s', evGVR = g\<rparr>] s'"
| update_error: "Update L g ob st s = (s', Inl e) \<Longrightarrow> store_op L s [] s'"
| patch: "Patch L g ns nm t body st s = (s', Inr m) \<Longrightarrow> keeps_identity s g ns nm m \<Longrightarrow>
     store_op L s [\<lparr>evType = Modified, evObject = m, evRV = rv s', evGVR = g\<rparr>] s'"
| patch_error: "Patch L g ns nm t body st s = (s', Inl e) \<Longrightarrow> store_op L s [] s'"
| delete: "Delete L g ns nm s = (s', Inr d) \<Longrightarrow>
     store_op L s [\<lparr>evType = Deleted, evObject = d, evRV = rv s', evGVR = g\<rparr>] s'"
| delete_error: "Delete L g ns nm s = (s', Inl e) \<Longrightarrow> store_op L s [] s'"
| watch: "Watch ord g opts s = (s', r) \<Longrightarrow> store_op L s [] s'"
| set_hook: "store_op L s [] (SetDeleteHook s)"
| tick: "store_op L s [] (s\<lparr>now := t\<rparr>)"

text \<open>A delivery goroutine works on the channel of its own subscription.\<close>

inductive chan_op :: "nat \<Rightarrow> ('j, 'db) store \<Rightarrow> ('j, 'db) store \<Rightarrow> bool" where
  receive: "pump_live s p = (s', p') \<Longrightarrow> chan_op (pSub p) s s'"
| unsubscribe: "chan_op i s (removeSub i s)"

inductive store_step :: "('j, 'db) storelib \<Rightarrow> ('j, 'db) store \<Rightarrow> 'j Event list \<Rightarrow> ('j, 'db) store \<Rightarrow> bool" for L where
  op: "store_op L s es s' \<Longrightarrow> store_step L s es s'"
| chan: "chan_op i s s' \<Longrightarrow> store_step L s [] s'"

inductive_cases store_stepE: "store_step L s es s'"

text \<open>A step that emits nothing leaves the objects, the version and the history alone.\<close>

definition silent :: "('j, 'db) store \<Rightarrow> ('j, 'db) store \<Rightarrow> bool" where
  "silent s s' \<longleftrightarrow> data s' = data s \<and> rv s' = rv s \<and> history s' = history s \<and> histCap s' = histCap s \<and>
     (\<forall>g rm. resources s g = Some rm \<longrightarrow> resources s' g = Some rm) \<and> nextSub s \<le> nextSub s' \<and>
     (\<forall>g. resources s g = None \<and> data s g \<noteq> [] \<longrightarrow> resources s' g = None)"

lemma silent_refl [simp]: "silent s s"
  by (simp add: silent_def)

lemma chan_op_silent: "chan_op i s s' \<Longrightarrow> silent s s'"
  by (induction rule: chan_op.induct)
     (auto simp: silent_def pump_live_def removeSub_def Let_def split: list.splits if_splits)

lemma Watch_silent: "Watch ord g opts s = (s', r) \<Longrightarrow> silent s s'"
  by (auto simp: silent_def Watch_def Let_def split: sum.splits)

section \<open>The well-formedness invariant\<close>

definition keys_ok :: "('j, 'db) store \<Rightarrow> bool" where
  "keys_ok s \<longleftrightarrow> (\<forall>g. distinct (map fst (data s g))) \<and>
     (\<forall>g k. resources s g = None \<longrightarrow> view s (g, k) = None) \<and>
     (\<forall>g k ob rm. view s (g, k) = Some ob \<and> resources s g = Some rm \<longrightarrow>
        k = key (rmNamespaced rm) (namespace ob) (name ob))"

definition versions_ok :: "('j, 'db) store \<Rightarrow> bool" where
  "versions_ok s \<longleftrightarrow>
     (\<forall>x ob. view s x = Some ob \<longrightarrow> (\<exists>n \<le> rv s. resourceVersion ob = FormatUint n)) \<and>
     (\<forall>x y ob ob'. view s x = Some ob \<and> view s y = Some ob' \<and> resourceVersion ob = resourceVersion ob' \<longrightarrow> x = y)"

definition history_ok :: "('j, 'db) store \<Rightarrow> bool" where
  "history_ok s \<longleftrightarrow> length (history s) \<le> histCap s \<and> (\<forall>ev \<in> set (history s). evRV ev \<le> rv s) \<and>
     sorted_wrt (\<lambda>a b. evRV a < evRV b) (history s)"

definition subs_ok :: "('j, 'db) store \<Rightarrow> bool" where
  "subs_ok s \<longleftrightarrow> (\<forall>i. subs s i \<noteq> None \<longrightarrow> i < nextSub s \<and> \<not> closed (chans s i)) \<and>
     (\<forall>i. length (buf (chans s i)) \<le> chanCap)"

definition store_wf :: "('j, 'db) store \<Rightarrow> bool" where
  "store_wf s \<longleftrightarrow> keys_ok s \<and> versions_ok s \<and> history_ok s \<and> subs_ok s"

lemma store_New_wf: "store_wf (store_New opts t0 uids draws)"
  by (simp add: store_wf_def keys_ok_def versions_ok_def history_ok_def subs_ok_def store_New_def
      view_def lookup_def)

subsection \<open>Each group of the invariant\<close>

lemma view_None_data: "(\<forall>k. view s (g, k) = None) \<longleftrightarrow> data s g = []"
  by (simp add: view_def lookup_def map_of_eq_empty_iff [symmetric] fun_eq_iff)

lemma silent_view: "silent s s' \<Longrightarrow> view s' = view s"
  by (simp add: silent_def view_def lookup_def fun_eq_iff)

lemma silent_keys_ok:
  assumes "silent s s'" "keys_ok s"
  shows "keys_ok s'"
proof -
  have v: "view s' = view s" using assms(1) by (rule silent_view)
  have res: "resources s' g = None \<Longrightarrow> resources s g = None" for g
    using assms(1) by (cases "resources s g") (auto simp: silent_def)
  have nd: "resources s g = Some rm" if "view s (g, k) = Some ob" "resources s' g = Some rm" for g k ob rm
  proof (cases "resources s g")
    case None
    with assms(2) that(1) show ?thesis by (simp add: keys_ok_def)
  next
    case (Some rm')
    with assms(1) that(2) show ?thesis by (simp add: silent_def)
  qed
  show ?thesis
    unfolding keys_ok_def v
  proof (intro conjI allI impI)
    show "distinct (map fst (data s' g))" for g
      using assms by (simp add: keys_ok_def silent_def)
    show "view s (g, k) = None" if "resources s' g = None" for g k
      using assms(2) res [OF that] by (simp add: keys_ok_def)
    show "k = key (rmNamespaced rm) (namespace ob) (name ob)"
      if "view s (g, k) = Some ob \<and> resources s' g = Some rm" for g k ob rm
      using assms(2) nd [of g k ob rm] that unfolding keys_ok_def by blast
  qed
qed

lemma silent_versions_ok: "silent s s' \<Longrightarrow> versions_ok s \<Longrightarrow> versions_ok s'"
  by (simp add: versions_ok_def silent_view) (simp add: silent_def)

lemma silent_history_ok: "silent s s' \<Longrightarrow> history_ok s \<Longrightarrow> history_ok s'"
  by (simp add: history_ok_def silent_def)

lemma commits_versions_put:
  assumes "versions_ok s" "commits s ev s'" "rv s \<noteq> - 1" "view s' = (view s)(x \<mapsto> evObject ev)"
  shows "versions_ok s'"
proof -
  have rv: "rv s' = rv s + 1" and ver: "resourceVersion (evObject ev) = FormatUint (rv s + 1)"
    using assms(2) by (auto simp: commits_def)
  have old: "\<exists>n < rv s + 1. resourceVersion ob = FormatUint n" if "view s y = Some ob" for y ob
    using assms(1,3) that next_version_fresh by (metis versions_ok_def)
  then have fresh: "resourceVersion ob \<noteq> FormatUint (rv s + 1)" if "view s y = Some ob" for y ob
    using that by fastforce
  have cases: "y = x \<and> ob = evObject ev \<or> view s y = Some ob" if "view s' y = Some ob" for y ob
    using that by (simp add: assms(4) split: if_splits)
  show ?thesis
    unfolding versions_ok_def
  proof (intro conjI allI impI)
    fix y ob assume "view s' y = Some ob"
    then show "\<exists>n \<le> rv s'. resourceVersion ob = FormatUint n"
      using cases old ver rv by (metis less_imp_le order_refl)
  next
    fix y z ob ob'
    assume "view s' y = Some ob \<and> view s' z = Some ob' \<and> resourceVersion ob = resourceVersion ob'"
    then show "y = z"
      using cases fresh ver assms(1) unfolding versions_ok_def by metis
  qed
qed

lemma commits_versions_delete:
  assumes "versions_ok s" "commits s ev s'" "rv s \<noteq> - 1" "view s' = (view s)(x := None)"
  shows "versions_ok s'"
proof -
  have rv: "rv s' = rv s + 1" using assms(2) by (auto simp: commits_def)
  have "\<exists>n \<le> rv s + 1. resourceVersion ob = FormatUint n" if "view s y = Some ob" for y ob
    using assms(1,3) that next_version_fresh by (metis versions_ok_def less_imp_le)
  moreover have "view s y = Some ob" if "view s' y = Some ob" for y ob
    using that by (simp add: assms(4) split: if_splits)
  ultimately show ?thesis using assms(1) rv unfolding versions_ok_def by metis
qed

lemma sorted_wrt_drop: "sorted_wrt P xs \<Longrightarrow> sorted_wrt P (drop n xs)"
  by (metis append_take_drop_id sorted_wrt_append)

lemma commits_history:
  assumes "history_ok s" "commits s ev s'" "rv s \<noteq> - 1"
  shows "history_ok s'"
proof -
  have eqs: "history s' = trim (histCap s) (history s @ [ev])" "histCap s' = histCap s" "evRV ev = rv s + 1" "rv s' = rv s + 1"
    using assms(2) by (auto simp: commits_def)
  have lt: "evRV e < rv s + 1" if "e \<in> set (history s)" for e
    using assms(1,3) that next_version_fresh by (auto simp: history_ok_def)
  have "sorted_wrt (\<lambda>a b. evRV a < evRV b) (history s @ [ev])"
    using assms(1) lt eqs(3) by (auto simp: history_ok_def sorted_wrt_append)
  then have "sorted_wrt (\<lambda>a b. evRV a < evRV b) (history s')"
    unfolding eqs(1) trim_def by (rule sorted_wrt_drop)
  moreover have "\<forall>e \<in> set (history s'). evRV e \<le> rv s'"
    using lt eqs by (auto simp: trim_def dest!: in_set_dropD intro: less_imp_le)
  ultimately show ?thesis by (simp add: history_ok_def eqs)
qed

lemma commits_subs:
  assumes "subs_ok s" "commits s ev s'"
  shows "subs_ok s'"
proof -
  have "subs s' = subs (emitLocked ev s)" "chans s' = chans (emitLocked ev s)" "nextSub s' = nextSub s"
    using assms(2) by (auto simp: commits_def)
  then show ?thesis
    using assms(1) by (auto simp: subs_ok_def emitLocked_def Let_def chan_full_def not_le split: if_splits)
qed

lemma put_keys_ok:
  assumes "keys_ok s" "commits s ev s'" "view s' = (view s)((g, k) \<mapsto> ob)" "resources s g = Some rm"
    and "k = key (rmNamespaced rm) (namespace ob) (name ob)" "\<forall>g. distinct (map fst (data s' g))"
  shows "keys_ok s'"
  using assms unfolding keys_ok_def commits_def by auto

lemma delete_keys_ok:
  assumes "keys_ok s" "commits s ev s'" "view s' = (view s)((g, k) := None)"
    and "\<forall>g. distinct (map fst (data s' g))"
  shows "keys_ok s'"
  using assms unfolding keys_ok_def commits_def by auto

lemma distinct_put_and_emit:
  "\<forall>g. distinct (map fst (data s g)) \<Longrightarrow> \<forall>g. distinct (map fst (data (put_and_emit L t h k ob s) g))"
  by (simp add: put_and_emit_def)

lemma Create_distinct:
  assumes "Create L g ob s = Some (s', r)" "\<forall>g. distinct (map fst (data s g))"
  shows "\<forall>g. distinct (map fst (data s' g))"
proof -
  have cn: "\<forall>g. distinct (map fst (data u g))"
    if c: "createNamed L h rm o' t = (u, r')" and d: "data t = data s" for h rm o' t u r'
  proof (cases "lookup t h (key (rmNamespaced rm) (namespace o') (name o')) = None")
    case True
    obtain t1 o1 where "stampNew o' t = (t1, o1)" by fastforce
    moreover from this have "data t1 = data s" using stampNew_frame(1) d by metis
    ultimately show ?thesis using c True assms(2) by (auto simp: createNamed_def Let_def put_and_emit_def)
  next
    case False
    with c d assms(2) show ?thesis by (auto simp: createNamed_def Let_def)
  qed
  show ?thesis
    using assms by (auto simp: Create_def Let_def intro!: cn [rule_format] split: sum.splits if_splits option.splits)
qed

lemma commitUpdate_distinct:
  "commitUpdate L g k old inc st s = (s', m) \<Longrightarrow> \<forall>g. distinct (map fst (data s g)) \<Longrightarrow>
     \<forall>g. distinct (map fst (data s' g))"
  by (auto simp: commitUpdate_def Let_def put_and_emit_def)

lemma Delete_distinct:
  "Delete L g ns nm s = (s', r) \<Longrightarrow> \<forall>g. distinct (map fst (data s g)) \<Longrightarrow> \<forall>g. distinct (map fst (data s' g))"
  by (auto simp: Delete_def Let_def split: sum.splits option.splits)

subsection \<open>Every step keeps it\<close>

text \<open>What a step does: nothing to the objects, or exactly one committed event.\<close>

lemma store_op_cases:
  assumes "store_op L s es s'" "keys_ok s"
  shows "(es = [] \<and> silent s s') \<or>
    (\<exists>ev. es = [ev] \<and> commits s ev s' \<and> resources s (evGVR ev) \<noteq> None \<and>
       view s' = apply_event s ev (view s) \<and> (\<forall>g. distinct (map fst (data s' g))))"
  using assms
proof (induction rule: store_op.induct)
  case (register s g nsd)
  then show ?case
    by (auto simp: silent_def Register_def keys_ok_def view_None_data [symmetric])
next
  case (create g ob s s' ob')
  from create.hyps obtain rm ob1 i where rm: "resources s g = Some rm"
    and cn: "createNamed L g rm ob1 (s\<lparr>randCount := i\<rparr>) = (s', Inr ob')"
    by (rule Create_okE)
  note c = createNamed_ok [OF cn, simplified, OF rm]
  have "commits s \<lparr>evType = Added, evObject = ob', evRV = rv s', evGVR = g\<rparr> s'"
    using c(1) emit_subs_chans [of "s\<lparr>randCount := i\<rparr>" s] by (simp add: commits_def)
  moreover have "view s' = apply_event s \<lparr>evType = Added, evObject = ob', evRV = rv s', evGVR = g\<rparr> (view s)"
    using c(3-5) by (simp add: apply_event_def event_key_def rm view_def lookup_def fun_eq_iff)
  moreover have "\<forall>g. distinct (map fst (data s' g))"
    using Create_distinct [OF create.hyps] create.prems by (simp add: keys_ok_def)
  ultimately show ?case by (simp add: rm)
next
  case (create_error g ob s s' e)
  then show ?case using Create_errE [of L g ob s s' e] by (auto simp: silent_def)
next
  case (update g ob st s s' m)
  from update.hyps obtain rm old where rm: "resources s g = Some rm"
    and old: "lookup s g (key (rmNamespaced rm) (eff_ns rm (namespace ob)) (name ob)) = Some old"
    and c: "commitUpdate L g (key (rmNamespaced rm) (eff_ns rm (namespace ob)) (name ob)) old ob st s = (s', m)"
    by (rule Update_okE)
  let ?k = "key (rmNamespaced rm) (eff_ns rm (namespace ob)) (name ob)"
  note f = commitUpdate_facts [OF c]
  have "?k = key (rmNamespaced rm) (namespace old) (name old)"
    using update.prems old rm by (simp add: keys_ok_def view_apply)
  then have k: "?k = key (rmNamespaced rm) (namespace m) (name m)"
    using f(3) by (auto simp: f(3) eff_ns_def key_def)
  have "\<forall>g. distinct (map fst (data s' g))"
    using commitUpdate_distinct [OF c] update.prems by (simp add: keys_ok_def)
  then show ?case using f(1,2) k by (simp add: apply_event_def event_key_def rm fun_eq_iff)
next
  case (update_error g ob st s s' e)
  then show ?case by (auto dest: Update_err)
next
  case (patch g ns nm t body st s s' m)
  from patch.hyps(1) obtain rm old patched where rm: "resources s g = Some rm"
    and old: "lookup s g (key (rmNamespaced rm) (eff_ns rm ns) nm) = Some old"
    and c: "commitUpdate L g (key (rmNamespaced rm) (eff_ns rm ns) nm) old patched st s = (s', m)"
    by (rule Patch_okE)
  let ?k = "key (rmNamespaced rm) (eff_ns rm ns) nm"
  note f = commitUpdate_facts [OF c]
  have k: "?k = key (rmNamespaced rm) (namespace m) (name m)"
    using patch.hyps rm by (simp add: keeps_identity_def)
  have "\<forall>g. distinct (map fst (data s' g))"
    using commitUpdate_distinct [OF c] patch.prems by (simp add: keys_ok_def)
  then show ?case using f(1,2) k by (simp add: apply_event_def event_key_def rm fun_eq_iff)
next
  case (patch_error g ns nm t body st s s' e)
  then show ?case by (auto dest: Patch_err)
next
  case (delete g ns nm s s' d)
  from delete.hyps obtain rm old where rm: "resources s g = Some rm"
    and old: "lookup s g (key (rmNamespaced rm) (eff_ns rm ns) nm) = Some old"
    and d: "d = old\<lparr>resourceVersion := FormatUint (rv s + 1)\<rparr>"
    and c: "commits s \<lparr>evType = Deleted, evObject = d, evRV = rv s', evGVR = g\<rparr> s'"
    and v: "view s' = (view s)((g, key (rmNamespaced rm) (eff_ns rm ns) nm) := None)"
    by (rule Delete_okE)
  have "key (rmNamespaced rm) (eff_ns rm ns) nm = key (rmNamespaced rm) (namespace d) (name d)"
    using delete.prems old rm by (simp add: keys_ok_def d view_apply)
  moreover have "\<forall>g. distinct (map fst (data s' g))"
    using Delete_distinct [OF delete.hyps] delete.prems by (simp add: keys_ok_def)
  ultimately show ?case using c v by (simp add: apply_event_def event_key_def rm fun_eq_iff)
next
  case (delete_error g ns nm s s' e)
  then show ?case by (auto dest: Delete_err)
next
  case (watch ord g opts s s' r)
  then show ?case by (simp add: Watch_silent)
next
  case (set_hook s)
  then show ?case by (simp add: silent_def SetDeleteHook_def)
next
  case (tick s t)
  then show ?case by (simp add: silent_def)
qed

lemma store_step_cases:
  assumes "store_step L s es s'" "keys_ok s"
  shows "(es = [] \<and> silent s s') \<or>
    (\<exists>ev. es = [ev] \<and> commits s ev s' \<and> resources s (evGVR ev) \<noteq> None \<and>
       view s' = apply_event s ev (view s) \<and> (\<forall>g. distinct (map fst (data s' g))))"
  using assms(1)
proof (cases rule: store_step.cases)
  case op
  then show ?thesis using assms(2) by (rule store_op_cases)
next
  case (chan i)
  then show ?thesis by (simp add: chan_op_silent)
qed

lemma chan_op_subs_ok: "chan_op i s s' \<Longrightarrow> subs_ok s \<Longrightarrow> subs_ok s'"
proof (induction rule: chan_op.induct)
  case (receive s p s' p')
  let ?i = "pSub p"
  have "length (buf (chans s ?i)) \<le> chanCap" using receive.prems by (simp add: subs_ok_def)
  then have "length es \<le> chanCap" if "buf (chans s ?i) = e # es" for e es
    using that by simp
  then show ?case
    using receive
    by (auto simp: subs_ok_def pump_live_def removeSub_def Let_def split: list.splits if_splits)
next
  case (unsubscribe i s)
  then show ?case by (auto simp: subs_ok_def removeSub_def)
qed

lemma silent_op_subs_ok: "store_op L s es s' \<Longrightarrow> es = [] \<Longrightarrow> subs_ok s \<Longrightarrow> subs_ok s'"
proof (induction rule: store_op.induct)
  case (watch ord g opts s s' r)
  then show ?case
    by (auto simp: subs_ok_def Watch_def Let_def less_Suc_eq split: sum.splits if_splits)
qed (auto simp: subs_ok_def Register_def SetDeleteHook_def dest!: Create_errE Update_err Patch_err Delete_err)

lemma store_step_wf:
  assumes "store_wf s" "store_step L s es s'" "unat (rv s) + length es \<le> 2 ^ 64 - 1"
  shows "store_wf s' \<and> unat (rv s') = unat (rv s) + length es"
proof -
  have ok: "keys_ok s" "versions_ok s" "history_ok s" "subs_ok s"
    using assms(1) by (simp_all add: store_wf_def)
  from store_step_cases [OF assms(2) ok(1)] show ?thesis
  proof (elim disjE conjE exE)
    assume es: "es = []" and sil: "silent s s'"
    have "subs_ok s'"
      using assms(2) es ok(4) by (auto elim!: store_stepE dest: chan_op_subs_ok silent_op_subs_ok)
    then show ?thesis
      using silent_keys_ok [OF sil ok(1)] silent_versions_ok [OF sil ok(2)] silent_history_ok [OF sil ok(3)] es sil
      by (simp add: store_wf_def silent_def)
  next
    fix ev
    assume es: "es = [ev]" and c: "commits s ev s'" and reg: "resources s (evGVR ev) \<noteq> None"
      and v: "view s' = apply_event s ev (view s)" and d: "\<forall>g. distinct (map fst (data s' g))"
    have max: "rv s \<noteq> - 1" using assms(3) es by (intro unat_bound_not_max [of _ 0]) simp
    obtain rm where rm: "resources s (evGVR ev) = Some rm" using reg by auto
    have "keys_ok s' \<and> versions_ok s'"
    proof (cases "evType ev = Deleted")
      case True
      then have v': "view s' = (view s)((evGVR ev, event_key s ev) := None)" by (simp add: v apply_event_def)
      show ?thesis using delete_keys_ok [OF ok(1) c v' d] commits_versions_delete [OF ok(2) c max v'] by simp
    next
      case False
      then have v': "view s' = (view s)((evGVR ev, event_key s ev) \<mapsto> evObject ev)" by (simp add: v apply_event_def)
      have "event_key s ev = key (rmNamespaced rm) (namespace (evObject ev)) (name (evObject ev))"
        by (simp add: event_key_def rm)
      then show ?thesis using put_keys_ok [OF ok(1) c v' rm _ d] commits_versions_put [OF ok(2) c max v'] by simp
    qed
    then show ?thesis
      using commits_history [OF ok(3) c max] commits_subs [OF ok(4) c] c es unat_succ [OF max]
      by (simp add: store_wf_def commits_def)
  qed
qed

interpretation st: logged_system "store_step L" "\<lambda>s. unat (rv s)" "2 ^ 64 - 1" store_wf
  for L :: "('j, 'db) storelib"
  by unfold_locales (blast dest: store_step_wf)+

section \<open>Along a run\<close>

lemma store_step_resources:
  "store_step L s es s' \<Longrightarrow> keys_ok s \<Longrightarrow> resources s g = Some rm \<Longrightarrow> resources s' g = Some rm"
  by (drule (1) store_step_cases) (auto simp: silent_def commits_def)

lemma event_key_stable:
  "resources s (evGVR ev) = Some rm \<Longrightarrow> resources s' (evGVR ev) = Some rm \<Longrightarrow> event_key s ev = event_key s' ev"
  by (simp add: event_key_def)

lemma store_wf_keys [simp]: "store_wf s \<Longrightarrow> keys_ok s"
  by (simp add: store_wf_def)

lemma run_resources:
  assumes "run (store_step L) s log t" "store_wf s" "unat (rv s) + length log \<le> 2 ^ 64 - 1"
    and "resources s g = Some rm"
  shows "resources t g = Some rm"
  using assms(1-3)
proof (induction rule: st.run_induct_bounded)
  case refl
  show ?case by (rule assms(4))
next
  case (step log t es u)
  then show ?case using store_step_resources [of L t es u g rm] by simp
qed

text \<open>The versions of the events count up from the version the run starts with, and the history is
  the tail of the log.\<close>

lemma run_log_versions:
  assumes "run (store_step L) s log t" "store_wf s" "unat (rv s) + length log \<le> 2 ^ 64 - 1"
  shows "\<forall>i < length log. unat (evRV (log ! i)) = unat (rv s) + i + 1"
  using assms
proof (induction rule: st.run_induct_bounded)
  case refl
  show ?case by simp
next
  case (step log t es u)
  have "es = [] \<or> (\<exists>ev. es = [ev] \<and> unat (evRV ev) = unat (rv s) + length log + 1)"
  proof -
    from store_step_cases [OF step.hyps(5)] step.hyps(2)
    have "es = [] \<or> (\<exists>ev. es = [ev] \<and> evRV ev = rv u)" by (auto simp: commits_def)
    moreover have "unat (rv u) = unat (rv t) + length es"
      using st.step_clock [OF step.hyps(2,5)] step.hyps(4) by simp
    ultimately show ?thesis using step.hyps(3) by auto
  qed
  then show ?case using step.IH by (auto simp: nth_append less_Suc_eq)
qed

lemma run_history:
  assumes "run (store_step L) s log t" "store_wf s" "unat (rv s) + length log \<le> 2 ^ 64 - 1"
  shows "history t = trim (histCap s) (history s @ log) \<and> histCap t = histCap s"
  using assms
proof (induction rule: st.run_induct_bounded)
  case refl
  have "length (history s) \<le> histCap s" using assms(2) by (simp add: store_wf_def history_ok_def)
  then show ?case by (simp add: trim_def)
next
  case (step log t es u)
  from store_step_cases [OF step.hyps(5)] step.hyps(2) step.IH
  show ?case by (auto simp: silent_def commits_def trim_snoc simp flip: append_assoc)
qed

text \<open>The objects are the initial ones with the log applied: a client that lists and then applies
  the events of the watch has the server's objects.\<close>

lemma run_view:
  assumes "run (store_step L) s log t" "store_wf s" "unat (rv s) + length log \<le> 2 ^ 64 - 1"
  shows "view t = fold (apply_event t) log (view s) \<and> (\<forall>ev \<in> set log. resources t (evGVR ev) \<noteq> None)"
  using assms
proof (induction rule: st.run_induct_bounded)
  case refl
  show ?case by simp
next
  case (step log t es u)
  have stable: "apply_event u ev = apply_event t ev" if reg: "resources t (evGVR ev) \<noteq> None" for ev
  proof -
    obtain rm where rm: "resources t (evGVR ev) = Some rm" using reg by auto
    then have "resources u (evGVR ev) = Some rm" using store_step_resources [OF step.hyps(5)] step.hyps(2) by simp
    with rm have "event_key t ev = event_key u ev" by (rule event_key_stable)
    then show ?thesis by (simp add: apply_event_def fun_eq_iff)
  qed
  have foldu: "fold (apply_event u) log (view s) = fold (apply_event t) log (view s)"
    using step.IH stable by (intro fold_cong) auto
  have res: "resources u (evGVR ev) \<noteq> None" if "resources t (evGVR ev) \<noteq> None" for ev
    using that store_step_resources [OF step.hyps(5)] step.hyps(2) by fastforce
  from store_step_cases [OF step.hyps(5)] step.hyps(2)
  have new: "view u = fold (apply_event t) es (view t) \<and> (\<forall>ev \<in> set es. resources t (evGVR ev) \<noteq> None)"
    by (auto simp: silent_view)
  moreover from this have "fold (apply_event u) es (view t) = fold (apply_event t) es (view t)"
    using stable by (intro fold_cong) auto
  ultimately show ?case
    using step.IH foldu res by (simp add: ball_Un) blast
qed

end
