(* ===== verification/Recovery.thy ===== *)
theory Recovery
  imports StoreRun
begin

text \<open>
  What survives a restart. The documented behaviour of bbolt (a transaction that fails leaves the
  database alone, one that commits is durable, buckets are maps) is \<open>bolt_laws\<close>; the persister's
  contract is the locale \<open>persister\<close>, which the bbolt persister satisfies; along a run of the store
  the database mirrors the objects, and loading it into a fresh store gives them back.
\<close>

section \<open>The database\<close>

definition tables :: "('j, 'db) storelib \<Rightarrow> 'db \<Rightarrow> string \<rightharpoonup> (string \<rightharpoonup> bytes)" where
  "tables L db b = (if boltHasBucket L b db then Some (map_of (boltEntries L b db)) else None)"

definition bolt_wf :: "('j, 'db) storelib \<Rightarrow> 'db \<Rightarrow> bool" where
  "bolt_wf L db \<longleftrightarrow> distinct (boltBuckets L db) \<and> (\<forall>b. b \<in> set (boltBuckets L db) \<longleftrightarrow> boltHasBucket L b db) \<and>
     (\<forall>b. boltHasBucket L b db \<longrightarrow> distinct (map fst (boltEntries L b db)) \<and>
        (\<forall>k. boltGet L b k db = map_of (boltEntries L b db) k))"

definition MaxKeySize :: nat where "MaxKeySize = 32768"
definition MaxValueSize :: nat where "MaxValueSize = 2 ^ 31 - 2"

definition bolt_laws :: "('j, 'db) storelib \<Rightarrow> bool" where
  "bolt_laws L \<longleftrightarrow>
     (\<forall>f db. boltUpdate L f db = (case f db of Inl e \<Rightarrow> (Some e, db) | Inr db' \<Rightarrow> (None, db'))) \<and>
     (\<forall>db. boltView L db = None) \<and>
     (\<forall>b db. bolt_wf L db \<longrightarrow> b \<noteq> '''' \<longrightarrow> (\<exists>db'. boltCreateBucket L b db = Inr db' \<and> bolt_wf L db' \<and>
        tables L db' = (tables L db)(b \<mapsto> case tables L db b of None \<Rightarrow> Map.empty | Some m \<Rightarrow> m))) \<and>
     (\<forall>b k v m db. bolt_wf L db \<longrightarrow> tables L db b = Some m \<longrightarrow> k \<noteq> '''' \<longrightarrow> length k \<le> MaxKeySize \<longrightarrow>
        length v \<le> MaxValueSize \<longrightarrow> (\<exists>db'. boltPut L b k v db = Inr db' \<and> bolt_wf L db' \<and>
        tables L db' = (tables L db)(b \<mapsto> m(k \<mapsto> v)))) \<and>
     (\<forall>b k m db. bolt_wf L db \<longrightarrow> tables L db b = Some m \<longrightarrow> (\<exists>db'. boltDelete L b k db = Inr db' \<and> bolt_wf L db' \<and>
        tables L db' = (tables L db)(b \<mapsto> m(k := None))))"

lemma bolt_lawsD:
  assumes "bolt_laws L"
  shows "boltUpdate L f db = (case f db of Inl e \<Rightarrow> (Some e, db) | Inr db' \<Rightarrow> (None, db'))"
    and "boltView L db = None"
    and "bolt_wf L db \<Longrightarrow> b \<noteq> '''' \<Longrightarrow> \<exists>db'. boltCreateBucket L b db = Inr db' \<and> bolt_wf L db' \<and>
        tables L db' = (tables L db)(b \<mapsto> case tables L db b of None \<Rightarrow> Map.empty | Some m \<Rightarrow> m)"
    and "bolt_wf L db \<Longrightarrow> tables L db b = Some m \<Longrightarrow> k \<noteq> '''' \<Longrightarrow> length k \<le> MaxKeySize \<Longrightarrow>
        length v \<le> MaxValueSize \<Longrightarrow> \<exists>db'. boltPut L b k v db = Inr db' \<and> bolt_wf L db' \<and>
        tables L db' = (tables L db)(b \<mapsto> m(k \<mapsto> v))"
    and "bolt_wf L db \<Longrightarrow> tables L db b = Some m \<Longrightarrow> \<exists>db'. boltDelete L b k db = Inr db' \<and> bolt_wf L db' \<and>
        tables L db' = (tables L db)(b \<mapsto> m(k := None))"
  using assms unfolding bolt_laws_def by blast+

section \<open>Transactions\<close>

definition table_of :: "(string \<rightharpoonup> (string \<rightharpoonup> bytes)) \<Rightarrow> string \<Rightarrow> (string \<rightharpoonup> bytes)" where
  "table_of t b = (case t b of None \<Rightarrow> Map.empty | Some m \<Rightarrow> m)"

definition set_rv :: "uint64 \<Rightarrow> (string \<rightharpoonup> (string \<rightharpoonup> bytes)) \<Rightarrow> (string \<rightharpoonup> (string \<rightharpoonup> bytes))" where
  "set_rv n t = t(metaBucket \<mapsto> (table_of t metaBucket)(rvKey \<mapsto> PutUint64 n))"

lemma key_nonempty [simp]: "key nsd ns nm \<noteq> ''''"
  by (simp add: key_def)

lemma bucketName_nonempty [simp]: "bucketName g \<noteq> ''''"
  by (simp add: bucketName_def GVR_String_def)

lemma putRV_ok:
  assumes "bolt_laws L" "bolt_wf L db"
  shows "\<exists>db'. putRV L n db = Inr db' \<and> bolt_wf L db' \<and> tables L db' = set_rv n (tables L db)"
proof -
  obtain db1 where db1: "boltCreateBucket L metaBucket db = Inr db1" "bolt_wf L db1"
    "tables L db1 = (tables L db)(metaBucket \<mapsto> table_of (tables L db) metaBucket)"
    using bolt_lawsD(3) [OF assms, of metaBucket] by (auto simp: metaBucket_def table_of_def)
  moreover have "rvKey \<noteq> ''''" "length rvKey \<le> MaxKeySize" "length (PutUint64 n) \<le> MaxValueSize"
    by (simp_all add: rvKey_def MaxKeySize_def MaxValueSize_def)
  ultimately show ?thesis
    using bolt_lawsD(4) [OF assms(1), of db1 metaBucket _ rvKey "PutUint64 n"]
    by (simp add: putRV_def set_rv_def)
qed

lemma SaveObject_ok:
  assumes "bolt_laws L" "bolt_wf L db" "k \<noteq> ''''" "length k \<le> MaxKeySize" "length v \<le> MaxValueSize"
  shows "\<exists>db'. SaveObject L g k v n db = (None, db') \<and> bolt_wf L db' \<and>
    tables L db' = set_rv n ((tables L db)(bucketName g \<mapsto> (table_of (tables L db) (bucketName g))(k \<mapsto> v)))"
proof -
  obtain db1 where db1: "boltCreateBucket L (bucketName g) db = Inr db1" "bolt_wf L db1"
    "tables L db1 = (tables L db)(bucketName g \<mapsto> table_of (tables L db) (bucketName g))"
    using bolt_lawsD(3) [OF assms(1,2), of "bucketName g"] by (auto simp: table_of_def)
  then obtain db2 where db2: "boltPut L (bucketName g) k v db1 = Inr db2" "bolt_wf L db2"
    "tables L db2 = (tables L db)(bucketName g \<mapsto> (table_of (tables L db) (bucketName g))(k \<mapsto> v))"
    using bolt_lawsD(4) [OF assms(1), of db1 "bucketName g" _ k v] assms(3-5) by auto
  obtain db3 where "putRV L n db2 = Inr db3" "bolt_wf L db3" "tables L db3 = set_rv n (tables L db2)"
    using putRV_ok [OF assms(1) db2(2)] by blast
  then show ?thesis
    using db1(1) db2 by (simp add: SaveObject_def saveTx_def bolt_lawsD(1) [OF assms(1)])
qed

lemma RemoveObject_ok:
  assumes "bolt_laws L" "bolt_wf L db"
  shows "\<exists>db'. RemoveObject L g k n db = (None, db') \<and> bolt_wf L db' \<and>
    tables L db' = set_rv n (case tables L db (bucketName g) of None \<Rightarrow> tables L db
      | Some m \<Rightarrow> (tables L db)(bucketName g \<mapsto> m(k := None)))"
proof (cases "tables L db (bucketName g)")
  case None
  then have "\<not> boltHasBucket L (bucketName g) db" by (simp add: tables_def split: if_splits)
  with None putRV_ok [OF assms, of n] show ?thesis
    by (auto simp: RemoveObject_def removeTx_def bolt_lawsD(1) [OF assms(1)])
next
  case (Some m)
  then have has: "boltHasBucket L (bucketName g) db" by (simp add: tables_def split: if_splits)
  obtain db1 where db1: "boltDelete L (bucketName g) k db = Inr db1" "bolt_wf L db1"
    "tables L db1 = (tables L db)(bucketName g \<mapsto> m(k := None))"
    using bolt_lawsD(5) [OF assms Some] by blast
  with has Some putRV_ok [OF assms(1) db1(2), of n] show ?thesis
    by (auto simp: RemoveObject_def removeTx_def bolt_lawsD(1) [OF assms(1)])
qed

section \<open>Reading the database back\<close>

lemma scanSlashes_second:
  "scanSlashes s i (Some f) = (a, Some b) \<Longrightarrow> a = Some f \<and> (\<exists>u v. s = u @ [CHR ''/''] @ v \<and> b = i + length u)"
proof (induction s arbitrary: i)
  case (Cons c s)
  show ?case
  proof (cases "c = CHR ''/''")
    case False
    with Cons.prems have "scanSlashes s (Suc i) (Some f) = (a, Some b)" by simp
    from Cons.IH [OF this] obtain u v where "a = Some f" "s = u @ [CHR ''/''] @ v" "b = Suc i + length u" by blast
    then show ?thesis by (auto intro: exI [of _ "c # u"])
  qed (use Cons.prems in \<open>auto intro: exI [of _ "[]"]\<close>)
qed simp

lemma scanSlashes_first:
  "scanSlashes s i None = (Some a, Some b) \<Longrightarrow>
     \<exists>u v w. s = u @ [CHR ''/''] @ v @ [CHR ''/''] @ w \<and> a = i + length u \<and> b = a + 1 + length v"
proof (induction s arbitrary: i)
  case (Cons c s)
  show ?case
  proof (cases "c = CHR ''/''")
    case True
    with Cons.prems have "scanSlashes s (Suc i) (Some i) = (Some a, Some b)" by simp
    from scanSlashes_second [OF this] obtain v w where "s = v @ [CHR ''/''] @ w" "a = i" "b = Suc i + length v" by blast
    with True show ?thesis by (auto intro: exI [of _ "[]"])
  next
    case False
    with Cons.prems have "scanSlashes s (Suc i) None = (Some a, Some b)" by simp
    from Cons.IH [OF this] obtain u v w
      where "s = u @ [CHR ''/''] @ v @ [CHR ''/''] @ w" "a = Suc i + length u" "b = a + 1 + length v" by blast
    then have "c # s = (c # u) @ [CHR ''/''] @ v @ [CHR ''/''] @ w \<and> a = i + length (c # u) \<and> b = a + 1 + length v"
      by simp
    then show ?thesis by blast
  qed
qed simp

text \<open>A bucket is read under the one GVR whose bucket it is.\<close>

lemma parseGVRBucket_inverse:
  assumes "parseGVRBucket b = Some g"
  shows "bucketName g = b"
proof -
  from assms obtain i j where sc: "scanSlashes b 0 None = (Some i, Some j)"
    and g: "g = \<lparr>Group = take i b, Version = take (j - (i + 1)) (drop (i + 1) b), ResourceName = drop (j + 1) b\<rparr>"
    by (auto simp: parseGVRBucket_def Let_def split: prod.splits option.splits if_splits)
  from scanSlashes_first [OF sc] obtain u v w
    where "b = u @ [CHR ''/''] @ v @ [CHR ''/''] @ w" "i = length u" "j = i + 1 + length v" by auto
  then show ?thesis by (simp add: g bucketName_def GVR_String_def)
qed

definition valid_gvr :: "GVR \<Rightarrow> bool" where
  "valid_gvr g \<longleftrightarrow> parseGVRBucket (bucketName g) = Some g"

lemma loadBuckets:
  assumes "distinct bs"
  shows "foldl (loadBucket L db) (out, n) bs = (out', n') \<Longrightarrow> distinct (map fst out) \<Longrightarrow>
    distinct (map fst out') \<and>
    (valid_gvr g \<longrightarrow> map_of out' g =
       (if bucketName g \<in> set bs then Some (boltEntries L (bucketName g) db) else map_of out g)) \<and>
    n' = (case boltGet L metaBucket rvKey db of Some v \<Rightarrow> if metaBucket \<in> set bs \<and> length v = 8 then Uint64 v else n
          | None \<Rightarrow> n)"
  using assms
proof (induction bs arbitrary: out n)
  case (Cons b bs)
  obtain out1 n1 where 1: "loadBucket L db (out, n) b = (out1, n1)" by fastforce
  then have f: "foldl (loadBucket L db) (out1, n1) bs = (out', n')" using Cons.prems(1) by simp
  have d: "distinct (map fst out1)"
    using 1 Cons.prems(2) by (auto simp: loadBucket_def split: if_splits option.splits)
  have m: "map_of out1 g = (if b = bucketName g then Some (boltEntries L b db) else map_of out g)" if "valid_gvr g"
  proof (cases "parseGVRBucket b")
    case None
    then have "b \<noteq> bucketName g" using that by (auto simp: valid_gvr_def)
    with 1 None show ?thesis by (auto simp: loadBucket_def split: if_splits option.splits)
  next
    case (Some h)
    then have "b \<noteq> metaBucket" by auto
    moreover have "h = g \<longleftrightarrow> b = bucketName g"
      using Some that parseGVRBucket_inverse [OF Some] unfolding valid_gvr_def by (metis option.inject)
    ultimately show ?thesis using 1 Some by (auto simp: loadBucket_def)
  qed
  have n: "n1 = (case boltGet L metaBucket rvKey db of
      Some v \<Rightarrow> if b = metaBucket \<and> length v = 8 then Uint64 v else n | None \<Rightarrow> n)"
    using 1 by (auto simp: loadBucket_def split: if_splits option.splits)
  show ?case
  proof (intro conjI impI)
    show "distinct (map fst out')" using Cons.IH [OF f d] Cons.prems(3) by simp
    show "map_of out' g = (if bucketName g \<in> set (b # bs) then Some (boltEntries L (bucketName g) db) else map_of out g)"
      if "valid_gvr g" using Cons.IH [OF f d] Cons.prems(3) m [OF that] that by simp
    show "n' = (case boltGet L metaBucket rvKey db of
        Some v \<Rightarrow> if metaBucket \<in> set (b # bs) \<and> length v = 8 then Uint64 v else n | None \<Rightarrow> n)"
      using Cons.IH [OF f d] Cons.prems(3) n by (cases "boltGet L metaBucket rvKey db") auto
  qed
qed (auto split: option.split)

lemma loadBuckets_valid:
  assumes "\<not> valid_gvr g"
  shows "foldl (loadBucket L db) (out, n) bs = (out', n') \<Longrightarrow> map_of out' g = map_of out g"
proof (induction bs arbitrary: out n)
  case (Cons b bs)
  obtain out1 n1 where 1: "loadBucket L db (out, n) b = (out1, n1)" by fastforce
  have "parseGVRBucket b \<noteq> Some g"
    using assms parseGVRBucket_inverse unfolding valid_gvr_def by metis
  then have "map_of out1 g = map_of out g"
    using 1 by (auto simp: loadBucket_def split: if_splits option.splits)
  then show ?case using Cons.IH [of out1 n1] Cons.prems 1 by simp
qed simp

text \<open>What \<^verbatim>\<open>Load\<close> returns, in terms of the tables.\<close>

definition loaded :: "('j, 'db) storelib \<Rightarrow> 'db \<Rightarrow> GVR \<Rightarrow> (string \<rightharpoonup> bytes)" where
  "loaded L db g = (case Load L db of Inl _ \<Rightarrow> Map.empty
     | Inr (snap, _) \<Rightarrow> (case map_of snap g of None \<Rightarrow> Map.empty | Some objs \<Rightarrow> map_of objs))"

definition loadedRV :: "('j, 'db) storelib \<Rightarrow> 'db \<Rightarrow> uint64" where
  "loadedRV L db = (case Load L db of Inl _ \<Rightarrow> 0 | Inr (_, n) \<Rightarrow> n)"

lemma Load_ok:
  assumes "bolt_laws L" "bolt_wf L db"
  obtains snap n where "Load L db = Inr (snap, n)" "distinct (map fst snap)"
    "\<And>g. map_of snap g = (if valid_gvr g \<and> boltHasBucket L (bucketName g) db then Some (boltEntries L (bucketName g) db) else None)"
    "n = (case table_of (tables L db) metaBucket rvKey of Some v \<Rightarrow> if length v = 8 then Uint64 v else 0 | None \<Rightarrow> 0)"
proof -
  obtain snap n where f: "foldl (loadBucket L db) ([], 0) (boltBuckets L db) = (snap, n)" by fastforce
  have bk: "distinct (boltBuckets L db)" "\<And>b. b \<in> set (boltBuckets L db) \<longleftrightarrow> boltHasBucket L b db"
    using assms(2) by (simp_all add: bolt_wf_def)
  note lb = loadBuckets [OF bk(1) f]
  have "Load L db = Inr (snap, n)" by (simp add: Load_def bolt_lawsD(2) [OF assms(1)] f)
  moreover have "n = (case table_of (tables L db) metaBucket rvKey of Some v \<Rightarrow> if length v = 8 then Uint64 v else 0 | None \<Rightarrow> 0)"
    using lb assms(2) by (auto simp: bk table_of_def tables_def bolt_wf_def split: option.splits if_splits)
  moreover have "map_of snap g = (if valid_gvr g \<and> boltHasBucket L (bucketName g) db then Some (boltEntries L (bucketName g) db) else None)" for g
    using lb [of g] loadBuckets_valid [OF _ f, of g] by (auto simp: bk(2))
  ultimately show ?thesis using that lb by simp
qed

lemma loaded_tables:
  assumes "bolt_laws L" "bolt_wf L db"
  shows "valid_gvr g \<Longrightarrow> loaded L db g = table_of (tables L db) (bucketName g)"
    "loadedRV L db = (case table_of (tables L db) metaBucket rvKey of Some v \<Rightarrow> if length v = 8 then Uint64 v else 0 | None \<Rightarrow> 0)"
  by (rule Load_ok [OF assms]; simp add: loaded_def loadedRV_def table_of_def tables_def)+

section \<open>The persister's contract\<close>

text \<open>One write of the store to its persister.\<close>

datatype pwrite = Save GVR string bytes uint64 | Remove GVR string uint64

fun write_version :: "pwrite \<Rightarrow> uint64" where
  "write_version (Save g k v n) = n"
| "write_version (Remove g k n) = n"

fun write_map :: "pwrite \<Rightarrow> (GVR \<times> string \<rightharpoonup> bytes) \<Rightarrow> (GVR \<times> string \<rightharpoonup> bytes)" where
  "write_map (Save g k v n) m = m((g, k) \<mapsto> v)"
| "write_map (Remove g k n) m = m((g, k) := None)"

text \<open>\<open>accepts\<close> says which writes the persister can take; \<open>content\<close> and \<open>version\<close> are what a later
  load returns. The laws are those of the interface \<^verbatim>\<open>Persister\<close>: a write is what is read back.\<close>

locale persister =
  fixes perform :: "pwrite \<Rightarrow> 'p \<Rightarrow> 'p"
    and accepts :: "pwrite \<Rightarrow> bool"
    and content :: "'p \<Rightarrow> (GVR \<times> string \<rightharpoonup> bytes)"
    and version :: "'p \<Rightarrow> uint64"
    and scope :: "GVR \<Rightarrow> bool"
    and invar :: "'p \<Rightarrow> bool"
  assumes perform_invar: "invar p \<Longrightarrow> accepts w \<Longrightarrow> invar (perform w p)"
    and perform_content: "invar p \<Longrightarrow> accepts w \<Longrightarrow> scope g \<Longrightarrow> content (perform w p) (g, k) = write_map w (content p) (g, k)"
    and perform_version: "invar p \<Longrightarrow> accepts w \<Longrightarrow> version (perform w p) = write_version w"
begin

lemma replay:
  assumes "invar p" "\<forall>w \<in> set ws. accepts w"
  shows "invar (fold perform ws p)"
    and "scope g \<Longrightarrow> content (fold perform ws p) (g, k) = fold write_map ws (content p) (g, k)"
    and "version (fold perform ws p) = (if ws = [] then version p else write_version (last ws))"
proof -
  have "invar (fold perform ws p) \<and> (scope g \<longrightarrow> content (fold perform ws p) (g, k) = fold write_map ws (content p) (g, k)) \<and>
    version (fold perform ws p) = (if ws = [] then version p else write_version (last ws))"
    using assms
  proof (induction ws rule: rev_induct)
    case (snoc w ws)
    let ?p = "fold perform ws p"
    have p: "invar ?p" "accepts w" using snoc by simp_all
    have "content (perform w ?p) (g, k) = write_map w (fold write_map ws (content p)) (g, k)" if "scope g"
      using perform_content [OF p that] snoc that by (cases w) auto
    then show ?case using perform_invar [OF p] perform_version [OF p] by simp
  qed simp
  then show "invar (fold perform ws p)"
    and "scope g \<Longrightarrow> content (fold perform ws p) (g, k) = fold write_map ws (content p) (g, k)"
    and "version (fold perform ws p) = (if ws = [] then version p else write_version (last ws))"
    by simp_all
qed

end

text \<open>The bbolt persister, with its library.\<close>

fun bolt_perform :: "pwrite \<Rightarrow> ('j, 'db) storelib \<times> 'db \<Rightarrow> ('j, 'db) storelib \<times> 'db" where
  "bolt_perform (Save g k v n) (L, db) = (L, snd (SaveObject L g k v n db))"
| "bolt_perform (Remove g k n) (L, db) = (L, snd (RemoveObject L g k n db))"

fun bolt_accepts :: "pwrite \<Rightarrow> bool" where
  "bolt_accepts (Save g k v n) \<longleftrightarrow> valid_gvr g \<and> k \<noteq> '''' \<and> length k \<le> MaxKeySize \<and> length v \<le> MaxValueSize"
| "bolt_accepts (Remove g k n) \<longleftrightarrow> valid_gvr g"

definition bolt_content :: "('j, 'db) storelib \<times> 'db \<Rightarrow> (GVR \<times> string \<rightharpoonup> bytes)" where
  "bolt_content p = (\<lambda>(g, k). loaded (fst p) (snd p) g k)"

definition bolt_version :: "('j, 'db) storelib \<times> 'db \<Rightarrow> uint64" where
  "bolt_version p = loadedRV (fst p) (snd p)"

definition bolt_invar :: "('j, 'db) storelib \<times> 'db \<Rightarrow> bool" where
  "bolt_invar p \<longleftrightarrow> bolt_laws (fst p) \<and> bolt_wf (fst p) (snd p)"

lemma valid_gvr_bucket: "valid_gvr g \<Longrightarrow> valid_gvr h \<Longrightarrow> bucketName g = bucketName h \<longleftrightarrow> g = h"
  unfolding valid_gvr_def by (metis option.inject)

lemma table_of_set_rv [simp]:
  "table_of (set_rv n t) (bucketName g) = table_of t (bucketName g)"
  "table_of (set_rv n t) metaBucket rvKey = Some (PutUint64 n)"
  by (simp_all add: set_rv_def table_of_def)

lemma table_of_upd [simp]: "table_of (t(b \<mapsto> m)) b' = (if b' = b then m else table_of t b')"
  by (simp add: table_of_def)

lemma table_of_remove:
  "table_of (case t b of None \<Rightarrow> t | Some m \<Rightarrow> t(b \<mapsto> m(k := None))) b' =
    (if b' = b then (table_of t b)(k := None) else table_of t b')"
  by (auto simp: table_of_def split: option.split)

interpretation bolt: persister bolt_perform bolt_accepts bolt_content bolt_version valid_gvr bolt_invar
proof unfold_locales
  fix p :: "('j, 'db) storelib \<times> 'db" and w g k
  assume p: "bolt_invar p" and w: "bolt_accepts w"
  obtain L db where [simp]: "p = (L, db)" by fastforce
  have laws: "bolt_laws L" "bolt_wf L db" using p by (simp_all add: bolt_invar_def)
  obtain db' where db': "bolt_perform w p = (L, db')" "bolt_wf L db'"
    "table_of (tables L db') metaBucket rvKey = Some (PutUint64 (write_version w))"
    "\<And>h. valid_gvr h \<Longrightarrow> table_of (tables L db') (bucketName h) k =
       write_map w (\<lambda>(g, k). table_of (tables L db) (bucketName g) k) (h, k)"
  proof (cases w)
    case (Save g' k' v n)
    with w SaveObject_ok [OF laws, of k' v g' n] show ?thesis
      by (auto intro!: that simp: valid_gvr_bucket)
  next
    case (Remove g' k' n)
    with w RemoveObject_ok [OF laws, of g' k' n] show ?thesis
      by (auto intro!: that simp: valid_gvr_bucket table_of_remove)
  qed
  show "bolt_invar (bolt_perform w p)" using laws db'(1,2) by (simp add: bolt_invar_def)
  show "bolt_version (bolt_perform w p) = write_version w"
    using loaded_tables(2) [OF laws(1) db'(2)] db'(1,3) by (simp add: bolt_version_def)
  show "bolt_content (bolt_perform w p) (g, k) = write_map w (bolt_content p) (g, k)" if "valid_gvr g"
    using loaded_tables(1) [OF laws(1) db'(2) that] loaded_tables(1) [OF laws that] db'(1) db'(4) [OF that]
    by (cases w) (auto simp: bolt_content_def)
qed

section \<open>The store and its persister\<close>

text \<open>What the store hands to the persister for an event; an object that does not marshal is not
  written.\<close>

definition event_writes :: "('j, 'db) storelib \<Rightarrow> ('j, 'db) store \<Rightarrow> 'j Event \<Rightarrow> pwrite list" where
  "event_writes L s ev = (
     if evType ev = Deleted then [Remove (evGVR ev) (event_key s ev) (evRV ev)]
     else case MarshalJSON L (evObject ev) of Inl _ \<Rightarrow> []
       | Inr bs \<Rightarrow> [Save (evGVR ev) (event_key s ev) bs (evRV ev)])"

lemma persist_put_and_emit:
  assumes "resources s g = Some rm" "k = key (rmNamespaced rm) (namespace ob) (name ob)" "t \<noteq> Deleted" "persist u = Some db"
  shows "persist (put_and_emit L t g k ob u) =
    Some (snd (fold bolt_perform (event_writes L s \<lparr>evType = t, evObject = ob, evRV = rv u, evGVR = g\<rparr>) (L, db)))"
  using assms
  by (auto simp: put_and_emit_def putLocked_def Let_def event_writes_def event_key_def split: sum.split)

lemma silent_op_persist: "store_op L s es s' \<Longrightarrow> es = [] \<Longrightarrow> persist s' = persist s"
proof (induction rule: store_op.induct)
  case (watch ord g opts s s' r)
  then show ?case by (auto simp: Watch_def Let_def split: sum.splits)
qed (auto simp: Register_def SetDeleteHook_def dest!: Create_errE Update_err Patch_err Delete_err)

lemma createNamed_persist:
  assumes "createNamed L g rm ob s = (s', Inr ob')" "resources s g = Some rm" "persist s = Some db"
  shows "persist s' = Some (snd (fold bolt_perform
    (event_writes L s \<lparr>evType = Added, evObject = ob', evRV = rv s', evGVR = g\<rparr>) (L, db)))"
proof -
  from assms(1) obtain s1 where st: "stampNew ob s = (s1, ob')"
    and s': "s' = put_and_emit L Added g (key (rmNamespaced rm) (namespace ob) (name ob)) ob' s1"
    by (auto simp: createNamed_def Let_def split: if_splits prod.splits)
  have "persist s1 = Some db" "namespace ob' = namespace ob" "name ob' = name ob"
    using st assms(3) by (auto simp: stampNew_def Let_def nextRV_def split: if_splits)
  with persist_put_and_emit [OF assms(2), of _ ob' Added s1 db] show ?thesis
    by (simp add: s') (simp add: put_and_emit_def)
qed

lemma commitUpdate_persist:
  assumes "commitUpdate L g k old inc st s = (s', m)" "resources s g = Some rm" "persist s = Some db"
    and "k = key (rmNamespaced rm) (namespace m) (name m)"
  shows "persist s' = Some (snd (fold bolt_perform
    (event_writes L s \<lparr>evType = Modified, evObject = m, evRV = rv s', evGVR = g\<rparr>) (L, db)))"
proof -
  have s': "s' = put_and_emit L Modified g k m (nextRV s)"
    using assms(1) by (auto simp: commitUpdate_def Let_def)
  show ?thesis
    using persist_put_and_emit [OF assms(2,4), of Modified "nextRV s" db] assms(3)
    by (simp add: s') (simp add: put_and_emit_def)
qed

lemma Delete_persist:
  assumes "Delete L g ns nm s = (s', Inr d)" "resources s g = Some rm" "persist s = Some db"
    and "key (rmNamespaced rm) (eff_ns rm ns) nm = key (rmNamespaced rm) (namespace d) (name d)"
  shows "persist s' = Some (snd (fold bolt_perform
    (event_writes L s \<lparr>evType = Deleted, evObject = d, evRV = rv s', evGVR = g\<rparr>) (L, db)))"
proof -
  have "rv s' = rv s + 1" using assms(1) by (rule Delete_okE)
  moreover have "persist s' = Some (snd (RemoveObject L g (key (rmNamespaced rm) (eff_ns rm ns) nm) (rv s + 1) db))"
    using assms(1-3) by (auto simp: Delete_def Let_def eff_ns_def meta_def split: option.splits)
  ultimately show ?thesis using assms(2,4) by (simp add: event_writes_def event_key_def)
qed

lemma event_writes_stable:
  assumes "resources s (evGVR ev) = resources s' (evGVR ev)"
  shows "event_writes L s ev = event_writes L s' ev"
proof -
  have "event_key s ev = event_key s' ev" using assms by (simp add: event_key_def)
  then show ?thesis by (simp add: event_writes_def split: sum.split)
qed

lemma store_op_persist:
  assumes "store_op L s es s'" "keys_ok s" "persist s = Some db"
  shows "persist s' = Some (snd (fold bolt_perform (concat (map (event_writes L s) es)) (L, db)))"
proof (cases "es = []")
  case True
  with assms silent_op_persist [OF assms(1)] show ?thesis by simp
next
  case False
  have kok: "k = key (rmNamespaced rm) (namespace ob) (name ob)"
    if "resources s g = Some rm" "lookup s g k = Some ob" for g k rm ob
    using assms(2) that by (simp add: keys_ok_def view_apply)
  from assms(1) False show ?thesis
  proof (cases rule: store_op.cases)
    case (create g ob ob')
    from create(2) obtain rm ob1 i where rm: "resources s g = Some rm"
      and cn: "createNamed L g rm ob1 (s\<lparr>randCount := i\<rparr>) = (s', Inr ob')" by (rule Create_okE)
    have "event_writes L (s\<lparr>randCount := i\<rparr>) ev = event_writes L s ev" for ev
      by (intro event_writes_stable) simp
    with createNamed_persist [OF cn] rm assms(3) show ?thesis by (simp add: create(1))
  next
    case (update g ob st m)
    from update(2) obtain rm old where rm: "resources s g = Some rm"
      and old: "lookup s g (key (rmNamespaced rm) (eff_ns rm (namespace ob)) (name ob)) = Some old"
      and c: "commitUpdate L g (key (rmNamespaced rm) (eff_ns rm (namespace ob)) (name ob)) old ob st s = (s', m)"
      by (rule Update_okE)
    have "key (rmNamespaced rm) (eff_ns rm (namespace ob)) (name ob) = key (rmNamespaced rm) (namespace m) (name m)"
      using kok [OF rm old] commitUpdate_facts(3) [OF c] by (auto simp: eff_ns_def key_def)
    from commitUpdate_persist [OF c rm assms(3) this] show ?thesis by (simp add: update(1))
  next
    case (patch g ns nm t body st m)
    from patch(2) obtain rm old patched where rm: "resources s g = Some rm"
      and c: "commitUpdate L g (key (rmNamespaced rm) (eff_ns rm ns) nm) old patched st s = (s', m)"
      by (rule Patch_okE)
    have "key (rmNamespaced rm) (eff_ns rm ns) nm = key (rmNamespaced rm) (namespace m) (name m)"
      using patch(3) rm by (simp add: keeps_identity_def)
    from commitUpdate_persist [OF c rm assms(3) this] show ?thesis by (simp add: patch(1))
  next
    case (delete g ns nm d)
    from delete(2) obtain rm old where rm: "resources s g = Some rm"
      and old: "lookup s g (key (rmNamespaced rm) (eff_ns rm ns) nm) = Some old"
      and d: "d = old\<lparr>resourceVersion := FormatUint (rv s + 1)\<rparr>" by (rule Delete_okE)
    have "key (rmNamespaced rm) (eff_ns rm ns) nm = key (rmNamespaced rm) (namespace d) (name d)"
      using kok [OF rm old] by (simp add: d)
    from Delete_persist [OF delete(2) rm assms(3) this] show ?thesis by (simp add: delete(1))
  qed auto
qed

lemma chan_op_persist: "chan_op i s s' \<Longrightarrow> persist s' = persist s"
  by (induction rule: chan_op.induct)
     (auto simp: pump_live_def removeSub_def Let_def split: list.splits if_splits)

lemma store_step_persist:
  assumes "store_step L s es s'" "keys_ok s" "persist s = Some db"
  shows "persist s' = Some (snd (fold bolt_perform (concat (map (event_writes L s) es)) (L, db)))"
  using assms(1)
proof (cases rule: store_step.cases)
  case op
  then show ?thesis using assms by (intro store_op_persist) auto
next
  case (chan i)
  then show ?thesis using assms(3) by (simp add: chan_op_persist)
qed

lemma fst_fold_bolt_perform [simp]: "fst (fold bolt_perform ws (L, db)) = L"
proof (induction ws arbitrary: db)
  case (Cons w ws)
  then show ?case by (cases w) simp_all
qed simp

text \<open>Along a run the persister receives exactly the writes of the log.\<close>

lemma run_persist:
  assumes "run (store_step L) s log t" "store_wf s" "unat (rv s) + length log \<le> 2 ^ 64 - 1" "persist s = Some db"
  shows "persist t = Some (snd (fold bolt_perform (concat (map (event_writes L t) log)) (L, db)))"
  using assms(1-3)
proof (induction rule: st.run_induct_bounded)
  case refl
  show ?case using assms(4) by simp
next
  case (step log t es u)
  have reg: "\<forall>ev \<in> set log. resources t (evGVR ev) \<noteq> None" "\<forall>ev \<in> set es. resources t (evGVR ev) \<noteq> None"
    using run_view [OF step.hyps(1) assms(2)] step.hyps(3,4) store_step_cases [OF step.hyps(5)] step.hyps(2) by auto
  have same: "event_writes L t ev = event_writes L u ev" if ev: "ev \<in> set (log @ es)" for ev
  proof -
    obtain rm where "resources t (evGVR ev) = Some rm" using reg ev by auto
    moreover from this have "resources u (evGVR ev) = Some rm"
      using store_step_resources [OF step.hyps(5)] step.hyps(2) by simp
    ultimately show ?thesis by (intro event_writes_stable) simp
  qed
  have "map (event_writes L u) log = map (event_writes L t) log" "map (event_writes L u) es = map (event_writes L t) es"
    using same by (auto intro!: map_cong [OF refl])
  moreover have "(L, snd (fold bolt_perform ws (L, db))) = fold bolt_perform ws (L, db)" for ws
    by (metis fst_fold_bolt_perform prod.collapse)
  ultimately show ?case
    using store_step_persist [OF step.hyps(5) _ step.IH] step.hyps(2) by (simp del: map_eq_conv)
qed

section \<open>A restart\<close>

text \<open>\<^verbatim>\<open>kubefacade.New\<close> registers every resource of the registry with the store; \<^verbatim>\<open>app.New\<close> opens the
  database, creates the store at the version found there, has the facade register the
  resources and loads the objects. \<open>ord\<close> is the order in which the loaded maps are ranged over.\<close>

definition registerAll :: "Registry \<Rightarrow> ('j, 'db) store \<Rightarrow> ('j, 'db) store" where
  "registerAll reg s = foldl (\<lambda>s res. Register (rGVR res) (rNamespaced res) s) s (Registry_All reg)"

definition restore :: "('j, 'db) storelib \<Rightarrow> (snapshot \<Rightarrow> snapshot) \<Rightarrow> time \<Rightarrow> (nat \<Rightarrow> string) \<Rightarrow> (nat \<Rightarrow> nat) \<Rightarrow>
    'db \<Rightarrow> string + ('j, 'db) store" where
  "restore L ord t0 uids draws db = (case Load L db of
      Inl err \<Rightarrow> Inl (''app: load state: '' @ err)
    | Inr (snap, n) \<Rightarrow>
       (let st = registerAll NewDefaultRegistry
                   (store_New \<lparr>oPersister = Some db, oHistoryCap = 0, oStartRV = n\<rparr> t0 uids draws)
        in case LoadFrom L (ord snap) st of
             (_, Some err) \<Rightarrow> Inl (''app: restore objects: '' @ err)
           | (st1, None) \<Rightarrow> Inr st1))"

definition reorders :: "(snapshot \<Rightarrow> snapshot) \<Rightarrow> bool" where
  "reorders ord \<longleftrightarrow> (\<forall>snap. distinct (map fst snap) \<longrightarrow> distinct (map fst (ord snap)) \<and>
     (\<forall>g. map_option mset (map_of (ord snap) g) = map_option mset (map_of snap g)))"

lemma Register_fold:
  "foldl (\<lambda>s res. Register (rGVR res) (rNamespaced res) s) s rs =
     s\<lparr>resources := foldl (\<lambda>m res. m(rGVR res \<mapsto> \<lparr>rmNamespaced = rNamespaced res, rmGroupRes = GVR_GroupResource (rGVR res)\<rparr>)) (resources s) rs\<rparr>"
  by (induction rs arbitrary: s) (simp_all add: Register_def)

lemma resources_fold:
  "foldl (\<lambda>m res. m(rGVR res \<mapsto> f res)) m rs g = None \<longleftrightarrow> m g = None \<and> g \<notin> set (map rGVR rs)"
  by (induction rs arbitrary: m) auto

lemma reg_list_add_resource [simp]:
  "reg_list (add_resource reg r) = reg_list reg @ [if rVerbs r = [] then r\<lparr>rVerbs := defaultVerbs\<rparr> else r]"
  by (simp add: add_resource_def Let_def)

lemma default_registry_gvrs: "map rGVR (reg_list NewDefaultRegistry) = map rGVR default_resources"
  by (simp add: NewDefaultRegistry_def default_resources_def mk_resource_def)

definition default_gvrs :: "GVR set" where
  "default_gvrs = set (map rGVR default_resources)"

lemma registered_iff: "resources (registerAll NewDefaultRegistry s) g \<noteq> None \<longleftrightarrow>
    resources s g \<noteq> None \<or> g \<in> default_gvrs"
proof -
  have "default_gvrs = set (map rGVR (Registry_All NewDefaultRegistry))"
    unfolding default_gvrs_def default_registry_gvrs [symmetric] by (simp add: Registry_All_def)
  then show ?thesis
    unfolding registerAll_def Register_fold by (simp add: resources_fold del: not_None_eq)
qed

lemma default_gvrs_valid: "g \<in> default_gvrs \<Longrightarrow> valid_gvr g"
  by (auto simp: valid_gvr_def default_gvrs_def default_resources_def mk_resource_def gvr_defs group_defs
      intro!: parseGVRBucket_bucketName)

lemma registerAll_frame [simp]:
  "data (registerAll reg s) = data s" "rv (registerAll reg s) = rv s" "history (registerAll reg s) = history s"
  "histCap (registerAll reg s) = histCap s" "subs (registerAll reg s) = subs s" "chans (registerAll reg s) = chans s"
  "nextSub (registerAll reg s) = nextSub s" "persist (registerAll reg s) = persist s"
  by (simp_all add: registerAll_def Register_fold)

subsection \<open>Loading\<close>

definition decode :: "('j, 'db) storelib \<Rightarrow> bytes \<Rightarrow> 'j obj option" where
  "decode L bs = (case UnmarshalJSON L bs of Inl _ \<Rightarrow> None | Inr u \<Rightarrow> Some u)"

definition only_data :: "('j, 'db) store \<Rightarrow> ('j, 'db) store \<Rightarrow> bool" where
  "only_data s s' \<longleftrightarrow> (\<exists>d. s' = s\<lparr>data := d\<rparr>)"

lemma only_data_frame:
  assumes "only_data s s'"
  shows "resources s' = resources s" "rv s' = rv s" "history s' = history s" "histCap s' = histCap s"
    "subs s' = subs s" "chans s' = chans s" "nextSub s' = nextSub s" "persist s' = persist s"
  using assms by (auto simp: only_data_def)

lemma only_data_trans: "only_data s t \<Longrightarrow> only_data t u \<Longrightarrow> only_data s u"
  by (auto simp: only_data_def)

lemma only_data_refl [simp]: "only_data s s"
  unfolding only_data_def by (rule exI [of _ "data s"]) simp

lemma only_data_update [simp]: "only_data s (s\<lparr>data := d\<rparr>)"
  by (auto simp: only_data_def)

lemma loadObjects_spec:
  assumes "distinct (map fst objs)"
  shows "(snd (loadObjects L g objs s) = None \<longleftrightarrow> (\<forall>kv \<in> set objs. decode L (snd kv) \<noteq> None)) \<and>
    only_data s (fst (loadObjects L g objs s)) \<and>
    ((\<forall>h. distinct (map fst (data s h))) \<longrightarrow> (\<forall>h. distinct (map fst (data (fst (loadObjects L g objs s)) h)))) \<and>
    (snd (loadObjects L g objs s) = None \<longrightarrow>
       (\<forall>h k. lookup (fst (loadObjects L g objs s)) h k =
         (if h = g then case map_of objs k of None \<Rightarrow> lookup s g k | Some bs \<Rightarrow> decode L bs else lookup s h k)))"
  using assms
proof (induction L g objs s rule: loadObjects.induct)
  case (1 L g s)
  then show ?case by simp
next
  case (2 L g k bs objs s)
  show ?case
  proof (cases "UnmarshalJSON L bs")
    case (Inl e)
    then show ?thesis by (simp add: decode_def)
  next
    case (Inr u)
    let ?s1 = "s\<lparr>data := (data s)(g := AList.update k u (data s g))\<rparr>"
    have d: "distinct (map fst objs)" using "2.prems" by simp
    have od: "only_data s ?s1" by simp
    have notin: "map_of objs k = None" using "2.prems" by (auto simp: map_of_eq_None_iff)
    have lk: "lookup ?s1 h j = (if h = g \<and> j = k then Some u else lookup s h j)" for h j
      by (simp add: lookup_def)
    note IH = "2.IH" [OF Inr d]
    show ?thesis
    proof (intro conjI impI allI)
      show "(snd (loadObjects L g ((k, bs) # objs) s) = None) = (\<forall>kv\<in>set ((k, bs) # objs). decode L (snd kv) \<noteq> None)"
        using IH Inr by (simp add: decode_def)
      show "only_data s (fst (loadObjects L g ((k, bs) # objs) s))"
        using IH Inr only_data_trans [OF od] by simp
      show "distinct (map fst (data (fst (loadObjects L g ((k, bs) # objs) s)) h))"
        if "\<forall>h. distinct (map fst (data s h))" for h
        using IH Inr that by simp
      show "lookup (fst (loadObjects L g ((k, bs) # objs) s)) h j =
         (if h = g then case map_of ((k, bs) # objs) j of None \<Rightarrow> lookup s g j | Some bs \<Rightarrow> decode L bs else lookup s h j)"
        if "snd (loadObjects L g ((k, bs) # objs) s) = None" for h j
        using IH Inr that notin lk by (auto simp: decode_def split: option.split)
    qed
  qed
qed

definition all_decode :: "('j, 'db) storelib \<Rightarrow> ('j, 'db) store \<Rightarrow> snapshot \<Rightarrow> bool" where
  "all_decode L s snap \<longleftrightarrow> (\<forall>(g, objs) \<in> set snap. resources s g \<noteq> None \<longrightarrow> (\<forall>kv \<in> set objs. decode L (snd kv) \<noteq> None))"

lemma LoadFrom_spec:
  assumes "distinct (map fst snap)" "\<forall>(g, objs) \<in> set snap. distinct (map fst objs)"
  shows "(snd (LoadFrom L snap s) = None \<longleftrightarrow> all_decode L s snap) \<and> only_data s (fst (LoadFrom L snap s)) \<and>
    ((\<forall>h. distinct (map fst (data s h))) \<longrightarrow> (\<forall>h. distinct (map fst (data (fst (LoadFrom L snap s)) h)))) \<and>
    (snd (LoadFrom L snap s) = None \<longrightarrow> (\<forall>h k. lookup (fst (LoadFrom L snap s)) h k =
       (case map_of snap h of Some objs \<Rightarrow> (if resources s h = None then lookup s h k
          else case map_of objs k of None \<Rightarrow> lookup s h k | Some bs \<Rightarrow> decode L bs)
        | None \<Rightarrow> lookup s h k)))"
  using assms
proof (induction L snap s rule: LoadFrom.induct)
  case (1 L s)
  then show ?case by (simp add: all_decode_def)
next
  case (2 L g objs snap s)
  have d: "distinct (map fst snap)" "\<forall>(g, objs) \<in> set snap. distinct (map fst objs)" "distinct (map fst objs)"
    and notin: "map_of snap g = None"
    using "2.prems" by (auto simp: map_of_eq_None_iff)
  note lo = loadObjects_spec [OF d(3), of L g s]
  show ?case
  proof (cases "resources s g = None")
    case True
    with "2.IH"(1) [OF True d(1,2)] notin show ?thesis
      by (auto simp: all_decode_def split: option.split)
  next
    case False
    obtain s1 r where s1: "loadObjects L g objs s = (s1, r)" by fastforce
    show ?thesis
    proof (cases r)
      case (Some e)
      with False s1 lo show ?thesis by (auto simp: all_decode_def)
    next
      case None
      note od = lo [unfolded s1 None, simplified]
      have res: "resources s1 = resources s" using od by (simp add: only_data_frame)
      note IH = "2.IH"(2) [OF False _ None d(1,2), of s1, unfolded s1 None, simplified]
      show ?thesis
        using False s1 None IH od notin only_data_trans [of s s1]
        by (auto simp: all_decode_def res split: option.split)
    qed
  qed
qed

text \<open>The fresh store before the objects are loaded, and what loading gives.\<close>

definition fresh_store :: "uint64 \<Rightarrow> time \<Rightarrow> (nat \<Rightarrow> string) \<Rightarrow> (nat \<Rightarrow> nat) \<Rightarrow> 'db \<Rightarrow> ('j, 'db) store" where
  "fresh_store n t0 uids draws db = registerAll NewDefaultRegistry
     (store_New \<lparr>oPersister = Some db, oHistoryCap = 0, oStartRV = n\<rparr> t0 uids draws)"

lemma fresh_store_fields [simp]:
  "data (fresh_store n t0 uids draws db) = (\<lambda>_. [])" "rv (fresh_store n t0 uids draws db) = n"
  "history (fresh_store n t0 uids draws db) = []" "histCap (fresh_store n t0 uids draws db) = 8192"
  "subs (fresh_store n t0 uids draws db) = Map.empty" "chans (fresh_store n t0 uids draws db) = (\<lambda>_. \<lparr>buf = [], closed = False\<rparr>)"
  "persist (fresh_store n t0 uids draws db) = Some db"
  by (simp_all add: fresh_store_def store_New_def)

lemma fresh_store_registered:
  "resources (fresh_store n t0 uids draws db) g \<noteq> None \<longleftrightarrow> g \<in> default_gvrs"
  unfolding fresh_store_def registered_iff by (simp add: store_New_def)

lemma resources_fold_in:
  assumes "r \<in> set rs" "\<And>r'. r' \<in> set rs \<Longrightarrow> rGVR r' = rGVR r \<Longrightarrow> f r' = v"
  shows "foldl (\<lambda>m res. m(rGVR res \<mapsto> f res)) m rs (rGVR r) = Some v"
  using assms
proof (induction rs rule: rev_induct)
  case (snoc q rs)
  show ?case
  proof (cases "rGVR q = rGVR r")
    case True
    then show ?thesis using snoc.prems(2) [of q] by simp
  next
    case False
    then have "r \<in> set rs" using snoc.prems(1) by auto
    with False show ?thesis using snoc.IH snoc.prems(2) by simp
  qed
qed simp

lemma default_registry_list: "reg_list NewDefaultRegistry = map (\<lambda>r. r\<lparr>rVerbs := defaultVerbs\<rparr>) default_resources"
  by (simp add: NewDefaultRegistry_def default_resources_def mk_resource_def)

lemma default_gvrs_distinct: "distinct (map rGVR default_resources)"
  by (simp add: default_resources_def mk_resource_def gvr_defs group_defs)

lemma fresh_store_meta:
  assumes "r \<in> set default_resources"
  shows "resources (fresh_store n t0 uids draws db) (rGVR r) =
    Some \<lparr>rmNamespaced = rNamespaced r, rmGroupRes = GVR_GroupResource (rGVR r)\<rparr>"
proof -
  let ?r = "r\<lparr>rVerbs := defaultVerbs\<rparr>"
  have "?r \<in> set (Registry_All NewDefaultRegistry)"
    using assms by (simp add: Registry_All_def default_registry_list)
  moreover have "rNamespaced r' = rNamespaced ?r" if r': "r' \<in> set (Registry_All NewDefaultRegistry)" "rGVR r' = rGVR ?r" for r'
  proof -
    obtain q where q: "q \<in> set default_resources" "r' = q\<lparr>rVerbs := defaultVerbs\<rparr>"
      using r'(1) by (auto simp: Registry_All_def default_registry_list)
    have "inj_on rGVR (set default_resources)" using default_gvrs_distinct by (simp add: distinct_map)
    moreover have "rGVR q = rGVR r" using q(2) r'(2) by simp
    ultimately have "q = r" using q(1) assms by (rule inj_onD)
    then show ?thesis by (simp add: q(2))
  qed
  ultimately show ?thesis
    using resources_fold_in [of ?r "Registry_All NewDefaultRegistry"
      "\<lambda>r. \<lparr>rmNamespaced = rNamespaced r, rmGroupRes = GVR_GroupResource (rGVR r)\<rparr>"
      "\<lparr>rmNamespaced = rNamespaced r, rmGroupRes = GVR_GroupResource (rGVR r)\<rparr>"]
    by (simp add: fresh_store_def registerAll_def Register_fold)
qed

lemma fresh_store_resources: "resources (fresh_store n t0 uids draws db) = resources (fresh_store n' t1 uids' draws' db')"
  by (simp add: fresh_store_def registerAll_def Register_fold store_New_def)

lemma reorders_loaded:
  assumes "reorders ord" "bolt_laws L" "bolt_wf L db" "Load L db = Inr (snap, n)"
  shows "distinct (map fst (ord snap))" "\<forall>(g, objs) \<in> set (ord snap). distinct (map fst objs)"
    "(case map_of (ord snap) g of None \<Rightarrow> Map.empty | Some objs \<Rightarrow> map_of objs) = loaded L db g"
proof -
  have sn: "distinct (map fst snap)"
    "\<And>g. map_of snap g = (if valid_gvr g \<and> boltHasBucket L (bucketName g) db then Some (boltEntries L (bucketName g) db) else None)"
    using assms(4) by (auto intro: Load_ok [OF assms(2,3)])
  then show d: "distinct (map fst (ord snap))" using assms(1) by (simp add: reorders_def)
  have ms: "map_option mset (map_of (ord snap) g) = map_option mset (map_of snap g)" for g
    using assms(1) sn(1) by (simp add: reorders_def)
  have ent: "\<exists>entries. map_of snap g = Some entries \<and> distinct (map fst entries) \<and> mset objs = mset entries"
    if o: "map_of (ord snap) g = Some objs" for g objs
  proof -
    obtain entries where e: "map_of snap g = Some entries" "mset objs = mset entries"
      using ms [of g] o by (cases "map_of snap g") auto
    moreover have "distinct (map fst entries)"
      using e(1) sn(2) [of g] assms(3) by (auto simp: bolt_wf_def split: if_splits)
    ultimately show ?thesis by blast
  qed
  show "\<forall>(g, objs) \<in> set (ord snap). distinct (map fst objs)"
  proof (clarify)
    fix g objs assume "(g, objs) \<in> set (ord snap)"
    then have "map_of (ord snap) g = Some objs" using d by simp
    from ent [OF this] show "distinct (map fst objs)" by (metis mset_eq_imp_distinct_iff mset_map)
  qed
  show "(case map_of (ord snap) g of None \<Rightarrow> Map.empty | Some objs \<Rightarrow> map_of objs) = loaded L db g"
  proof (cases "map_of (ord snap) g")
    case None
    then show ?thesis using ms [of g] by (simp add: loaded_def assms(4))
  next
    case (Some objs)
    from ent [OF Some] obtain entries
      where e: "map_of snap g = Some entries" "distinct (map fst entries)" "mset objs = mset entries" by blast
    from map_of_mset [of entries objs] e(2,3) have "map_of objs = map_of entries" by simp
    then show ?thesis using Some e(1) by (simp add: loaded_def assms(4))
  qed
qed

lemma restore_ok:
  assumes "reorders ord" "bolt_laws L" "bolt_wf L db" "restore L ord t0 uids draws db = Inr s"
  shows "lookup s g k = (if g \<in> default_gvrs then Option.bind (loaded L db g k) (decode L) else None)"
    and "only_data (fresh_store (loadedRV L db) t0 uids draws db) s" "\<forall>g. distinct (map fst (data s g))"
    and "g \<in> default_gvrs \<Longrightarrow> loaded L db g k = Some bs \<Longrightarrow> decode L bs \<noteq> None"
proof -
  obtain snap n where l: "Load L db = Inr (snap, n)" by (auto intro: Load_ok [OF assms(2,3)])
  note r = reorders_loaded [OF assms(1-3) l]
  let ?f = "fresh_store n t0 uids draws db :: ('a, 'b) store"
  have lf: "LoadFrom L (ord snap) ?f = (s, None)"
    using assms(4) by (auto simp: restore_def l Let_def fresh_store_def split: prod.splits option.splits)
  note sp = LoadFrom_spec [OF r(1,2), of L ?f, unfolded lf, simplified]
  have n: "loadedRV L db = n" by (simp add: loadedRV_def l)
  show "only_data (fresh_store (loadedRV L db) t0 uids draws db) s" "\<forall>g. distinct (map fst (data s g))"
    using sp by (simp_all add: n)
  show dec: "decode L bs \<noteq> None" if in_reg: "g \<in> default_gvrs" and ld: "loaded L db g k = Some bs" for g k bs
  proof -
    have reg: "resources ?f g \<noteq> None" using in_reg by (simp add: fresh_store_registered del: not_None_eq)
    obtain objs where o: "map_of (ord snap) g = Some objs" "map_of objs k = Some bs"
      using r(3) [of g, THEN fun_cong, of k] ld by (auto split: option.splits)
    then show ?thesis using sp reg by (fastforce simp: all_decode_def dest: map_of_SomeD)
  qed
  have lk: "lookup s g k = (case map_of (ord snap) g of None \<Rightarrow> None
      | Some objs \<Rightarrow> if resources ?f g = None then None else Option.bind (map_of objs k) (decode L))"
    using sp by (auto simp: lookup_def split: option.split)
  have "loaded L db g k = (case map_of (ord snap) g of None \<Rightarrow> None | Some objs \<Rightarrow> map_of objs k)"
    unfolding r(3) [of g, symmetric] by (simp split: option.split)
  with lk fresh_store_registered [of n t0 uids draws db g]
  show "lookup s g k = (if g \<in> default_gvrs then Option.bind (loaded L db g k) (decode L) else None)"
    by (auto split: option.split)
qed

lemma restore_total:
  assumes "reorders ord" "bolt_laws L" "bolt_wf L db"
    and "\<And>g k bs. g \<in> default_gvrs \<Longrightarrow> loaded L db g k = Some bs \<Longrightarrow> decode L bs \<noteq> None"
  shows "\<exists>s. restore L ord t0 uids draws db = Inr s"
proof -
  obtain snap n where l: "Load L db = Inr (snap, n)" by (auto intro: Load_ok [OF assms(2,3)])
  note r = reorders_loaded [OF assms(1-3) l]
  let ?f = "fresh_store n t0 uids draws db :: ('a, 'b) store"
  have "decode L bs \<noteq> None"
    if a: "(g, objs) \<in> set (ord snap)" "resources ?f g \<noteq> None" "(k, bs) \<in> set objs" for g objs k bs
  proof -
    have "map_of (ord snap) g = Some objs" "map_of objs k = Some bs" using a r(1,2) by auto
    then have "loaded L db g k = Some bs" using r(3) [of g] by auto
    moreover have "g \<in> default_gvrs" using a(2) by (simp add: fresh_store_registered del: not_None_eq)
    ultimately show ?thesis using assms(4) [of g k bs] by simp
  qed
  then have "all_decode L ?f (ord snap)" unfolding all_decode_def by fastforce
  then have "snd (LoadFrom L (ord snap) ?f) = None" using LoadFrom_spec [OF r(1,2), of L ?f] by simp
  then show ?thesis
    by (auto simp: restore_def l Let_def fresh_store_def split: prod.splits option.splits)
qed

subsection \<open>The database mirrors the objects\<close>

text \<open>An event whose write the persister can take and whose object survives the JSON round trip.\<close>

definition storable :: "('j, 'db) storelib \<Rightarrow> ('j, 'db) store \<Rightarrow> 'j Event \<Rightarrow> bool" where
  "storable L s ev \<longleftrightarrow> length (event_key s ev) \<le> MaxKeySize \<and>
     (evType ev = Deleted \<or> (\<exists>bs. MarshalJSON L (evObject ev) = Inr bs \<and> length bs \<le> MaxValueSize \<and>
        UnmarshalJSON L bs = Inr (evObject ev)))"

definition decoded :: "('j, 'db) storelib \<Rightarrow> (GVR \<times> string \<rightharpoonup> bytes) \<Rightarrow> (GVR \<times> string \<rightharpoonup> 'j obj)" where
  "decoded L c = (\<lambda>x. Option.bind (c x) (decode L))"

definition decodable :: "('j, 'db) storelib \<Rightarrow> GVR set \<Rightarrow> (GVR \<times> string \<rightharpoonup> bytes) \<Rightarrow> bool" where
  "decodable L D c \<longleftrightarrow> (\<forall>g k bs. g \<in> D \<longrightarrow> c (g, k) = Some bs \<longrightarrow> decode L bs \<noteq> None)"

lemma decodable_put: "decodable L D c \<Longrightarrow> decode L bs \<noteq> None \<Longrightarrow> decodable L D (c(x \<mapsto> bs))"
  by (auto simp: decodable_def split: if_splits)

lemma decodable_remove: "decodable L D c \<Longrightarrow> decodable L D (c(x := None))"
  by (auto simp: decodable_def split: if_splits)

lemma storable_write:
  assumes "storable L s ev"
  shows "\<exists>w. event_writes L s ev = [w] \<and> write_version w = evRV ev \<and> (valid_gvr (evGVR ev) \<longrightarrow> bolt_accepts w) \<and>
    (\<forall>c. decoded L (write_map w c) = apply_event s ev (decoded L c)) \<and>
    (\<forall>c D. decodable L D c \<longrightarrow> decodable L D (write_map w c))"
proof (cases "evType ev = Deleted")
  case True
  let ?w = "Remove (evGVR ev) (event_key s ev) (evRV ev)"
  have "event_writes L s ev = [?w]" using True by (simp add: event_writes_def)
  moreover have "decoded L (write_map ?w c) = apply_event s ev (decoded L c)" for c
    using True by (auto simp: decoded_def apply_event_def fun_eq_iff)
  ultimately show ?thesis by (simp add: decodable_remove)
next
  case False
  with assms obtain bs where bs: "MarshalJSON L (evObject ev) = Inr bs" "length bs \<le> MaxValueSize"
    "UnmarshalJSON L bs = Inr (evObject ev)" "length (event_key s ev) \<le> MaxKeySize" by (auto simp: storable_def)
  let ?w = "Save (evGVR ev) (event_key s ev) bs (evRV ev)"
  have dec: "decode L bs = Some (evObject ev)" using bs(3) by (simp add: decode_def)
  have "event_writes L s ev = [?w]" using False bs(1) by (simp add: event_writes_def)
  moreover have "decoded L (write_map ?w c) = apply_event s ev (decoded L c)" for c
    using False dec by (auto simp: decoded_def apply_event_def fun_eq_iff)
  moreover have "event_key s ev \<noteq> ''''" by (simp add: event_key_def)
  ultimately show ?thesis using bs(2,4) dec by (simp add: decodable_put)
qed

lemma storable_log:
  assumes "\<forall>ev \<in> set log. storable L s ev \<and> valid_gvr (evGVR ev)"
  shows "\<forall>w \<in> set (concat (map (event_writes L s) log)). bolt_accepts w"
    and "decoded L (fold write_map (concat (map (event_writes L s) log)) c) = fold (apply_event s) log (decoded L c)"
    and "decodable L D c \<Longrightarrow> decodable L D (fold write_map (concat (map (event_writes L s) log)) c)"
    and "map write_version (concat (map (event_writes L s) log)) = map evRV log"
proof -
  have "(\<forall>w \<in> set (concat (map (event_writes L s) log)). bolt_accepts w) \<and>
    decoded L (fold write_map (concat (map (event_writes L s) log)) c) = fold (apply_event s) log (decoded L c) \<and>
    (decodable L D c \<longrightarrow> decodable L D (fold write_map (concat (map (event_writes L s) log)) c)) \<and>
    map write_version (concat (map (event_writes L s) log)) = map evRV log"
    using assms
  proof (induction log arbitrary: c)
    case (Cons ev log)
    from Cons.prems have "storable L s ev" by simp
    from storable_write [OF this] obtain w where w: "event_writes L s ev = [w]" "write_version w = evRV ev"
      "valid_gvr (evGVR ev) \<longrightarrow> bolt_accepts w" "\<forall>c. decoded L (write_map w c) = apply_event s ev (decoded L c)"
      "\<forall>c D. decodable L D c \<longrightarrow> decodable L D (write_map w c)" by blast
    then show ?case using Cons.IH [of "write_map w c"] Cons.prems by simp
  qed simp
  then show "\<forall>w \<in> set (concat (map (event_writes L s) log)). bolt_accepts w"
    and "decoded L (fold write_map (concat (map (event_writes L s) log)) c) = fold (apply_event s) log (decoded L c)"
    and "decodable L D c \<Longrightarrow> decodable L D (fold write_map (concat (map (event_writes L s) log)) c)"
    and "map write_version (concat (map (event_writes L s) log)) = map evRV log"
    by blast+
qed

lemma fold_apply_event_cong:
  "m x = m' x \<Longrightarrow> fold (apply_event s) log m x = fold (apply_event s) log m' x"
proof (induction log arbitrary: m m')
  case (Cons ev log)
  have "apply_event s ev m x = apply_event s ev m' x" using Cons.prems by (simp add: apply_event_def)
  then have "fold (apply_event s) log (apply_event s ev m) x = fold (apply_event s) log (apply_event s ev m') x"
    by (rule Cons.IH)
  then show ?case by simp
qed simp

lemma restored_wf:
  assumes "store_wf t" "view s = view t" "rv s = rv t" "resources s = resources t" "only_data (fresh_store n t0 uids draws db) s"
    "\<forall>g. distinct (map fst (data s g))"
  shows "store_wf s"
  using assms only_data_frame [OF assms(5)]
  by (simp add: store_wf_def keys_ok_def versions_ok_def history_ok_def subs_ok_def chanCap_def)

lemma run_rv:
  assumes "run (store_step L) s log t" "store_wf s" "unat (rv s) + length log \<le> 2 ^ 64 - 1"
  shows "rv t = (if log = [] then rv s else evRV (last log))"
proof -
  have t: "unat (rv t) = unat (rv s) + length log" using st.run_keeps [OF assms] by simp
  show ?thesis
  proof (cases "log = []")
    case True
    with t show ?thesis by (simp add: word_unat_eq_iff)
  next
    case False
    then have "unat (evRV (last log)) = unat (rv s) + length log"
      using run_log_versions [OF assms] by (simp add: last_conv_nth)
    with t False show ?thesis by (simp add: word_unat_eq_iff)
  qed
qed

section \<open>Restart\<close>

text \<open>After a run, the database holds exactly the objects of the store, encoded, and its version.\<close>

lemma run_database:
  assumes laws: "bolt_laws L" "bolt_wf L db0" "reorders ord"
    and boot: "restore L ord t0 uids draws db0 = Inr s" "store_wf s"
    and run: "run (store_step L) s log t" "unat (rv s) + length log \<le> 2 ^ 64 - 1"
    and store: "\<forall>ev \<in> set log. storable L t ev" "resources t = resources s"
  shows "\<exists>db. persist t = Some db \<and> bolt_wf L db \<and> loadedRV L db = rv t \<and>
    (\<forall>g \<in> default_gvrs. \<forall>k. Option.bind (loaded L db g k) (decode L) = lookup t g k) \<and>
    (\<forall>g \<in> default_gvrs. \<forall>k bs. loaded L db g k = Some bs \<longrightarrow> decode L bs \<noteq> None)"
proof -
  note r = restore_ok [OF laws(3,1,2) boot(1)]
  note fr = only_data_frame [OF r(2), simplified]
  have reg: "g \<in> default_gvrs" if "resources t g \<noteq> None" for g
    using that unfolding store(2) fr(1) by (simp add: fresh_store_registered del: not_None_eq)
  have ok: "\<forall>ev \<in> set log. storable L t ev \<and> valid_gvr (evGVR ev)"
    using store(1) run_view [OF run(1) boot(2) run(2)] reg default_gvrs_valid by blast
  let ?ws = "concat (map (event_writes L t) log)"
  obtain db where db: "fold bolt_perform ?ws (L, db0) = (L, db)" by (metis fst_fold_bolt_perform prod.collapse)
  let ?old = "bolt_content (L, db0)" and ?new = "fold write_map ?ws (bolt_content (L, db0))"
  have inv0: "bolt_invar (L, db0)" using laws by (simp add: bolt_invar_def)
  note rp = bolt.replay [OF inv0 storable_log(1) [OF ok], unfolded db]
  have loaded: "loaded L db g k = ?new (g, k)" if "g \<in> default_gvrs" for g k
    using rp(2) [of g k] default_gvrs_valid [OF that] by (simp add: bolt_content_def)
  have "decodable L default_gvrs ?old" using r(4) by (auto simp: decodable_def bolt_content_def)
  from storable_log(3) [OF ok this] have dec: "\<forall>g \<in> default_gvrs. \<forall>k bs. loaded L db g k = Some bs \<longrightarrow> decode L bs \<noteq> None"
    using loaded unfolding decodable_def by metis
  have "Option.bind (loaded L db g k) (decode L) = lookup t g k" if "g \<in> default_gvrs" for g k
  proof -
    have "view s (g, k) = decoded L ?old (g, k)"
      using r(1) [of g k] that by (simp add: view_apply decoded_def bolt_content_def)
    then have "view t (g, k) = decoded L ?new (g, k)"
      using run_view [OF run(1) boot(2) run(2)] storable_log(2) [OF ok, of ?old] fold_apply_event_cong by metis
    then show ?thesis using loaded [OF that] by (simp add: view_apply decoded_def)
  qed
  moreover have "?ws = [] \<longleftrightarrow> log = []" using storable_log(4) [OF ok] by (metis Nil_is_map_conv)
  moreover have "write_version (last ?ws) = evRV (last log)" if "log \<noteq> []"
    using storable_log(4) [OF ok] that by (metis Nil_is_map_conv last_map)
  ultimately show ?thesis
    using rp(1,3) run_rv [OF run(1) boot(2) run(2)] run_persist [OF run(1) boot(2) run(2) fr(8)] db dec fr(2)
    by (auto simp: bolt_version_def bolt_invar_def)
qed

lemma restart_lemma:
  assumes laws: "bolt_laws L" "bolt_wf L db0" "reorders ord" "reorders ord'"
    and boot: "restore L ord t0 uids draws db0 = Inr s" "store_wf s"
    and run: "run (store_step L) s log t" "unat (rv s) + length log \<le> 2 ^ 64 - 1"
    and store: "\<forall>ev \<in> set log. storable L t ev" "resources t = resources s"
  shows "\<exists>db s'. persist t = Some db \<and> restore L ord' t1 uids' draws' db = Inr s' \<and>
    view s' = view t \<and> rv s' = rv t \<and> resources s' = resources t \<and> store_wf s'"
proof -
  from run_database [OF laws(1-3) boot run store] obtain db
    where db: "persist t = Some db" "bolt_wf L db" "loadedRV L db = rv t"
      "\<And>g k. g \<in> default_gvrs \<Longrightarrow> Option.bind (loaded L db g k) (decode L) = lookup t g k"
      "\<And>g k bs. g \<in> default_gvrs \<Longrightarrow> loaded L db g k = Some bs \<Longrightarrow> decode L bs \<noteq> None" by blast
  note fr = only_data_frame [OF restore_ok(2) [OF laws(3,1,2) boot(1)], simplified]
  have wft: "store_wf t" using st.run_keeps [OF run(1) boot(2) run(2)] by simp
  obtain s' where s': "restore L ord' t1 uids' draws' db = Inr s'"
    using restore_total [OF laws(4,1) db(2)] db(5) by blast
  note r = restore_ok [OF laws(4,1) db(2) s']
  note fr' = only_data_frame [OF r(2), simplified]
  have "lookup s' g k = lookup t g k" for g k
  proof (cases "g \<in> default_gvrs")
    case True
    then show ?thesis using r(1) [of g k] db(4) by simp
  next
    case False
    then have "resources t g = None"
      unfolding store(2) fr(1) by (metis fresh_store_registered)
    with wft have "view t (g, k) = None" by (simp add: store_wf_def keys_ok_def)
    with False show ?thesis using r(1) [of g k] by (simp add: view_apply)
  qed
  then have v: "view s' = view t" by (simp add: view_def fun_eq_iff)
  have rv: "rv s' = rv t" using fr'(2) db(3) by simp
  have res: "resources s' = resources t" unfolding store(2) fr(1) fr'(1) by (rule fresh_store_resources)
  show ?thesis using db(1) s' v rv res restored_wf [OF wft v rv res r(2,3)] by blast
qed

end

