(* ===== verification/WatchRun.thy ===== *)
theory WatchRun
  imports StoreRun "HOL-Library.Sublist"
begin

text \<open>
  One watch among all the other activity on the store: its delivery goroutine interleaved with any
  operations of other clients and other goroutines. What the consumer has received is compared
  with the log of the run.
\<close>

section \<open>Steps\<close>

type_synonym ('j, 'db) watched = "('j, 'db) store \<times> 'j pump"

inductive watch_step :: "('j, 'db) storelib \<Rightarrow> ('j, 'db) watched \<Rightarrow> 'j Event list \<Rightarrow> ('j, 'db) watched \<Rightarrow> bool" for L where
  client: "store_op L s es s' \<Longrightarrow> watch_step L (s, p) es (s', p)"
| other: "chan_op i s s' \<Longrightarrow> i \<noteq> pSub p \<Longrightarrow> watch_step L (s, p) [] (s', p)"
| boot: "\<not> finished p \<Longrightarrow> watch_step L (s, p) [] (s, pump_boot p)"
| live: "\<not> finished p \<Longrightarrow> pBoot p = [] \<Longrightarrow> watch_step L (s, p) [] (pump_live s p)"
| cancel: "\<not> finished p \<Longrightarrow> watch_step L (s, p) [] (pump_cancel s p)"

lemma watch_step_store:
  assumes "watch_step L (s, p) es (s', p')"
  shows "store_step L s es s'"
  using assms
proof (cases rule: watch_step.cases)
  case client
  then show ?thesis by (blast intro: store_step.op)
next
  case (other i)
  then show ?thesis by (auto intro: store_step.chan)
next
  case boot
  have "store_op L s [] (s\<lparr>now := now s\<rparr>)" by (rule store_op.tick)
  with boot show ?thesis by (auto intro: store_step.op)
next
  case live
  then show ?thesis using chan_op.receive [of s p s' p'] by (auto intro: store_step.chan)
next
  case cancel
  then show ?thesis by (auto simp: pump_cancel_def intro: store_step.chan chan_op.unsubscribe)
qed

interpretation wt: logged_system "watch_step L" "\<lambda>x. unat (rv (fst x))" "2 ^ 64 - 1" "\<lambda>x. store_wf (fst x)"
  for L :: "('j, 'db) storelib"
proof unfold_locales
  show "unat (rv (fst t)) = unat (rv (fst s)) + length es" "store_wf (fst t)"
    if "store_wf (fst s)" "watch_step L s es t" "unat (rv (fst s)) + length es \<le> 2 ^ 64 - 1" for s t :: "('j, 'db) watched" and es
    using that store_step_wf [of "fst s" L es "fst t"] watch_step_store [of L "fst s" "snd s" es "fst t" "snd t"]
    by simp_all
qed

lemma watch_run_store: "run (watch_step L) x log y \<Longrightarrow> run (store_step L) (fst x) log (fst y)"
proof (induction rule: run.induct)
  case (run_step x log y es z)
  then show ?case
    using watch_step_store [of L "fst y" "snd y" es "fst z" "snd z"] by (auto intro: run.run_step)
qed (rule run.run_refl)

section \<open>What the other steps do to the channel\<close>

definition same_chan :: "nat \<Rightarrow> ('j, 'db) store \<Rightarrow> ('j, 'db) store \<Rightarrow> bool" where
  "same_chan i s s' \<longleftrightarrow> chans s' i = chans s i \<and> subs s' i = subs s i"

lemma silent_op_same_chan: "store_op L s es s' \<Longrightarrow> es = [] \<Longrightarrow> i < nextSub s \<Longrightarrow> same_chan i s s'"
proof (induction rule: store_op.induct)
  case (watch ord g opts s s' r)
  then show ?case
    by (auto simp: same_chan_def Watch_def Let_def split: sum.splits)
qed (auto simp: same_chan_def Register_def SetDeleteHook_def dest!: Create_errE Update_err Patch_err Delete_err)

lemma chan_op_same_chan: "chan_op j s s' \<Longrightarrow> i \<noteq> j \<Longrightarrow> same_chan i s s'"
  by (induction rule: chan_op.induct)
     (auto simp: same_chan_def pump_live_def removeSub_def Let_def split: list.splits if_splits)

text \<open>Either the channel is as it was and nothing was emitted, or one event was, and the channel
  took it, was closed on it, or was not subscribed to it.\<close>

lemma store_op_chan:
  assumes "store_op L s es s'" "keys_ok s" "i < nextSub s"
  shows "(es = [] \<and> same_chan i s s' \<and> rv s' = rv s) \<or>
    (\<exists>ev. es = [ev] \<and> evRV ev = rv s + 1 \<and> rv s' = rv s + 1 \<and>
       (if subs s i \<noteq> Some (evGVR ev) then same_chan i s s'
        else if chan_full (chans s i) then subs s' i = None \<and> buf (chans s' i) = buf (chans s i)
        else subs s' i = subs s i \<and> buf (chans s' i) = buf (chans s i) @ [ev]))"
proof -
  from store_op_cases [OF assms(1,2)] show ?thesis
  proof (elim disjE exE conjE)
    assume "es = []" "silent s s'"
    then show ?thesis using silent_op_same_chan [OF assms(1) _ assms(3)] by (simp add: silent_def)
  next
    fix ev assume "es = [ev]" "commits s ev s'"
    then show ?thesis by (auto simp: commits_def same_chan_def emitLocked_def Let_def)
  qed
qed

lemma store_op_nextSub: "store_op L s es s' \<Longrightarrow> keys_ok s \<Longrightarrow> nextSub s \<le> nextSub s'"
  by (drule (1) store_op_cases) (auto simp: silent_def commits_def)

section \<open>The delivery invariant\<close>

text \<open>What is still to be delivered, and the relation of everything to the log.\<close>

definition pending :: "('j, 'db) store \<Rightarrow> 'j pump \<Rightarrow> 'j Event list" where
  "pending t p = pBoot p @ buf (chans t (pSub p))"

definition wanted :: "'j pump \<Rightarrow> 'j Event list \<Rightarrow> 'j Event list" where
  "wanted p0 log = filter (pump_match p0) (pBoot p0 @ filter (\<lambda>ev. evGVR ev = pGVR p0) log)"

definition subscribed :: "('j, 'db) store \<Rightarrow> 'j pump \<Rightarrow> bool" where
  "subscribed t p \<longleftrightarrow> subs t (pSub p) \<noteq> None"

definition same_watch :: "'j pump \<Rightarrow> 'j pump \<Rightarrow> bool" where
  "same_watch p q \<longleftrightarrow> pSub q = pSub p \<and> pGVR q = pGVR p \<and> pMeta q = pMeta p \<and> pOpts q = pOpts p \<and>
     pCurrentRV q = pCurrentRV p"

definition delivery_ok :: "'j pump \<Rightarrow> 'j Event list \<Rightarrow> ('j, 'db) store \<Rightarrow> 'j pump \<Rightarrow> bool" where
  "delivery_ok p0 log t p \<longleftrightarrow> same_watch p0 p \<and> pSub p < nextSub t \<and> pCurrentRV p \<le> rv t \<and>
     (\<forall>ev \<in> set (buf (chans t (pSub p))). pCurrentRV p < evRV ev) \<and>
     subs t (pSub p) \<in> {None, Some (pGVR p)} \<and>
     prefix (delivered p @ filter (pump_match p0) (pending t p)) (wanted p0 log) \<and>
     (subscribed t p \<longrightarrow> delivered p @ filter (pump_match p0) (pending t p) = wanted p0 log)"

lemma same_watch_match: "same_watch p q \<Longrightarrow> pump_match q = pump_match p"
  by (simp add: same_watch_def pump_match_def fun_eq_iff)

lemma wanted_append: "wanted p0 (log @ es) = wanted p0 log @ filter (pump_match p0) (filter (\<lambda>ev. evGVR ev = pGVR p0) es)"
  by (simp add: wanted_def)

lemma wanted_Nil_prefix: "prefix xs (wanted p0 log) \<Longrightarrow> prefix xs (wanted p0 (log @ es))"
  by (simp add: wanted_append)

lemma delivery_same_chan:
  assumes "delivery_ok p0 log s p" "same_chan (pSub p) s s'" "nextSub s \<le> nextSub s'" "pCurrentRV p \<le> rv s'"
    and "filter (\<lambda>ev. evGVR ev = pGVR p0) es = [] \<or> \<not> subscribed s p"
  shows "delivery_ok p0 (log @ es) s' p"
proof -
  have eq: "subscribed s' p = subscribed s p" "pending s' p = pending s p"
    "chans s' (pSub p) = chans s (pSub p)" "subs s' (pSub p) = subs s (pSub p)"
    using assms(2) by (simp_all add: same_chan_def subscribed_def pending_def)
  have "subscribed s p \<Longrightarrow> wanted p0 (log @ es) = wanted p0 log"
    using assms(5) by (auto simp: wanted_append)
  then show ?thesis
    using assms(1,3,4) wanted_Nil_prefix unfolding delivery_ok_def eq by auto
qed

lemma delivery_boot:
  assumes "delivery_ok p0 log s p"
  shows "delivery_ok p0 log s (pump_boot p)"
proof (cases "pBoot p")
  case Nil
  with assms show ?thesis by (simp add: pump_boot_def)
next
  case (Cons ev rest)
  have "pump_match p = pump_match p0" using assms by (intro same_watch_match) (simp add: delivery_ok_def)
  with Cons assms show ?thesis
    by (auto simp: pump_boot_def delivery_ok_def pending_def subscribed_def same_watch_def)
qed

lemma delivery_live:
  assumes "delivery_ok p0 log s p" "pBoot p = []" "pump_live s p = (s', p')"
  shows "delivery_ok p0 log s' p'"
proof -
  have m: "pump_match p = pump_match p0" using assms by (intro same_watch_match) (simp add: delivery_ok_def)
  show ?thesis
  proof (cases "buf (chans s (pSub p))")
    case Nil
    with assms show ?thesis
      by (auto simp: pump_live_def Let_def removeSub_def delivery_ok_def pending_def subscribed_def same_watch_def
          split: if_splits)
  next
    case (Cons ev rest)
    then have "\<not> evRV ev \<le> pCurrentRV p" using assms(1) by (auto simp: delivery_ok_def)
    with Cons assms m show ?thesis
      by (auto simp: pump_live_def Let_def delivery_ok_def pending_def subscribed_def same_watch_def
          split: if_splits)
  qed
qed

lemma delivery_cancel: "delivery_ok p0 log s p \<Longrightarrow> pump_cancel s p = (s', p') \<Longrightarrow> delivery_ok p0 log s' p'"
  by (auto simp: pump_cancel_def removeSub_def delivery_ok_def pending_def subscribed_def same_watch_def)

lemma delivery_client:
  assumes "delivery_ok p0 log s p" "store_op L s es s'" "keys_ok s" "length es > 0 \<Longrightarrow> rv s \<noteq> - 1"
  shows "delivery_ok p0 (log @ es) s' p"
proof -
  have i: "pSub p < nextSub s" and le: "pCurrentRV p \<le> rv s" using assms(1) by (simp_all add: delivery_ok_def)
  have nx: "nextSub s \<le> nextSub s'" using assms(2,3) by (rule store_op_nextSub)
  from store_op_chan [OF assms(2,3) i] show ?thesis
  proof (elim disjE exE conjE)
    assume "es = []" "same_chan (pSub p) s s'" "rv s' = rv s"
    then show ?thesis using delivery_same_chan [OF assms(1) _ nx, of "[]"] le by simp
  next
    fix ev
    assume es: "es = [ev]" and r: "evRV ev = rv s + 1" "rv s' = rv s + 1"
      and ch: "if subs s (pSub p) \<noteq> Some (evGVR ev) then same_chan (pSub p) s s'
        else if chan_full (chans s (pSub p)) then subs s' (pSub p) = None \<and> buf (chans s' (pSub p)) = buf (chans s (pSub p))
        else subs s' (pSub p) = subs s (pSub p) \<and> buf (chans s' (pSub p)) = buf (chans s (pSub p)) @ [ev]"
    have lt: "pCurrentRV p < rv s + 1" using le next_version_fresh assms(4) es by auto
    have g: "pGVR p = pGVR p0" using assms(1) by (simp add: delivery_ok_def same_watch_def)
    show ?thesis
    proof (cases "subs s (pSub p) = Some (evGVR ev)")
      case False
      then have "evGVR ev \<noteq> pGVR p0 \<or> \<not> subscribed s p"
        using assms(1) g by (auto simp: delivery_ok_def subscribed_def)
      with False ch show ?thesis
        using delivery_same_chan [OF assms(1) _ nx, of es] lt r es by (auto intro: less_imp_le)
    next
      case True
      then have "evGVR ev = pGVR p0" using assms(1) g by (auto simp: delivery_ok_def)
      with True ch r es lt nx assms(1) show ?thesis
        by (auto simp: delivery_ok_def pending_def subscribed_def wanted_append split: if_splits intro: less_imp_le)
    qed
  qed
qed

lemma delivery_step:
  assumes "watch_step L (s, p) es (s', p')" "delivery_ok p0 log s p" "keys_ok s" "length es > 0 \<Longrightarrow> rv s \<noteq> - 1"
  shows "delivery_ok p0 (log @ es) s' p'"
  using assms(1)
proof (cases rule: watch_step.cases)
  case client
  then show ?thesis using delivery_client [OF assms(2) _ assms(3,4)] by simp
next
  case (other i)
  have "silent s s'" using other chan_op_silent by blast
  moreover have "same_chan (pSub p) s s'" using other chan_op_same_chan [of i s s' "pSub p"] by simp
  ultimately show ?thesis
    using other assms(2) delivery_same_chan [of p0 log s p s' "[]"]
    by (auto simp: silent_def delivery_ok_def)
next
  case boot
  then show ?thesis using delivery_boot [OF assms(2)] by simp
next
  case live
  then show ?thesis using delivery_live [OF assms(2)] by simp
next
  case cancel
  then show ?thesis using delivery_cancel [OF assms(2)] by simp
qed

lemma Watch_delivery_start:
  assumes "Watch ord g opts s0 = (s1, Inr p0)"
  shows "delivery_ok p0 [] s1 p0" "store_op L s0 [] s1" "pGVR p0 = g"
  using assms store_op.watch [OF assms, of L]
  by (auto simp: Watch_def Let_def delivery_ok_def same_watch_def pending_def wanted_def subscribed_def split: sum.splits)

lemma watch_run_delivery:
  assumes "Watch ord g opts s0 = (s1, Inr p0)" "store_wf s0"
    and "run (watch_step L) (s1, p0) log (t, p)" "unat (rv s0) + length log \<le> 2 ^ 64 - 1"
  shows "delivery_ok p0 log t p"
proof -
  have wf: "store_wf s1" "rv s1 = rv s0"
    using store_step_wf [OF assms(2) store_step.op [OF Watch_delivery_start(2) [OF assms(1)]]]
      Watch_silent [OF assms(1)] assms(4) by (simp_all add: silent_def)
  have "delivery_ok p0 log (fst (t, p)) (snd (t, p))"
    using assms(3)
  proof (rule wt.run_induct_bounded)
    show "store_wf (fst (s1, p0))" "unat (rv (fst (s1, p0))) + length log \<le> 2 ^ 64 - 1"
      "delivery_ok p0 [] (fst (s1, p0)) (snd (s1, p0))"
      using wf assms(4) Watch_delivery_start(1) [OF assms(1)] by simp_all
  next
    fix log x es y
    assume st: "store_wf (fst x)" "watch_step L x es y" "unat (rv (fst x)) + length es \<le> 2 ^ 64 - 1"
      and IH: "delivery_ok p0 log (fst x) (snd x)"
    have "rv (fst x) \<noteq> - 1" if "length es > 0"
      using st(3) that by (intro unat_bound_not_max [of _ 0]) (cases es, auto)
    then show "delivery_ok p0 (log @ es) (fst y) (snd y)"
      using delivery_step [of L "fst x" "snd x" es "fst y" "snd y"] st IH by simp
  qed
  then show ?thesis by simp
qed

section \<open>From a list to a watch\<close>

lemma trim_append_short:
  assumes "xs \<noteq> []" "length ys < n" "length xs \<le> n"
  shows "\<exists>zs. zs \<noteq> [] \<and> set zs \<subseteq> set xs \<and> trim n (xs @ ys) = zs @ ys"
proof -
  let ?zs = "drop (length xs + length ys - n) xs"
  have "?zs \<noteq> []" using assms by (cases xs) auto
  moreover have "trim n (xs @ ys) = ?zs @ ys" using assms by (simp add: trim_def)
  ultimately show ?thesis using set_drop_subset [of _ xs] by blast
qed

text \<open>As long as the history still holds an event that was there when the list was taken, a watch
  from the list's version starts with exactly the events the list does not reflect.\<close>

lemma bootstrap_is_log:
  assumes "run (store_step L) s0 log s1" "store_wf s0" "unat (rv s0) + length log \<le> 2 ^ 64 - 1"
    and "history s0 \<noteq> []" "length log < histCap s0" "rv s0 > 0"
    and "woHasStartRV opts" "woStartRV opts = rv s0"
  shows "bootstrapEvents ord g rm opts s1 = filter (\<lambda>ev. evGVR ev = g) log"
proof -
  have ok: "length (history s0) \<le> histCap s0" "\<forall>ev \<in> set (history s0). evRV ev \<le> rv s0"
    using assms(2) by (simp_all add: store_wf_def history_ok_def)
  obtain zs where zs: "zs \<noteq> []" "set zs \<subseteq> set (history s0)" "history s1 = zs @ log"
    using trim_append_short [OF assms(4,5) ok(1)] run_history [OF assms(1-3)] by auto
  then obtain z zs' where z: "zs = z # zs'" by (cases zs) auto
  have old: "evRV ev \<le> rv s0" if "ev \<in> set zs" for ev using zs(2) ok(2) that by blast
  have new: "evRV ev > rv s0" if ev: "ev \<in> set log" for ev
  proof -
    obtain i where "i < length log" "log ! i = ev" using ev by (auto simp: in_set_conv_nth)
    then show ?thesis using run_log_versions [OF assms(1-3)] by (auto simp: word_less_nat_alt)
  qed
  have "replayFromHistory opts s1"
    using old [of z] assms(6-8) by (simp add: replayFromHistory_def oldestHistoryRV_def zs(3) z)
  moreover have "filter (\<lambda>ev. evRV ev > rv s0 \<and> evGVR ev = g) zs = []"
    using old by (auto simp: filter_empty_conv not_less)
  moreover have "filter (\<lambda>ev. evRV ev > rv s0 \<and> evGVR ev = g) log = filter (\<lambda>ev. evGVR ev = g) log"
    using new by (auto intro: filter_cong)
  ultimately show ?thesis by (simp add: bootstrapEvents_def replayEvents_def zs(3) assms(8))
qed

text \<open>The cache of a client of one resource: filled from a list, updated by the events of a watch.\<close>

definition cache_key :: "resourceMeta \<Rightarrow> 'j obj \<Rightarrow> string" where
  "cache_key rm ob = key (rmNamespaced rm) (namespace ob) (name ob)"

definition cache_list :: "resourceMeta \<Rightarrow> 'j obj list \<Rightarrow> (string \<rightharpoonup> 'j obj)" where
  "cache_list rm obs = map_of (map (\<lambda>ob. (cache_key rm ob, ob)) obs)"

definition cache_event :: "resourceMeta \<Rightarrow> 'j Event \<Rightarrow> (string \<rightharpoonup> 'j obj) \<Rightarrow> (string \<rightharpoonup> 'j obj)" where
  "cache_event rm ev m = (if evType ev = Deleted then m(cache_key rm (evObject ev) := None)
     else m(cache_key rm (evObject ev) \<mapsto> evObject ev))"

lemma store_wf_cache_key:
  assumes "store_wf s" "resources s g = Some rm" "(k, ob) \<in> set (data s g)"
  shows "cache_key rm ob = k"
proof -
  have "distinct (map fst (data s g))" using assms(1) by (simp add: store_wf_def keys_ok_def)
  then have "view s (g, k) = Some ob" using assms(3) by (simp add: view_apply lookup_def)
  then show ?thesis using assms(1,2) by (auto simp: store_wf_def keys_ok_def cache_key_def)
qed

lemma cache_of_list:
  assumes "store_wf s" "resources s g = Some rm" "permutes ord" "StoreList ord g '''' no_selectors s = Inr r"
  shows "cache_list rm (lrItems r) = lookup s g" "lrRV r = rv s"
proof -
  have ms: "mset (ord (data s g)) = mset (data s g)" using assms(3) by (simp add: permutes_def)
  have items: "lrItems r = map snd (ord (data s g))" and "lrRV r = rv s"
    using assms(2,4) by (auto simp: StoreList_def in_namespace_def meta_def)
  have "map (\<lambda>ob. (cache_key rm ob, ob)) (lrItems r) = map (\<lambda>kv. (cache_key rm (snd kv), snd kv)) (ord (data s g))"
    by (simp add: items)
  also have "\<dots> = ord (data s g)"
    using store_wf_cache_key [OF assms(1,2)] ms by (intro map_idI) (metis mset_eq_setD prod.collapse)
  finally show "cache_list rm (lrItems r) = lookup s g"
    using map_of_mset [OF ms [symmetric]] assms(1)
    by (auto simp: cache_list_def lookup_def store_wf_def keys_ok_def fun_eq_iff)
  show "lrRV r = rv s" by fact
qed

lemma cache_of_log:
  assumes "resources t g = Some rm"
  shows "fold (cache_event rm) (filter (\<lambda>ev. evGVR ev = g) log) (\<lambda>k. m (g, k)) =
    (\<lambda>k. fold (apply_event t) log m (g, k))"
proof (induction log arbitrary: m)
  case Nil
  show ?case by simp
next
  case (Cons ev log)
  have "(\<lambda>k. apply_event t ev m (g, k)) =
      (if evGVR ev = g then cache_event rm ev (\<lambda>k. m (g, k)) else (\<lambda>k. m (g, k)))"
    using assms by (auto simp: apply_event_def cache_event_def event_key_def cache_key_def fun_eq_iff)
  then show ?case using Cons [of "apply_event t ev m"] by (simp split: if_splits)
qed

end
