(* ===== verification/SampleLib.thy ===== *)
theory SampleLib
  imports Recovery WatchRun
begin

text \<open>
  One concrete instance of the libraries, small enough to compute with: a database is an
  association list of buckets, a merge patch replaces the document, two objects have an encoding.
  It shows that the laws assumed of the libraries can hold, and the witnesses evaluate on it.
\<close>

type_synonym sampledb = "(string \<times> (string \<times> bytes) list) list"

definition sample_obj :: "nat obj" where
  "sample_obj = empty_obj\<lparr>apiVersion := ''agents.x-k8s.io/v1beta1'', kind := ''Sandbox'', namespace := ''default'',
     name := ''box'', spec := Some 1\<rparr>"

definition sample_stored :: "nat obj" where
  "sample_stored = sample_obj\<lparr>uid := ''u0'', resourceVersion := ''1'', generation := 1, creationTimestamp := Some 0\<rparr>"

definition sample_patched :: "nat obj" where
  "sample_patched = sample_stored\<lparr>spec := Some 2\<rparr>"

definition sample_renamed :: "nat obj" where
  "sample_renamed = sample_stored\<lparr>name := ''other''\<rparr>"

definition sample_marshal :: "nat obj \<Rightarrow> string + bytes" where
  "sample_marshal ob = (if ob = sample_stored then Inr [0]
     else if ob = sample_patched then Inr [1]
     else if ob = sample_renamed then Inr [2] else Inl ''unsupported'')"

definition sample_unmarshal :: "bytes \<Rightarrow> string + nat obj" where
  "sample_unmarshal bs = (if bs = [0] then Inr sample_stored else if bs = [1] then Inr sample_patched
     else if bs = [2] then Inr sample_renamed else Inl ''unexpected end of JSON input'')"

definition sample_entries :: "string \<Rightarrow> sampledb \<Rightarrow> (string \<times> bytes) list" where
  "sample_entries b db = (case map_of db b of None \<Rightarrow> [] | Some es \<Rightarrow> es)"

definition sample_lib :: "(nat, sampledb) storelib" where
  "sample_lib = \<lparr>
     MarshalJSON = sample_marshal,
     UnmarshalJSON = sample_unmarshal,
     boltUpdate = (\<lambda>f db. case f db of Inl e \<Rightarrow> (Some e, db) | Inr db' \<Rightarrow> (None, db')),
     boltView = (\<lambda>db. None),
     boltCreateBucket = (\<lambda>b db. Inr (if map_of db b = None then AList.update b [] db else db)),
     boltHasBucket = (\<lambda>b db. map_of db b \<noteq> None),
     boltPut = (\<lambda>b k v db. Inr (AList.update b (AList.update k v (sample_entries b db)) db)),
     boltDelete = (\<lambda>b k db. Inr (AList.update b (AList.delete k (sample_entries b db)) db)),
     boltGet = (\<lambda>b k db. map_of (sample_entries b db) k),
     boltBuckets = (\<lambda>db. remdups (map fst db)),
     boltEntries = (\<lambda>b db. AList.clearjunk (sample_entries b db)),
     DecodePatch = (\<lambda>p. Inl ''not a patch''),
     MergePatch = (\<lambda>old body. Inr body),
     YAMLToJSON = (\<lambda>y. Inr y),
     labelsParse = (\<lambda>l. Inr \<lparr>lEmpty = False, lMatches = (\<lambda>m. m l \<noteq> None)\<rparr>),
     labelsEverything = \<lparr>lEmpty = True, lMatches = (\<lambda>m. True)\<rparr>,
     fieldsParse = (\<lambda>f. Inr \<lparr>fEmpty = False, fMatches = (\<lambda>m. m ''metadata.name'' = Some f), fRequirements = [''metadata.name'']\<rparr>),
     fieldsEverything = \<lparr>fEmpty = True, fMatches = (\<lambda>m. True), fRequirements = []\<rparr>\<rparr>"

lemma sample_lib_sel [simp]:
  "MarshalJSON sample_lib = sample_marshal" "UnmarshalJSON sample_lib = sample_unmarshal"
  "MergePatch sample_lib = (\<lambda>old body. Inr body)"
  "boltUpdate sample_lib = (\<lambda>f db. case f db of Inl e \<Rightarrow> (Some e, db) | Inr db' \<Rightarrow> (None, db'))"
  "boltView sample_lib = (\<lambda>db. None)"
  "boltCreateBucket sample_lib = (\<lambda>b db. Inr (if map_of db b = None then AList.update b [] db else db))"
  "boltHasBucket sample_lib = (\<lambda>b db. map_of db b \<noteq> None)"
  "boltPut sample_lib = (\<lambda>b k v db. Inr (AList.update b (AList.update k v (sample_entries b db)) db))"
  "boltDelete sample_lib = (\<lambda>b k db. Inr (AList.update b (AList.delete k (sample_entries b db)) db))"
  "boltGet sample_lib = (\<lambda>b k db. map_of (sample_entries b db) k)"
  "boltBuckets sample_lib = (\<lambda>db. remdups (map fst db))"
  "boltEntries sample_lib = (\<lambda>b db. AList.clearjunk (sample_entries b db))"
  by (simp_all add: sample_lib_def)

lemma sample_obj_distinct [simp]:
  "sample_stored \<noteq> sample_patched" "sample_stored \<noteq> sample_renamed" "sample_patched \<noteq> sample_renamed"
  "sample_patched \<noteq> sample_stored" "sample_renamed \<noteq> sample_stored" "sample_renamed \<noteq> sample_patched"
  by (auto simp: sample_stored_def sample_patched_def sample_renamed_def sample_obj_def empty_obj_def)

lemma sample_roundtrip: "sample_marshal ob = Inr bs \<Longrightarrow> sample_unmarshal bs = Inr ob"
  by (auto simp: sample_marshal_def sample_unmarshal_def split: if_splits)

lemma sample_tables:
  "tables sample_lib db b = map_option map_of (map_of db b)"
  by (auto simp: tables_def sample_entries_def map_of_clearjunk split: option.split)

lemma sample_bolt_wf [simp]: "bolt_wf sample_lib db"
proof -
  have "b \<in> set (map fst db) \<longleftrightarrow> map_of db b \<noteq> None" for b
    by (simp add: map_of_eq_None_iff del: not_None_eq)
  then show ?thesis
    by (simp add: bolt_wf_def map_of_clearjunk distinct_clearjunk del: not_None_eq)
qed

lemma sample_bolt_laws: "bolt_laws sample_lib"
proof -
  have create: "\<exists>db'. boltCreateBucket sample_lib b db = Inr db' \<and>
      tables sample_lib db' = (tables sample_lib db)(b \<mapsto> case tables sample_lib db b of None \<Rightarrow> Map.empty | Some m \<Rightarrow> m)" for b db
    by (auto simp: sample_tables fun_eq_iff split: option.split)
  have put: "\<exists>db'. boltPut sample_lib b k v db = Inr db' \<and> tables sample_lib db' = (tables sample_lib db)(b \<mapsto> m(k \<mapsto> v))"
    if "tables sample_lib db b = Some m" for b k v m db
    using that by (auto simp: sample_tables sample_entries_def fun_eq_iff split: option.split)
  have del: "\<exists>db'. boltDelete sample_lib b k db = Inr db' \<and> tables sample_lib db' = (tables sample_lib db)(b \<mapsto> m(k := None))"
    if "tables sample_lib db b = Some m" for b k m db
    using that by (auto simp: sample_tables sample_entries_def fun_eq_iff split: option.split)
  show ?thesis
    unfolding bolt_laws_def
    by (intro conjI allI impI) (simp, simp, use create in simp, use put in simp, use del in simp)
qed

section \<open>A store with one object\<close>

definition sample_start :: "(nat, sampledb) store" where
  "sample_start = fresh_store 0 0 (\<lambda>n. ''u'' @ Itoa (int n)) (\<lambda>n. n) []"

definition sample_store :: "(nat, sampledb) store" where
  "sample_store = fst (createNamed sample_lib SandboxGVR \<lparr>rmNamespaced = True, rmGroupRes = GVR_GroupResource SandboxGVR\<rparr> sample_obj sample_start)"

end
