(* ===== verification/StoreProps.thy ===== *)
theory StoreProps
  imports SampleLib
begin

text \<open>
  What the store promises its clients, stated over the operations and over the interleavings of
  \<open>StoreRun\<close> and \<open>WatchRun\<close>, each with a witness on the libraries of \<open>SampleLib\<close>.
\<close>

section \<open>Sample states for the witnesses\<close>

definition sample_rm :: resourceMeta where
  "sample_rm = \<lparr>rmNamespaced = True, rmGroupRes = GVR_GroupResource SandboxGVR\<rparr>"

lemma fresh_store_sandbox [simp]: "resources (fresh_store n t0 uids draws db) SandboxGVR = Some sample_rm"
proof -
  let ?r = "mk_resource SandboxGVR ''Sandbox'' ''SandboxList'' ''sandbox'' [''sandbox'', ''sb''] True True False"
  have "?r \<in> set default_resources" by (simp add: default_resources_def)
  from fresh_store_meta [OF this] show ?thesis by (simp add: mk_resource_def sample_rm_def)
qed

lemma fresh_store_wf: "store_wf (fresh_store n t0 uids draws db)"
  by (simp add: store_wf_def keys_ok_def versions_ok_def history_ok_def subs_ok_def view_def lookup_def)

definition sample_updated :: "nat obj" where
  "sample_updated = sample_patched\<lparr>resourceVersion := ''2'', generation := 2\<rparr>"

definition sample_store2 :: "(nat, sampledb) store" where
  "sample_store2 = fst (Update sample_lib SandboxGVR sample_patched False sample_store)"

definition sample_created_event :: "nat Event" where
  "sample_created_event = \<lparr>evType = Added, evObject = sample_stored, evRV = rv sample_store, evGVR = SandboxGVR\<rparr>"

definition sample_updated_event :: "nat Event" where
  "sample_updated_event = \<lparr>evType = Modified, evObject = sample_updated, evRV = rv sample_store2, evGVR = SandboxGVR\<rparr>"

lemma sample_named [simp]: "name sample_obj = ''box''" "namespace sample_obj = ''default''" "generateName sample_obj = ''''"
  by (simp_all add: sample_obj_def empty_obj_def)

lemma sample_digits [simp]: "digit_char 0 = CHR ''0''" "digit_char (Suc 0) = CHR ''1''" "digit_char 2 = CHR ''2''"
  by code_simp+

lemma sample_restore: "restore sample_lib id 0 (\<lambda>n. ''u'' @ Itoa (int n)) (\<lambda>n. n) [] = Inr sample_start"
  by (simp add: restore_def Load_def Let_def sample_start_def fresh_store_def)

lemma sample_start_fields [simp]:
  "rv sample_start = 0" "data sample_start = (\<lambda>_. [])" "history sample_start = []" "histCap sample_start = 8192"
  "resources sample_start SandboxGVR = Some sample_rm" "store_wf sample_start" "subs sample_start = Map.empty"
  by (simp_all add: sample_start_def fresh_store_wf)

lemma sample_stamp: "stampNew sample_obj sample_start = (s1, ob) \<Longrightarrow> ob = sample_stored"
  by (auto simp: stampNew_def Let_def nextRV_def sample_obj_def sample_stored_def empty_obj_def sample_start_def
      fresh_store_def registerAll_def Register_fold store_New_def FormatUint_def dec_digits.simps Itoa_def)

lemma sample_create: "Create sample_lib SandboxGVR sample_obj sample_start = Some (sample_store, Inr sample_stored)"
proof -
  obtain s1 ob where st: "stampNew sample_obj sample_start = (s1, ob)" by fastforce
  then have "createNamed sample_lib SandboxGVR sample_rm sample_obj sample_start = (sample_store, Inr ob)"
    by (simp add: createNamed_def lookup_def sample_store_def sample_rm_def)
  then show ?thesis
    using sample_stamp [OF st] by (simp add: Create_def meta_def Let_def sample_rm_def)
qed

lemma sample_create_step: "store_op sample_lib sample_start [sample_created_event] sample_store"
  unfolding sample_created_event_def by (rule store_op.create [OF sample_create])

lemma sample_create_run: "run (store_step sample_lib) sample_start [sample_created_event] sample_store"
  by (rule run_one [where step = "store_step sample_lib"], rule store_step.op, rule sample_create_step)

lemma sample_store_facts:
  "rv sample_store = 1" "resources sample_store = resources sample_start" "store_wf sample_store"
  "histCap sample_store = 8192" "history sample_store = [sample_created_event]"
  "view sample_store = [(SandboxGVR, ''default/box'') \<mapsto> sample_stored]"
proof -
  have v: "view sample_start = Map.empty" by (simp add: view_def lookup_def fun_eq_iff)
  from store_op_cases [OF sample_create_step]
  have c: "commits sample_start sample_created_event sample_store"
    "view sample_store = apply_event sample_start sample_created_event (view sample_start)" by auto
  then show "rv sample_store = 1" "resources sample_store = resources sample_start" "histCap sample_store = 8192"
    "history sample_store = [sample_created_event]"
    by (simp_all add: commits_def trim_def)
  show "store_wf sample_store"
    using st.run_keeps [OF sample_create_run] by simp
  show "view sample_store = [(SandboxGVR, ''default/box'') \<mapsto> sample_stored]"
    using c(2) v by (simp add: apply_event_def event_key_def sample_created_event_def sample_rm_def key_def
        sample_stored_def)
qed

lemma sample_lookup_iff: "lookup sample_store SandboxGVR k = (if k = ''default/box'' then Some sample_stored else None)"
  unfolding view_apply [symmetric] sample_store_facts(6) by simp

lemma sample_lookup [simp]: "lookup sample_store SandboxGVR ''default/box'' = Some sample_stored"
  by (simp add: sample_lookup_iff)

lemma store_New_rv [simp]: "rv (store_New opts t0 uids draws) = oStartRV opts"
  by (simp add: store_New_def)

lemma sample_patched_fields [simp]:
  "name sample_patched = ''box''" "namespace sample_patched = ''default''" "\<not> stale sample_patched sample_stored"
  by (simp_all add: sample_patched_def sample_stored_def stale_def)

lemma sample_store_rm [simp]: "resources sample_store SandboxGVR = Some sample_rm"
  by (simp add: sample_store_facts)

lemma sample_update: "Update sample_lib SandboxGVR sample_patched False sample_store = (sample_store2, Inr sample_updated)"
proof -
  obtain s' m where c: "commitUpdate sample_lib SandboxGVR ''default/box'' sample_stored sample_patched False sample_store = (s', m)"
    by fastforce
  have "m = sample_updated"
    using commitUpdate_facts(3) [OF c]
    by (simp add: mergeForUpdate_def Let_def sample_updated_def sample_patched_def sample_stored_def sample_obj_def
        empty_obj_def sample_store_facts FormatUint_def dec_digits.simps)
  moreover have "Update sample_lib SandboxGVR sample_patched False sample_store = (s', Inr m)"
    using c by (simp add: Update_def meta_def sample_rm_def key_def)
  ultimately show ?thesis by (simp add: sample_store2_def)
qed

lemma sample_update_step: "store_op sample_lib sample_store [sample_updated_event] sample_store2"
  unfolding sample_updated_event_def by (rule store_op.update [OF sample_update])

lemma sample_update_run: "run (store_step sample_lib) sample_store [sample_updated_event] sample_store2"
  by (rule run_one [where step = "store_step sample_lib"], rule store_step.op, rule sample_update_step)

lemma sample_store2_facts:
  "rv sample_store2 = 2" "resources sample_store2 = resources sample_start" "store_wf sample_store2"
  using store_op_cases [OF sample_update_step] sample_store_facts st.run_keeps [OF sample_update_run]
  by (auto simp: commits_def)

section \<open>The invariant and the versions\<close>



text \<open>C15: along a run the events carry the versions that follow the starting one, without gap or
  repetition, and the history the store keeps is the tail of all events, as long as its capacity
  allows.\<close>

theorem store_run_events:
  assumes "run (store_step L) s log t" "store_wf s" "unat (rv s) + length log \<le> 2 ^ 64 - 1"
  shows "(\<forall>i < length log. unat (evRV (log ! i)) = unat (rv s) + i + 1) \<and>
    history t = trim (histCap s) (history s @ log)"
  using run_log_versions [OF assms] run_history [OF assms] by simp

theorem store_run_events_witness:
  "unat (evRV sample_updated_event) = 2 \<and> history sample_store2 = [sample_created_event, sample_updated_event]"
  using store_run_events [OF sample_update_run] by (simp add: sample_store_facts trim_def)



section \<open>Watches\<close>

text \<open>C13: however the delivery goroutine of a watch is interleaved with other clients, what its
  consumer has received is a prefix of what it asked for (its bootstrap events, then the events of
  its resource type in the order they happened, each filtered by namespace and selectors), and while
  the subscription lives nothing is missing: what was received and what is still queued is all of it.\<close>

theorem watch_delivers_in_order:
  assumes "Watch ord g opts s0 = (s1, Inr p0)" "store_wf s0"
    and "run (watch_step L) (s1, p0) log (t, p)" "unat (rv s0) + length log \<le> 2 ^ 64 - 1"
  shows "prefix (delivered p) (wanted p0 log) \<and>
    (subscribed t p \<longrightarrow> delivered p @ filter (pump_match p0) (pending t p) = wanted p0 log)"
  using watch_run_delivery [OF assms] by (auto simp: delivery_ok_def dest: append_prefixD)

definition sample_watch :: WatchOptions where
  "sample_watch = \<lparr>woNamespace = '''', woSelectors = no_selectors, woStartRV = 1, woHasStartRV = True\<rparr>"

definition sample_watched :: "(nat, sampledb) store" where
  "sample_watched = fst (Watch id SandboxGVR sample_watch sample_store2)"

definition sample_pump :: "nat pump" where
  "sample_pump = projr (snd (Watch id SandboxGVR sample_watch sample_store2))"

lemma sample_history2: "history sample_store2 = [sample_created_event, sample_updated_event]"
  using run_history [OF sample_update_run] by (simp add: sample_store_facts trim_def)

lemma sample_bootstrap:
  "Watch id SandboxGVR sample_watch sample_store2 = (sample_watched, Inr sample_pump)"
  "pBoot sample_pump = [sample_updated_event]" "delivered sample_pump = []" "\<not> finished sample_pump"
  "pump_match sample_pump ev" "subscribed sample_watched sample_pump" "buf (chans sample_watched (pSub sample_pump)) = []"
  "pGVR sample_pump = SandboxGVR"
  by (simp_all add: sample_watched_def sample_pump_def Watch_def meta_def sample_store2_facts Let_def
      bootstrapEvents_def replayFromHistory_def oldestHistoryRV_def sample_history2 replayEvents_def sample_watch_def
      sample_created_event_def sample_store_facts pump_match_def in_namespace_def subscribed_def)
     (simp_all add: sample_updated_event_def sample_store2_facts)

lemma sample_boot_run:
  "run (watch_step sample_lib) (sample_watched, sample_pump) [] (sample_watched, pump_boot sample_pump)"
  by (rule run_one [where step = "watch_step sample_lib"]) (rule watch_step.boot [OF sample_bootstrap(4)])

lemma sample_boot:
  "delivered (pump_boot sample_pump) = [sample_updated_event]" "pending sample_watched (pump_boot sample_pump) = []"
  "subscribed sample_watched (pump_boot sample_pump)"
  using sample_bootstrap by (simp_all add: pump_boot_def pending_def subscribed_def)

theorem watch_delivers_in_order_witness:
  "delivered (pump_boot sample_pump) = wanted sample_pump [] \<and> wanted sample_pump [] = [sample_updated_event]"
  using watch_delivers_in_order [OF sample_bootstrap(1) sample_store2_facts(3) sample_boot_run] sample_boot
  by (simp add: sample_store2_facts)

text \<open>C14: a client that lists a resource and then watches from the version of the list holds, whenever
  its watch is drained, exactly the server's objects: no change made between the list and the
  watch or after it is lost. The store must still hold an event as old as the list, that is, fewer
  events than the history's capacity have happened since.\<close>

theorem list_then_watch_exact:
  assumes "store_wf s0" "resources s0 g = Some rm" "permutes ord" "StoreList ord g '''' no_selectors s0 = Inr r"
    and "run (store_step L) s0 log1 s1" "length log1 < histCap s0" "history s0 \<noteq> []" "rv s0 > 0"
    and "Watch ord' g \<lparr>woNamespace = '''', woSelectors = no_selectors, woStartRV = lrRV r, woHasStartRV = True\<rparr> s1 = (s2, Inr p0)"
    and "run (watch_step L) (s2, p0) log2 (t, p)" "unat (rv s0) + length log1 + length log2 \<le> 2 ^ 64 - 1"
    and "subscribed t p" "pending t p = []"
  shows "fold (cache_event rm) (delivered p) (cache_list rm (lrItems r)) = lookup t g"
proof -
  let ?only = "filter (\<lambda>ev. evGVR ev = g)"
  have b: "unat (rv s0) + length log1 \<le> 2 ^ 64 - 1" using assms(11) by simp
  have k: "store_wf s1 \<and> unat (rv s1) = unat (rv s0) + length log1" using st.run_keeps [OF assms(5,1) b] .
  have b1: "unat (rv s1) + length log2 \<le> 2 ^ 64 - 1" using k assms(11) by simp
  have sil: "silent s1 s2" using assms(9) by (rule Watch_silent)
  have wf2: "store_wf s2" "rv s2 = rv s1"
    using store_step_wf [OF _ store_step.op [OF Watch_delivery_start(2) [OF assms(9)]]] k b1 sil by (auto simp: silent_def)
  note list = cache_of_list [OF assms(1-4)]
  have r1: "resources s1 g = Some rm" using run_resources [OF assms(5,1) b assms(2)] .
  then have r2: "resources s2 g = Some rm" using sil by (simp add: silent_def)
  have run2: "run (store_step L) s2 log2 t" using watch_run_store [OF assms(10)] by simp
  have b2: "unat (rv s2) + length log2 \<le> 2 ^ 64 - 1" using b1 wf2 by simp
  have rt: "resources t g = Some rm" using run_resources [OF run2 wf2(1) b2 r2] .
  have boot: "pBoot p0 = ?only log1" and m: "pump_match p0 = (\<lambda>_. True)" and g: "pGVR p0 = g"
    using assms(9) r1 bootstrap_is_log [OF assms(5,1) b assms(7,6,8)] list(2)
    by (auto simp: Watch_def Let_def pump_match_def in_namespace_def fun_eq_iff split: sum.splits)
  have "delivered p = wanted p0 log2"
    using watch_run_delivery [OF assms(9) _ assms(10) b1] k assms(12,13) by (simp add: delivery_ok_def)
  then have d: "delivered p = ?only log1 @ ?only log2" by (simp add: wanted_def boot m g)
  have "fold (cache_event rm) (?only log1) (\<lambda>k. view s0 (g, k)) = (\<lambda>k. view s1 (g, k))"
    using cache_of_log [OF r1] run_view [OF assms(5,1) b] by simp
  moreover have "fold (cache_event rm) (?only log2) (\<lambda>k. view s2 (g, k)) = (\<lambda>k. view t (g, k))"
    using cache_of_log [OF rt] run_view [OF run2 wf2(1) b2] by simp
  ultimately show ?thesis
    unfolding d list(1) silent_view [OF sil] by (simp add: view_apply)
qed

theorem list_then_watch_exact_witness:
  "fold (cache_event sample_rm) (delivered (pump_boot sample_pump)) (cache_list sample_rm [sample_stored])
     = lookup sample_watched SandboxGVR \<and> delivered (pump_boot sample_pump) = [sample_updated_event]"
proof -
  have "data sample_store SandboxGVR = [(''default/box'', sample_stored)]"
  proof -
    obtain s1 ob where st: "stampNew sample_obj sample_start = (s1, ob)" by fastforce
    show ?thesis
      using sample_stamp [OF st] stampNew_frame(1) [OF st] st
      by (simp add: sample_store_def createNamed_def lookup_def put_and_emit_def key_def)
  qed
  then have list: "StoreList id SandboxGVR '''' no_selectors sample_store = Inr \<lparr>lrItems = [sample_stored], lrRV = 1\<rparr>"
    by (simp add: StoreList_def meta_def in_namespace_def sample_store_facts)
  show ?thesis
    using list_then_watch_exact [OF sample_store_facts(3) sample_store_rm _ list sample_update_run _ _ _ _ sample_boot_run]
      sample_bootstrap(1) sample_boot
    by (simp add: permutes_def sample_store_facts sample_watch_def)
qed

section \<open>Restart\<close>

lemma sample_storable: "storable sample_lib sample_store sample_created_event"
  by (simp add: storable_def sample_created_event_def event_key_def sample_store_facts(2) sample_rm_def key_def
      MaxKeySize_def MaxValueSize_def sample_marshal_def sample_unmarshal_def) (simp add: sample_stored_def)

text \<open>C2: whatever was done to the store before it stopped, opening the database again gives back
  the same objects under the same keys and the same resource version, in a well-formed store,
  from which the argument applies again. It holds under the documented behaviour of bbolt, for
  events within its size limits whose objects survive the JSON round trip; in particular the
  stored version never moves backwards across a restart.\<close>

theorem restart_recovers:
  assumes "bolt_laws L" "bolt_wf L db0" "reorders ord" "reorders ord'"
    and "restore L ord t0 uids draws db0 = Inr s" "store_wf s"
    and "run (store_step L) s log t" "unat (rv s) + length log \<le> 2 ^ 64 - 1"
    and "\<forall>ev \<in> set log. storable L t ev" "resources t = resources s"
  shows "\<exists>db s'. persist t = Some db \<and> restore L ord' t1 uids' draws' db = Inr s' \<and>
    view s' = view t \<and> rv s' = rv t \<and> resources s' = resources t \<and> store_wf s'"
  by (rule restart_lemma [OF assms])

theorem restart_recovers_witness:
  "\<exists>db s'. persist sample_store = Some db \<and> restore sample_lib id 5 (\<lambda>n. ''v'') (\<lambda>n. n) db = Inr s' \<and>
     view s' = [(SandboxGVR, ''default/box'') \<mapsto> sample_stored] \<and> rv s' = 1"
proof -
  have "reorders id" by (simp add: reorders_def)
  then show ?thesis
    using sample_storable restart_recovers [OF sample_bolt_laws sample_bolt_wf _ _ sample_restore sample_start_fields(6) sample_create_run]
    by (fastforce simp: sample_store_facts)
qed

section \<open>Single operations\<close>

text \<open>C6: two clients that read the same version cannot both write: after the first update from it
  succeeded, an update of the same object that still carries that version is refused with a conflict,
  and the store is unchanged.\<close>

theorem no_lost_update:
  assumes "Update L g a isStatus s = (s1, Inr a')" "store_wf s" "unat (rv s) + 1 \<le> 2 ^ 64 - 1"
    and "name b = name a" "namespace b = namespace a" "resourceVersion b = resourceVersion a" "resourceVersion b \<noteq> ''''"
  shows "\<exists>gr. Update L g b isStatus' s1 = (s1, Inl (Conflict gr (name b)))"
proof -
  from assms(1) obtain rm old where rm: "resources s g = Some rm"
    and old: "lookup s g (key (rmNamespaced rm) (eff_ns rm (namespace a)) (name a)) = Some old" "\<not> stale a old"
    and c: "commitUpdate L g (key (rmNamespaced rm) (eff_ns rm (namespace a)) (name a)) old a isStatus s = (s1, a')"
    by (rule Update_okE)
  let ?k = "key (rmNamespaced rm) (eff_ns rm (namespace a)) (name a)"
  note f = commitUpdate_facts [OF c]
  have "resourceVersion b = resourceVersion old" using old(2) assms(6,7) by (simp add: stale_def)
  moreover have "view s (g, ?k) = Some old" using old(1) by (simp add: view_apply)
  then obtain n where n: "n \<le> rv s" "resourceVersion old = FormatUint n"
    using assms(2) unfolding store_wf_def versions_ok_def by blast
  moreover have "n < rv s + 1" using n(1) unat_bound_not_max [of "rv s" 0] assms(3) by (intro next_version_fresh) simp_all
  moreover have "resourceVersion a' = FormatUint (rv s + 1)" using f(3) by simp
  ultimately have "resourceVersion b \<noteq> resourceVersion a'" by (metis parseRV_FormatUint less_irrefl)
  then have st: "stale b a'" using assms(7) by (simp add: stale_def)
  have "view s1 (g, ?k) = Some a'" by (simp add: f(2))
  moreover have "resources s1 g = Some rm" using f(1) rm by (simp add: commits_def)
  ultimately show ?thesis
    using st assms(4,5) by (cases "rmNamespaced rm") (simp_all add: Update_def meta_def view_apply eff_ns_def Let_def)
qed

theorem no_lost_update_witness:
  "\<exists>gr. Update sample_lib SandboxGVR sample_stored True sample_store2 = (sample_store2, Inl (Conflict gr ''box''))"
proof -
  have "name sample_stored = ''box''" "namespace sample_stored = ''default''" "resourceVersion sample_stored = ''1''"
    "resourceVersion sample_patched = ''1''"
    by (simp_all add: sample_stored_def sample_patched_def)
  then show ?thesis
    using no_lost_update [OF sample_update sample_store_facts(3), of sample_stored True] by (simp add: sample_store_facts)
qed

text \<open>A successful update keeps the object's identity (uid, creation time), touches only the half
  it is addressed to (the status subresource or everything else), advances the
  generation exactly when the spec changes, gives the object the store's next version and is what a
  read of the object then returns.\<close>

theorem update_effect:
  assumes "Update L g ob isStatus s = (s', Inr m)"
  shows "\<exists>rm old. resources s g = Some rm \<and>
      lookup s g (key (rmNamespaced rm) (eff_ns rm (namespace ob)) (name ob)) = Some old \<and>
      uid m = uid old \<and> creationTimestamp m = creationTimestamp old \<and>
      (if isStatus then status m = status ob \<and> spec m = spec old \<and> labels m = labels old \<and> ownerReferences m = ownerReferences old
       else status m = status old \<and> spec m = spec ob \<and> labels m = labels ob \<and> ownerReferences m = ownerReferences ob) \<and>
      generation m = (if isStatus \<or> spec ob = spec old then generation old else generation old + 1) \<and>
      resourceVersion m = FormatUint (rv s + 1) \<and> rv s' = rv s + 1 \<and>
      Get g (eff_ns rm (namespace ob)) (name ob) s' = Inr m"
proof -
  from assms obtain rm old where rm: "resources s g = Some rm"
    and old: "lookup s g (key (rmNamespaced rm) (eff_ns rm (namespace ob)) (name ob)) = Some old"
    and c: "commitUpdate L g (key (rmNamespaced rm) (eff_ns rm (namespace ob)) (name ob)) old ob isStatus s = (s', m)"
    by (rule Update_okE)
  note f = commitUpdate_facts [OF c]
  have "resources s' g = Some rm" using f(1) rm by (simp add: commits_def)
  then have "Get g (eff_ns rm (namespace ob)) (name ob) s' = Inr m"
    using f(2) by (simp add: Get_def meta_def flip: view_apply)
  then show ?thesis using rm old f(3,4) by auto
qed

theorem update_effect_witness:
  "\<exists>rm. Get SandboxGVR (eff_ns rm ''default'') ''box'' sample_store2 = Inr sample_updated"
  using update_effect [OF sample_update] by auto

text \<open>A successful create made a new object: nothing was stored under its key, a read returns
  exactly what create returned, and system metadata is filled in (a uid, generation 1, the next
  version, a creation time) while a name or uid given by the client is kept.\<close>

theorem create_then_get:
  assumes "Create L g ob s = Some (s', Inr ob')"
  shows "\<exists>rm. resources s g = Some rm \<and> lookup s g (key (rmNamespaced rm) (namespace ob') (name ob')) = None \<and>
      Get g (namespace ob') (name ob') s' = Inr ob' \<and> namespace ob' = eff_ns rm (namespace ob) \<and>
      (name ob \<noteq> '''' \<longrightarrow> name ob' = name ob) \<and>
      uid ob' = (if uid ob = '''' then newUID s (uidCount s) else uid ob) \<and> generation ob' = 1 \<and>
      resourceVersion ob' = FormatUint (rv s + 1) \<and> creationTimestamp ob' \<noteq> None \<and> spec ob' = spec ob"
proof -
  from assms obtain rm ob1 i where rm: "resources s g = Some rm"
    and cn: "createNamed L g rm ob1 (s\<lparr>randCount := i\<rparr>) = (s', Inr ob')"
    and ob1: "namespace ob1 = eff_ns rm (namespace ob)" "name ob1 = name ob \<or> name ob = ''''"
      "ob1 = ob\<lparr>namespace := namespace ob1, name := name ob1\<rparr>"
    by (rule Create_okE)
  note c = createNamed_ok [OF cn, simplified, OF rm]
  obtain s1 where st: "stampNew ob1 (s\<lparr>randCount := i\<rparr>) = (s1, ob')" using c(6) by blast
  have keep: "uid ob1 = uid ob" "spec ob1 = spec ob"
    by (subst ob1(3), simp)+
  have fields: "uid ob' = (if uid ob = '''' then newUID s (uidCount s) else uid ob)" "generation ob' = 1"
    "resourceVersion ob' = FormatUint (rv s + 1)" "creationTimestamp ob' \<noteq> None" "spec ob' = spec ob"
    using st keep by (auto simp: stampNew_def Let_def nextRV_def split: if_splits)
  have "resources s' g = Some rm" using c(1) rm by (simp add: commits_def)
  moreover have "view s' (g, key (rmNamespaced rm) (namespace ob') (name ob')) = Some ob'" using c(3-5) by simp
  ultimately have "Get g (namespace ob') (name ob') s' = Inr ob'" by (simp add: Get_def meta_def view_apply)
  then show ?thesis using rm c(2,4,5) ob1(1,2) fields by (auto simp: lookup_def)
qed

theorem create_then_get_witness:
  "Get SandboxGVR ''default'' ''box'' sample_store = Inr sample_stored"
  using create_then_get [OF sample_create] by (simp add: sample_stored_def)

text \<open>Creating an object under a name in use is refused as already existing, without any effect.\<close>

theorem create_existing_refused:
  assumes "resources s g = Some rm" "name ob \<noteq> ''''"
    and "lookup s g (key (rmNamespaced rm) (eff_ns rm (namespace ob)) (name ob)) \<noteq> None"
  shows "Create L g ob s = Some (s, Inl (AlreadyExists (rmGroupRes rm) (name ob)))"
  using assms by (auto simp: Create_def meta_def createNamed_def Let_def eff_ns_def)

theorem create_existing_refused_witness:
  "Create sample_lib SandboxGVR sample_obj sample_store = Some (sample_store, Inl (AlreadyExists (rmGroupRes sample_rm) ''box''))"
  using create_existing_refused [OF sample_store_rm, of sample_obj] by (simp add: sample_rm_def eff_ns_def key_def)

text \<open>When the client leaves the name to the server, the name loop ends as soon as the random
  source yields an unused candidate, and the created object is stored under a new name
  made of the prefix and five characters of the suffix alphabet.\<close>

theorem create_generates_name:
  assumes "resources s g = Some rm" "name ob = ''''" "generateName ob \<noteq> ''''"
    and "lookup s g (key (rmNamespaced rm) (eff_ns rm (namespace ob)) (generateName ob @ randSuffix 5 (rand s) (randCount s + 5 * n))) = None"
  shows "\<exists>s' ob' suffix. Create L g ob s = Some (s', Inr ob') \<and> name ob' = generateName ob @ suffix \<and>
    length suffix = 5 \<and> set suffix \<subseteq> set nameSuffixAlphabet \<and>
    lookup s g (key (rmNamespaced rm) (eff_ns rm (namespace ob)) (name ob')) = None"
proof -
  let ?ex = "\<lambda>c. lookup s g (key (rmNamespaced rm) (eff_ns rm (namespace ob)) c) \<noteq> None"
  have "\<not> ?ex (generateName ob @ randSuffix 5 (rand s) (randCount s + 5 * n))" using assms(4) by simp
  then obtain c j where gen: "generateLoop ?ex (generateName ob) (rand s) (randCount s) = Some (c, j)"
    using generateLoop_returns [where ex = ?ex] by blast
  have free: "\<not> ?ex c" using generateLoop_free [OF gen] by simp
  obtain m where c: "c = generateName ob @ randSuffix 5 (rand s) m" using generateLoop_shape [OF gen] by blast
  let ?ob = "(if rmNamespaced rm then ob else ob\<lparr>namespace := ''''\<rparr>)\<lparr>name := c\<rparr>"
  obtain s1 ob1 where st: "stampNew ?ob (s\<lparr>randCount := j\<rparr>) = (s1, ob1)" by fastforce
  have nm: "name ob1 = c" using stampNew_frame [OF st] by simp
  have "generateUniqueName s g rm (namespace ?ob) (generateName ob) = Some (c, j)"
    using gen by (cases "rmNamespaced rm") (simp_all add: generateUniqueName_def eff_ns_def)
  then have "Create L g ob s = Some (createNamed L g rm ?ob (s\<lparr>randCount := j\<rparr>))"
    using assms(1-3) by (auto simp: Create_def meta_def Let_def)
  moreover have "lookup (s\<lparr>randCount := j\<rparr>) g (key (rmNamespaced rm) (namespace ?ob) c) = None"
    using free by (auto simp: lookup_def eff_ns_def)
  ultimately have "\<exists>s'. Create L g ob s = Some (s', Inr ob1)"
    using st by (auto simp: createNamed_def Let_def)
  then obtain s' where "Create L g ob s = Some (s', Inr ob1)" ..
  then show ?thesis
    using nm c free randSuffix_alphabet
    by (intro exI [of _ s'] exI [of _ ob1] exI [of _ "randSuffix 5 (rand s) m"]) simp
qed

theorem create_generates_name_witness:
  "\<exists>s' ob' suffix. Create sample_lib SandboxGVR (sample_obj\<lparr>name := '''', generateName := ''box-''\<rparr>) sample_store = Some (s', Inr ob') \<and>
     name ob' = ''box-'' @ suffix \<and> length suffix = 5"
proof -
  have "lookup sample_store SandboxGVR (''default/box-'' @ x) = None" for x
    by (simp add: sample_lookup_iff)
  then show ?thesis
    using create_generates_name [OF sample_store_rm, of "sample_obj\<lparr>name := '''', generateName := ''box-''\<rparr>" 0 sample_lib]
    by (auto simp: sample_rm_def eff_ns_def key_def)
qed

text \<open>A successful delete removes exactly the addressed object, returns its last state under the
  version of the deletion, and later reads and deletes of it fail with not found.\<close>

theorem delete_effect:
  assumes "Delete L g ns nm s = (s', Inr d)"
  shows "\<exists>rm old. resources s g = Some rm \<and> lookup s g (key (rmNamespaced rm) (eff_ns rm ns) nm) = Some old \<and>
      d = old\<lparr>resourceVersion := FormatUint (rv s + 1)\<rparr> \<and>
      view s' = (view s)((g, key (rmNamespaced rm) (eff_ns rm ns) nm) := None) \<and>
      Get g (eff_ns rm ns) nm s' = Inl (NotFound (rmGroupRes rm) nm) \<and>
      Delete L g ns nm s' = (s', Inl (NotFound (rmGroupRes rm) nm))"
proof -
  from assms obtain rm old where rm: "resources s g = Some rm"
    and old: "lookup s g (key (rmNamespaced rm) (eff_ns rm ns) nm) = Some old"
    and d: "d = old\<lparr>resourceVersion := FormatUint (rv s + 1)\<rparr>"
    and c: "commits s \<lparr>evType = Deleted, evObject = d, evRV = rv s', evGVR = g\<rparr> s'"
    and v: "view s' = (view s)((g, key (rmNamespaced rm) (eff_ns rm ns) nm) := None)"
    by (rule Delete_okE)
  have "resources s' g = Some rm" using c rm by (simp add: commits_def)
  moreover have "lookup s' g (key (rmNamespaced rm) (eff_ns rm ns) nm) = None"
    using v by (simp flip: view_apply)
  ultimately show ?thesis using rm old d v by (simp add: Get_def Delete_def meta_def eff_ns_def Let_def)
qed

theorem delete_effect_witness:
  "\<exists>gr. Get SandboxGVR ''default'' ''box'' (fst (Delete sample_lib SandboxGVR ''default'' ''box'' sample_store)) = Inl (NotFound gr ''box'')"
proof -
  obtain s' d where "Delete sample_lib SandboxGVR ''default'' ''box'' sample_store = (s', Inr d)"
    by (simp add: Delete_def meta_def sample_rm_def key_def Let_def)
  from delete_effect [OF this] this show ?thesis by (auto simp: sample_rm_def eff_ns_def)
qed

text \<open>A list returns exactly the stored objects of the resource that lie in the requested
  namespace and match the selectors, each once, whatever order the map is ranged over, together
  with the store's version.\<close>

theorem list_exact:
  assumes "store_wf s" "resources s g = Some rm" "permutes ord" "StoreList ord g ns sel s = Inr r"
  shows "set (lrItems r) = {ob. (\<exists>k. lookup s g k = Some ob) \<and> in_namespace rm ns ob \<and> Selectors_Matches sel ob} \<and>
    distinct (lrItems r) \<and> lrRV r = CurrentRV s"
proof -
  have ms: "mset (ord (data s g)) = mset (data s g)" using assms(3) by (simp add: permutes_def)
  have d: "distinct (map fst (data s g))" using assms(1) by (simp add: store_wf_def keys_ok_def)
  have items: "lrItems r = filter (\<lambda>ob. in_namespace rm ns ob \<and> Selectors_Matches sel ob) (map snd (ord (data s g)))"
    "lrRV r = rv s"
    using assms(2,4) by (auto simp: StoreList_def meta_def)
  have "set (map snd (ord (data s g))) = {ob. \<exists>k. lookup s g k = Some ob}"
    using mset_eq_setD [OF ms] d by (force simp: lookup_def)
  moreover have "inj_on snd (set (data s g))"
  proof (rule inj_onI)
    fix x y assume xy: "x \<in> set (data s g)" "y \<in> set (data s g)" "snd x = snd y"
    then have "fst x = fst y"
      using store_wf_cache_key [OF assms(1,2)] by (metis prod.collapse)
    with xy(3) show "x = y" by (simp add: prod_eq_iff)
  qed
  then have "distinct (map snd (ord (data s g)))"
    using mset_eq_setD [OF ms] mset_eq_imp_distinct_iff [OF ms] d by (simp add: distinct_map)
  ultimately show ?thesis by (auto simp: items CurrentRV_def)
qed

theorem list_exact_witness:
  "\<exists>r. StoreList id SandboxGVR ''default'' no_selectors sample_store = Inr r \<and> set (lrItems r) = {sample_stored} \<and> lrRV r = 1"
proof -
  obtain r where r: "StoreList id SandboxGVR ''default'' no_selectors sample_store = Inr r"
    by (simp add: StoreList_def meta_def)
  have "in_namespace sample_rm ''default'' sample_stored" by (simp add: in_namespace_def sample_stored_def)
  then show ?thesis
    using list_exact [OF sample_store_facts(3) sample_store_rm _ r] r
    by (auto simp: permutes_def CurrentRV_def sample_store_facts sample_lookup_iff)
qed

section \<open>Where the store falls short of its comments\<close>

text \<open>C36: \<^verbatim>\<open>Watch\<close> says that no event after the start version is missed, but its test compares
  the start version with the oldest version in the history instead of the one before it. After a
  restart the history is empty; if the next thing that happens is the deletion of an object, a client
  that listed before it and watches from the version of its list is not replayed the
  deletion, although the history holds that event and nothing older was dropped: its watch
  starts with additions only.\<close>

theorem watch_from_list_misses_delete:
  assumes "history s0 = []" "histCap s0 > 0" "rv s0 > 0" "unat (rv s0) + 1 \<le> 2 ^ 64 - 1"
    and "Delete L g ns nm s0 = (s1, Inr d)"
    and "Watch ord g \<lparr>woNamespace = '''', woSelectors = no_selectors, woStartRV = rv s0, woHasStartRV = True\<rparr> s1 = (s2, Inr p)"
  shows "\<exists>ev. history s1 = [ev] \<and> evType ev = Deleted \<and> evGVR ev = g \<and> evRV ev > rv s0 \<and>
    (\<forall>e \<in> set (pBoot p). evType e = Added)"
proof -
  let ?ev = "\<lparr>evType = Deleted, evObject = d, evRV = rv s1, evGVR = g\<rparr>"
  let ?opts = "\<lparr>woNamespace = '''', woSelectors = no_selectors, woStartRV = rv s0, woHasStartRV = True\<rparr>"
  have c: "commits s0 ?ev s1" "rv s1 = rv s0 + 1" using assms(5) by (auto elim: Delete_okE)
  have h: "history s1 = [?ev]" using c(1) assms(1,2) by (cases "histCap s0") (simp_all add: commits_def trim_def)
  have lt: "rv s0 < rv s1"
    unfolding c(2) using unat_bound_not_max [of "rv s0" 0] assms(4) by (intro next_version_fresh) simp_all
  have "\<not> replayFromHistory ?opts s1" using lt by (simp add: replayFromHistory_def oldestHistoryRV_def h not_le)
  then have "\<forall>e \<in> set (pBoot p). evType e = Added"
    using assms(6) by (auto simp: Watch_def Let_def bootstrapEvents_def snapshotEvents_def split: sum.splits)
  then show ?thesis using h lt by (intro exI [of _ ?ev]) simp
qed

lemma restarted_store:
  "\<exists>s :: (nat, sampledb) store. history s = [] \<and> histCap s = 8192 \<and> rv s = 1 \<and> resources s = resources sample_start \<and>
     lookup s SandboxGVR ''default/box'' = Some sample_stored"
proof -
  have "storable sample_lib sample_store sample_created_event"
    by (simp add: storable_def sample_created_event_def event_key_def sample_store_facts(2) sample_rm_def key_def
        MaxKeySize_def MaxValueSize_def sample_marshal_def sample_unmarshal_def) (simp add: sample_stored_def)
  moreover have "reorders id" by (simp add: reorders_def)
  ultimately obtain db s' where r: "restore sample_lib id 5 (\<lambda>n. ''v'') (\<lambda>n. n) db = Inr s'"
    "view s' = view sample_store" "rv s' = rv sample_store" "resources s' = resources sample_store"
    using restart_lemma [OF sample_bolt_laws sample_bolt_wf _ _ sample_restore sample_start_fields(6) sample_create_run]
    by (fastforce simp: sample_store_facts(1,2))
  have "only_data (fresh_store (loadedRV sample_lib db) 5 (\<lambda>n. ''v'') (\<lambda>n. n) db) s'"
    by (rule restore_ok(2) [OF _ sample_bolt_laws sample_bolt_wf r(1)]) (simp add: reorders_def)
  note fr = only_data_frame [OF this, simplified]
  have "lookup s' SandboxGVR ''default/box'' = Some sample_stored" using r(2) sample_lookup by (metis view_apply)
  with r(3,4) fr(3,4) sample_store_facts(1,2) show ?thesis by (intro exI [of _ s']) simp
qed

theorem watch_from_list_misses_delete_witness:
  "\<exists>(s0 :: (nat, sampledb) store) s1 d s2 p ev. rv s0 = 1 \<and> Delete sample_lib SandboxGVR ''default'' ''box'' s0 = (s1, Inr d) \<and>
     Watch id SandboxGVR \<lparr>woNamespace = '''', woSelectors = no_selectors, woStartRV = 1, woHasStartRV = True\<rparr> s1 = (s2, Inr p) \<and>
     history s1 = [ev] \<and> evType ev = Deleted \<and> (\<forall>e \<in> set (pBoot p). evType e = Added)"
proof -
  obtain s0 :: "(nat, sampledb) store" where s0: "history s0 = []" "histCap s0 = 8192" "rv s0 = 1"
    "resources s0 = resources sample_start" "lookup s0 SandboxGVR ''default/box'' = Some sample_stored"
    using restarted_store by blast
  obtain s1 d where del: "Delete sample_lib SandboxGVR ''default'' ''box'' s0 = (s1, Inr d)"
    using s0(4,5) by (simp add: Delete_def meta_def sample_rm_def key_def Let_def)
  have "resources s1 SandboxGVR = Some sample_rm" using delete_effect_resources [OF del] s0(4) by simp
  then obtain s2 p where w: "Watch id SandboxGVR \<lparr>woNamespace = '''', woSelectors = no_selectors, woStartRV = rv s0, woHasStartRV = True\<rparr> s1 = (s2, Inr p)"
    by (simp add: Watch_def meta_def Let_def)
  from watch_from_list_misses_delete [OF s0(1) _ _ _ del w] s0 del w show ?thesis by auto
qed

text \<open>With an empty history the same test takes the replay branch for every start version:
  after a restart a watch from any earlier version starts with no event at all, however many of the stored
  objects changed after that version.\<close>

theorem watch_after_restart_starts_empty:
  assumes "history s = []" "resources s g = Some rm" "woHasStartRV opts" "woStartRV opts > 0"
  shows "\<exists>s' p. Watch ord g opts s = (s', Inr p) \<and> pBoot p = []"
  using assms by (simp add: Watch_def meta_def Let_def bootstrapEvents_def replayFromHistory_def replayEvents_def)

theorem watch_after_restart_starts_empty_witness:
  "\<exists>(s :: (nat, sampledb) store) s' p. lookup s SandboxGVR ''default/box'' = Some sample_stored \<and>
     Watch id SandboxGVR sample_watch s = (s', Inr p) \<and> pBoot p = []"
proof -
  obtain s :: "(nat, sampledb) store" where s: "history s = []" "resources s = resources sample_start"
    "lookup s SandboxGVR ''default/box'' = Some sample_stored"
    using restarted_store by blast
  with watch_after_restart_starts_empty [of s SandboxGVR sample_rm sample_watch id] show ?thesis
    by (auto simp: sample_watch_def)
qed

text \<open>A patch that changes the name is stored under the key it was addressed by: reading the old
  name then returns an object that carries another one.\<close>

theorem patch_can_rename_in_place:
  assumes "Patch L g ns nm t body False s = (s', Inr m)"
  shows "\<exists>rm. resources s g = Some rm \<and> Get g (eff_ns rm ns) nm s' = Inr m \<and>
    (\<exists>oldJSON j patched. patchJSON L t oldJSON body = Inr j \<and> UnmarshalJSON L j = Inr patched \<and> name m = name patched)"
proof -
  from assms obtain rm old patched oldJSON j where rm: "resources s g = Some rm"
    and j: "patchJSON L t oldJSON body = Inr j" "UnmarshalJSON L j = Inr patched"
    and c: "commitUpdate L g (key (rmNamespaced rm) (eff_ns rm ns) nm) old patched False s = (s', m)"
    by (rule Patch_okE)
  note f = commitUpdate_facts [OF c]
  have "resources s' g = Some rm" using f(1) rm by (simp add: commits_def)
  then have "Get g (eff_ns rm ns) nm s' = Inr m" using f(2) by (simp add: Get_def meta_def flip: view_apply)
  moreover have "name m = name patched" using f(3) by simp
  ultimately show ?thesis using rm j by blast
qed

theorem patch_can_rename_in_place_witness:
  "\<exists>s' m. Patch sample_lib SandboxGVR ''default'' ''box'' MergePatchType [2] False sample_store = (s', Inr m) \<and>
     Get SandboxGVR ''default'' ''box'' s' = Inr m \<and> name m = ''other''"
proof -
  have "\<not> stale sample_renamed sample_stored" by (simp add: stale_def sample_renamed_def)
  then obtain s' m where p: "Patch sample_lib SandboxGVR ''default'' ''box'' MergePatchType [2] False sample_store = (s', Inr m)"
    by (cases "commitUpdate sample_lib SandboxGVR ''default/box'' sample_stored sample_renamed False sample_store")
       (simp add: Patch_def meta_def sample_rm_def key_def Let_def patchJSON_def patch_type_defs
        sample_marshal_def sample_unmarshal_def)
  from patch_can_rename_in_place [OF p] obtain j patched where "Get SandboxGVR ''default'' ''box'' s' = Inr m"
    "patchJSON sample_lib MergePatchType j [2] = Inr patched" "True" by (auto simp: sample_rm_def eff_ns_def)
  moreover from patch_can_rename_in_place [OF p] have "name m = name sample_renamed"
    by (auto simp: patchJSON_def patch_type_defs sample_unmarshal_def)
  ultimately show ?thesis using p by (auto simp: sample_renamed_def)
qed

section \<open>Names, identifiers and codecs\<close>

lemma hexEncode_length [simp]: "length (hexEncode bs) = 2 * length bs"
  by (induction bs) (simp_all add: hexEncode_def hex_byte_def)

lemma hex_char_cases: "d < 16 \<Longrightarrow> hex_char d \<in> set ''0123456789abcdef''"
proof -
  have all: "\<forall>d \<in> set [0..<16]. hex_char d \<in> set ''0123456789abcdef''" by code_simp
  show "d < 16 \<Longrightarrow> hex_char d \<in> set ''0123456789abcdef''" using all by (metis atLeastLessThan_iff atLeastLessThan_upt le0)
qed

lemma unat_byte: "unat (b :: 8 word) < 256"
  using unsigned_less [where 'a = nat, of b] by simp

lemma hexEncode_digits: "set (hexEncode bs) \<subseteq> set ''0123456789abcdef''"
proof -
  have "hex_char (unat b div 16) \<in> set ''0123456789abcdef'' \<and> hex_char (unat b mod 16) \<in> set ''0123456789abcdef''" for b :: "8 word"
    using unat_byte [of b] by (intro conjI hex_char_cases) (simp_all add: less_mult_imp_div_less)
  then show ?thesis unfolding hexEncode_def hex_byte_def by auto
qed

lemma unat_and_mask: "unat ((b :: 8 word) AND mask n) = unat b mod 2 ^ n"
  by (simp add: take_bit_eq_mask [symmetric] unsigned_take_bit_eq) (simp add: take_bit_eq_mod)

lemma unat_set_bits:
  fixes b c :: "8 word"
  assumes "mask n AND c = 0" "2 ^ n + unat c \<le> 256"
  shows "unat ((b AND mask n) OR c) = unat b mod 2 ^ n + unat c"
proof -
  have "(b AND mask n) AND c = 0" using assms(1) by (simp add: and.assoc)
  then have eq: "(b AND mask n) OR c = (b AND mask n) + c" using word_plus_and_or [of "b AND mask n" c] by simp
  have "unat b mod 2 ^ n < 2 ^ n" by simp
  then have "unat b mod 2 ^ n + unat c < 256" using assms(2) by linarith
  then show ?thesis by (simp add: eq unat_word_ariths unat_and_mask)
qed

lemma uuid_version_nibble: "unat (((b :: 8 word) AND 0x0f) OR 0x40) = unat b mod 16 + 64"
  using unat_set_bits [of 4 "0x40" b] by (simp add: mask_eq_exp_minus_1)

lemma uuid_variant_nibble: "unat (((b :: 8 word) AND 0x3f) OR 0x80) = unat b mod 64 + 128"
  using unat_set_bits [of 6 "0x80" b] by (simp add: mask_eq_exp_minus_1)

lemma uuid_version_digit: "hex_char (unat (((b :: 8 word) AND 0x0f) OR 0x40) div 16) = CHR ''4''"
proof -
  have "(unat b mod 16 + 64) div 16 = 4" by simp
  moreover have "hex_char 4 = CHR ''4''" by code_simp
  ultimately show ?thesis unfolding uuid_version_nibble by simp
qed

lemma uuid_variant_digit: "hex_char (unat (((b :: 8 word) AND 0x3f) OR 0x80) div 16) \<in> set ''89ab''"
proof -
  have "(unat b mod 64 + 128) div 16 \<in> {8, 9, 10, 11}" by (auto; presburger)
  moreover have "\<forall>d \<in> {8, 9, 10, 11}. hex_char d \<in> set ''89ab''" by code_simp
  ultimately show ?thesis unfolding uuid_variant_nibble by blast
qed

lemma hexEncode_Cons: "hexEncode (b # bs) = hex_char (unat b div 16) # hex_char (unat b mod 16) # hexEncode bs"
  by (simp add: hexEncode_def hex_byte_def)

text \<open>The generated identifiers have the shape of a version 4 UUID: five groups of lowercase
  hexadecimal digits of lengths 8, 4, 4, 4 and 12, the third starting with 4 and the fourth
  with one of 8, 9, a, b, whatever sixteen bytes were drawn.\<close>

theorem newUUID_shape:
  assumes "length b = 16"
  shows "\<exists>g1 g2 v3 g3 v4 g4 g5. newUUID b = g1 @ ''-'' @ g2 @ ''-'' @ (v3 # g3) @ ''-'' @ (v4 # g4) @ ''-'' @ g5 \<and>
    v3 = CHR ''4'' \<and> v4 \<in> set ''89ab'' \<and> length g1 = 8 \<and> length g2 = 4 \<and> length g3 = 3 \<and> length g4 = 3 \<and> length g5 = 12 \<and>
    set (g1 @ g2 @ g3 @ g4 @ g5) \<subseteq> set ''0123456789abcdef''"
proof -
  let ?b = "b[6 := ((b ! 6) AND 0x0f) OR 0x40]"
  let ?c = "?b[8 := ((?b ! 8) AND 0x3f) OR 0x80]"
  have "drop 6 ?c = ?c ! 6 # drop 7 ?c" "drop 8 ?c = ?c ! 8 # drop 9 ?c"
    using assms Cons_nth_drop_Suc [of 6 ?c] Cons_nth_drop_Suc [of 8 ?c] by simp_all
  then have d: "drop 6 ?c = (((b ! 6) AND 0x0f) OR 0x40) # drop 7 ?c" "drop 8 ?c = (((b ! 8) AND 0x3f) OR 0x80) # drop 9 ?c"
    using assms by simp_all
  show ?thesis
    unfolding newUUID_def Let_def d
    by (rule exI [of _ "hexEncode (take 4 ?c)"], rule exI [of _ "hexEncode (take 2 (drop 4 ?c))"],
        rule exI [of _ "CHR ''4''"], rule exI [of _ "hex_char (unat (((b ! 6) AND 0x0f) OR 0x40) mod 16) # hexEncode (take 1 (drop 7 ?c))"],
        rule exI [of _ "hex_char (unat (((b ! 8) AND 0x3f) OR 0x80) div 16)"],
        rule exI [of _ "hex_char (unat (((b ! 8) AND 0x3f) OR 0x80) mod 16) # hexEncode (take 1 (drop 9 ?c))"],
        rule exI [of _ "hexEncode (take 6 (drop 10 ?c))"])
       (use uuid_version_digit uuid_variant_digit assms hexEncode_digits hex_char_cases in
         \<open>simp add: hexEncode_Cons numeral_2_eq_2\<close>)
qed

theorem newUUID_shape_witness: "length (newUUID (replicate 16 255)) = 36"
  using newUUID_shape [of "replicate 16 255"] by auto

text \<open>Every resource type the program knows has its own bucket, found again under the same type
  when the database is read, and the metadata bucket is none of them; the version written with each
  object is read back.\<close>

theorem buckets_roundtrip:
  "(\<forall>g \<in> default_gvrs. parseGVRBucket (bucketName g) = Some g) \<and> parseGVRBucket metaBucket = None \<and>
   (\<forall>b g. parseGVRBucket b = Some g \<longrightarrow> bucketName g = b) \<and> (\<forall>n. Uint64 (PutUint64 n) = n) \<and>
   (\<forall>n. parseRV (FormatUint n) = n)"
  using default_gvrs_valid parseGVRBucket_inverse by (auto simp: valid_gvr_def)

theorem buckets_roundtrip_witness:
  "parseGVRBucket ''agents.x-k8s.io/v1beta1/sandboxes'' = Some SandboxGVR"
proof -
  have "SandboxGVR \<in> default_gvrs" by (simp add: default_gvrs_def default_resources_def mk_resource_def)
  moreover have "bucketName SandboxGVR = ''agents.x-k8s.io/v1beta1/sandboxes''"
    by (simp add: bucketName_def GVR_String_def SandboxGVR_def group_defs)
  ultimately show ?thesis using buckets_roundtrip by metis
qed

lemma default_aliases:
  "list_all (\<lambda>r. Registry_Get NewDefaultRegistry (rGVR r) = Some r \<and> list_all (\<lambda>a. ResolveResource NewDefaultRegistry (Group (rGVR r)) (Version (rGVR r)) a = Some r) (aliases r))
     (reg_list NewDefaultRegistry)"
  by code_simp

text \<open>Every resource of the registry is found under its own type and, within its group and
  version, under its plural, singular and short names; the registry lists them all, sorted by type.\<close>

theorem registry_resolves:
  "(\<forall>r \<in> set (Registry_All NewDefaultRegistry). Registry_Get NewDefaultRegistry (rGVR r) = Some r \<and>
     (\<forall>a \<in> set (aliases r). ResolveResource NewDefaultRegistry (Group (rGVR r)) (Version (rGVR r)) a = Some r)) \<and>
   mset (map rGVR (Registry_All NewDefaultRegistry)) = mset (map rGVR default_resources) \<and>
   sorted (map (\<lambda>r. GVR_String (rGVR r)) (Registry_All NewDefaultRegistry))"
proof (intro conjI)
  show "\<forall>r \<in> set (Registry_All NewDefaultRegistry). Registry_Get NewDefaultRegistry (rGVR r) = Some r \<and>
     (\<forall>a \<in> set (aliases r). ResolveResource NewDefaultRegistry (Group (rGVR r)) (Version (rGVR r)) a = Some r)"
    using default_aliases unfolding list_all_iff by (simp add: Registry_All_def)
  have "mset (map rGVR (Registry_All NewDefaultRegistry)) = mset (map rGVR (reg_list NewDefaultRegistry))"
    by (simp add: Registry_All_def)
  then show "mset (map rGVR (Registry_All NewDefaultRegistry)) = mset (map rGVR default_resources)"
    unfolding default_registry_gvrs .
  show "sorted (map (\<lambda>r. GVR_String (rGVR r)) (Registry_All NewDefaultRegistry))"
    by (simp add: Registry_All_def)
qed

theorem registry_resolves_witness:
  "\<exists>r. Registry_Get NewDefaultRegistry SandboxGVR = Some r \<and>
     ResolveResource NewDefaultRegistry ''agents.x-k8s.io'' ''v1beta1'' ''sb'' = Some r"
proof -
  let ?r = "mk_resource SandboxGVR ''Sandbox'' ''SandboxList'' ''sandbox'' [''sandbox'', ''sb''] True True False\<lparr>rVerbs := defaultVerbs\<rparr>"
  have "mk_resource SandboxGVR ''Sandbox'' ''SandboxList'' ''sandbox'' [''sandbox'', ''sb''] True True False \<in> set default_resources"
    by (simp add: default_resources_def)
  then have "?r \<in> set (Registry_All NewDefaultRegistry)"
    unfolding Registry_All_def default_registry_list set_sort set_map by (rule imageI)
  from bspec [OF conjunct1 [OF registry_resolves] this]
  have "Registry_Get NewDefaultRegistry (rGVR ?r) = Some ?r"
    "\<forall>a \<in> set (aliases ?r). ResolveResource NewDefaultRegistry (Group (rGVR ?r)) (Version (rGVR ?r)) a = Some ?r"
    by blast+
  moreover have "rGVR ?r = SandboxGVR" "''sb'' \<in> set (aliases ?r)" by (simp_all add: aliases_def mk_resource_def)
  moreover have "Group SandboxGVR = ''agents.x-k8s.io''" "Version SandboxGVR = ''v1beta1''"
    by (simp_all add: SandboxGVR_def group_defs)
  ultimately show ?thesis by (metis (no_types))
qed

end
