(* ===== verification/Types.thy ===== *)
theory Types
  imports Objects
begin

text \<open>
  The typed API objects the drivers and reconcilers work on: the fields of \<^verbatim>\<open>corev1.PodSpec\<close> and of
  the agent-sandbox types the program reads or writes. A pointer or an optional struct is an option;
  fields the program never looks at are left out. Quantities are the \<^verbatim>\<open>int64\<close> values the program
  asks them for.
\<close>

section \<open>Pods\<close>

type_synonym int64 = "64 word"

record EnvVar =
  envName :: string
  envValue :: string
  envValueFrom :: bool

record VolumeMount =
  vmName :: string
  vmMountPath :: string
  vmReadOnly :: bool
  vmSubPath :: string

record SecurityContext =
  scPrivileged :: "bool option"
  scRunAsUser :: "int option"
  scRunAsGroup :: "int option"
  scReadOnlyRootFilesystem :: "bool option"

record Quantity =
  qMilliValue :: int64
  qValue :: int64

record Container =
  cName :: string
  cImage :: string
  cCommand :: "string list"
  cArgs :: "string list"
  cWorkingDir :: string
  cImagePullPolicy :: string
  cEnv :: "EnvVar list"
  cPorts :: "int list"
  cVolumeMounts :: "VolumeMount list"
  cSecurityContext :: "SecurityContext option"
  cLimits :: "string \<rightharpoonup> Quantity"

record PVCSource =
  pvcClaimName :: string
  pvcReadOnly :: bool

record EmptyDirSource =
  edMedium :: string
  edSizeLimit :: "Quantity option"

record Volume =
  volName :: string
  volPVC :: "PVCSource option"
  volEmptyDir :: "EmptyDirSource option"

record PodSecurityContext =
  pscRunAsUser :: "int option"
  pscRunAsGroup :: "int option"

record PodSpec =
  psContainers :: "Container list"
  psVolumes :: "Volume list"
  psSecurityContext :: "PodSecurityContext option"
  psDNSPolicy :: string
  psDNSConfig :: "string list option"
  psAutomountServiceAccountToken :: "bool option"

section \<open>Formatting\<close>

text \<open>The verb \<^verbatim>\<open>%q\<close> on the ASCII range; bytes from 0x80 on are parts of printable runes and kept.\<close>

definition hex_digit :: "nat \<Rightarrow> char" where
  "hex_digit d = (if d < 10 then char_of (48 + d) else char_of (87 + d))"

definition quote_char :: "char \<Rightarrow> string" where
  "quote_char c = (
     let n = of_char c :: nat
     in if c = CHR 0x22 then [CHR 0x5C, CHR 0x22]
        else if c = CHR 0x5C then [CHR 0x5C, CHR 0x5C]
        else if n = 7 then [CHR 0x5C, CHR ''a''] else if n = 8 then [CHR 0x5C, CHR ''b'']
        else if n = 9 then [CHR 0x5C, CHR ''t''] else if n = 10 then [CHR 0x5C, CHR ''n'']
        else if n = 11 then [CHR 0x5C, CHR ''v''] else if n = 12 then [CHR 0x5C, CHR ''f'']
        else if n = 13 then [CHR 0x5C, CHR ''r'']
        else if n < 32 \<or> n = 127 then [CHR 0x5C, CHR ''x'', hex_digit (n div 16), hex_digit (n mod 16)]
        else [c])"

definition Quote :: "string \<Rightarrow> string" where
  "Quote s = [CHR 0x22] @ concat (map quote_char s) @ [CHR 0x22]"

end
