(* ===== verification/Driver.thy ===== *)
theory Driver
  imports Types
begin

text \<open>
  \<^verbatim>\<open>internal/driver/driver.go\<close> and \<^verbatim>\<open>mapping.go\<close>: the container backend's interface and the
  translation of a pod spec into a container spec. The interface \<^verbatim>\<open>Driver\<close> is a record of
  operations on the backend's state \<open>'d\<close>.
\<close>

section \<open>Types\<close>

datatype derr = ErrNotFound | DriverErr string

fun derr_Error :: "derr \<Rightarrow> string" where
  "derr_Error ErrNotFound = ''driver: sandbox container not found''"
| "derr_Error (DriverErr msg) = msg"

definition VolumeName :: "string \<Rightarrow> string \<Rightarrow> string" where
  "VolumeName ns pvcName = ''las-'' @ ns @ ''-'' @ pvcName"

definition LabelManaged :: string where "LabelManaged = ''las.managed''"
definition LabelNamespace :: string where "LabelNamespace = ''las.namespace''"
definition LabelSandbox :: string where "LabelSandbox = ''las.sandbox''"
definition LabelUID :: string where "LabelUID = ''las.uid''"
definition LabelServerPort :: string where "LabelServerPort = ''las.server-port''"
definition LabelVolume :: string where "LabelVolume = ''las.volume''"

lemmas label_defs = LabelManaged_def LabelNamespace_def LabelSandbox_def LabelUID_def LabelServerPort_def LabelVolume_def

datatype PullPolicy = PullIfNotPresent | PullAlways | PullNever

record Mount =
  mVolumeName :: string
  mTmpfs :: bool
  mTmpfsSizeBytes :: int64
  mMountPath :: string
  mReadOnly :: bool

record Resources =
  rsNanoCPUs :: int64
  rsMemoryBytes :: int64

record SandboxContainerSpec =
  csNamespace :: string
  csSandboxName :: string
  csUID :: string
  csImage :: string
  csPullPolicy :: PullPolicy
  csCommand :: "string list"
  csArgs :: "string list"
  csEnv :: "string \<rightharpoonup> string"
  csWorkingDir :: string
  csRuntimePorts :: "int list"
  csServerPort :: int
  csMounts :: "Mount list"
  csUser :: string
  csReadOnlyRoot :: bool
  csResources :: Resources
  csDNSServers :: "string list"
  csLabels :: "string \<rightharpoonup> string"
  csInjectRuntime :: bool

record ContainerInfo =
  ciID :: string
  ciName :: string
  ciState :: string
  ciExitCode :: int
  ciIPAddress :: string
  ciPortMap :: "int \<rightharpoonup> int"
  ciLabels :: "string \<rightharpoonup> string"
  ciStartedAt :: time

text \<open>A missing key of a Go map reads as the zero value.\<close>

definition map_get :: "('k \<rightharpoonup> string) \<Rightarrow> 'k \<Rightarrow> string" where
  "map_get m k = (case m k of None \<Rightarrow> '''' | Some v \<Rightarrow> v)"

definition ci_Namespace :: "ContainerInfo \<Rightarrow> string" where "ci_Namespace c = map_get (ciLabels c) LabelNamespace"
definition ci_Sandbox :: "ContainerInfo \<Rightarrow> string" where "ci_Sandbox c = map_get (ciLabels c) LabelSandbox"
definition ci_UID :: "ContainerInfo \<Rightarrow> string" where "ci_UID c = map_get (ciLabels c) LabelUID"

record VolumeSpec =
  vsName :: string
  vsNamespace :: string
  vsPVCName :: string
  vsLabels :: "string \<rightharpoonup> string"

record DriverEvent =
  deType :: string
  deID :: string
  deNamespace :: string
  deSandbox :: string
  deExitCode :: int

record 'd Driver =
  Ping :: "'d \<Rightarrow> derr option"
  EnsureImage :: "string \<Rightarrow> PullPolicy \<Rightarrow> 'd \<Rightarrow> 'd \<times> derr option"
  CreateSandboxContainer :: "SandboxContainerSpec \<Rightarrow> 'd \<Rightarrow> 'd \<times> (derr + ContainerInfo)"
  InspectSandbox :: "string \<Rightarrow> string \<Rightarrow> 'd \<Rightarrow> derr + ContainerInfo"
  ListManaged :: "'d \<Rightarrow> derr + ContainerInfo list"
  StopContainer :: "string \<Rightarrow> 'd \<Rightarrow> 'd \<times> derr option"
  RemoveContainer :: "string \<Rightarrow> 'd \<Rightarrow> 'd \<times> derr option"
  EnsureVolume :: "VolumeSpec \<Rightarrow> 'd \<Rightarrow> 'd \<times> (derr + string)"
  ListManagedVolumes :: "'d \<Rightarrow> derr + VolumeSpec list"
  RemoveVolume :: "string \<Rightarrow> 'd \<Rightarrow> 'd \<times> derr option"
  ProbeRuntime :: "int \<Rightarrow> 'd \<Rightarrow> derr option"
  BuildRuntimeImage :: "(string \<Rightarrow> string \<Rightarrow> 'd \<Rightarrow> 'd \<times> derr option) option"

section \<open>Mapping a pod spec\<close>

record MappingMeta =
  mmNamespace :: string
  mmSandboxName :: string
  mmUID :: string
  mmServerPort :: int
  mmExtraLabels :: "string \<rightharpoonup> string"
  mmInjectRuntime :: bool

definition mapPullPolicy :: "string \<Rightarrow> PullPolicy" where
  "mapPullPolicy p = (if p = ''Always'' then PullAlways else if p = ''Never'' then PullNever else PullIfNotPresent)"

text \<open>The loop over the environment: the map built so far and the warnings.\<close>

fun mapEnv :: "EnvVar list \<Rightarrow> (string \<rightharpoonup> string) \<Rightarrow> string list \<Rightarrow> (string \<rightharpoonup> string) \<times> string list" where
  "mapEnv [] env ws = (env, ws)"
| "mapEnv (e # es) env ws =
     (if envValueFrom e then mapEnv es env (ws @ [''env '' @ Quote (envName e) @ '' uses valueFrom which is unsupported; skipped''])
      else mapEnv es (env(envName e \<mapsto> envValue e)) ws)"

definition mapPorts :: "int \<Rightarrow> int list \<Rightarrow> int list" where
  "mapPorts serverPort ports = sort (remdups (serverPort # filter (\<lambda>p. p > 0) ports))"

definition volByName :: "Volume list \<Rightarrow> string \<rightharpoonup> Volume" where
  "volByName vols = foldl (\<lambda>m v. m(volName v \<mapsto> v)) Map.empty vols"

text \<open>One volume mount, on the volume it names: the mount, if any, and the warnings.\<close>

definition mountPVC :: "string \<Rightarrow> VolumeMount \<Rightarrow> PVCSource \<Rightarrow> Mount" where
  "mountPVC ns vm pvc = \<lparr>mVolumeName = VolumeName ns (pvcClaimName pvc), mTmpfs = False, mTmpfsSizeBytes = 0,
     mMountPath = vmMountPath vm, mReadOnly = vmReadOnly vm \<or> pvcReadOnly pvc\<rparr>"

definition mountTmpfs :: "VolumeMount \<Rightarrow> EmptyDirSource \<Rightarrow> Mount" where
  "mountTmpfs vm ed = \<lparr>mVolumeName = '''', mTmpfs = True,
     mTmpfsSizeBytes = (if edMedium ed = ''Memory'' then (case edSizeLimit ed of Some q \<Rightarrow> qValue q | None \<Rightarrow> 0) else 0),
     mMountPath = vmMountPath vm, mReadOnly = vmReadOnly vm\<rparr>"

definition mapMount :: "string \<Rightarrow> (string \<rightharpoonup> Volume) \<Rightarrow> VolumeMount \<Rightarrow> Mount list \<times> string list" where
  "mapMount ns vols vm = (case vols (vmName vm) of
      None \<Rightarrow> ([], [''volumeMount '' @ Quote (vmName vm) @ '' references unknown volume; skipped''])
    | Some vol \<Rightarrow>
       (let ws = (if vmSubPath vm \<noteq> '''' then
              [''volumeMount '' @ Quote (vmName vm) @ '' uses subPath which is unsupported; mounting whole volume''] else [])
        in case volPVC vol of
             Some pvc \<Rightarrow>
               (if pvcClaimName pvc = '''' then
                  ([], ws @ [''volume '' @ Quote (vmName vm) @ '' has an empty persistentVolumeClaim.claimName; skipped''])
                else ([mountPVC ns vm pvc], ws))
           | None \<Rightarrow>
               (case volEmptyDir vol of
                  Some ed \<Rightarrow> ([mountTmpfs vm ed], ws)
                | None \<Rightarrow> ([], ws @ [''volume '' @ Quote (vmName vm) @ '' type is unsupported (only PVC and emptyDir); skipped'']))))"

definition mapMounts :: "string \<Rightarrow> (string \<rightharpoonup> Volume) \<Rightarrow> VolumeMount list \<Rightarrow> Mount list \<times> string list" where
  "mapMounts ns vols vms = (concat (map (fst \<circ> mapMount ns vols) vms), concat (map (snd \<circ> mapMount ns vols) vms))"

definition privileged :: "Container \<Rightarrow> bool" where
  "privileged c = (case cSecurityContext c of None \<Rightarrow> False | Some sc \<Rightarrow> scPrivileged sc = Some True)"

definition userSpec :: "int option \<Rightarrow> int option \<Rightarrow> string" where
  "userSpec u g = (case u of None \<Rightarrow> ''''
     | Some u' \<Rightarrow> (case g of None \<Rightarrow> Itoa u' | Some g' \<Rightarrow> Itoa u' @ '':'' @ Itoa g'))"

definition mapUser :: "PodSpec \<Rightarrow> Container \<Rightarrow> string" where
  "mapUser podSpec c = (
     let u = (case cSecurityContext c of None \<Rightarrow> '''' | Some sc \<Rightarrow> userSpec (scRunAsUser sc) (scRunAsGroup sc))
     in case psSecurityContext podSpec of
          Some psc \<Rightarrow> (if u = '''' \<and> pscRunAsUser psc \<noteq> None then userSpec (pscRunAsUser psc) (pscRunAsGroup psc) else u)
        | None \<Rightarrow> u)"

definition mapReadOnlyRoot :: "Container \<Rightarrow> bool" where
  "mapReadOnlyRoot c = (case cSecurityContext c of None \<Rightarrow> False
     | Some sc \<Rightarrow> (case scReadOnlyRootFilesystem sc of None \<Rightarrow> False | Some b \<Rightarrow> b))"

definition mapResources :: "Container \<Rightarrow> Resources" where
  "mapResources c = \<lparr>
     rsNanoCPUs = (case cLimits c ''cpu'' of Some q \<Rightarrow> qMilliValue q * 1000000 | None \<Rightarrow> 0),
     rsMemoryBytes = (case cLimits c ''memory'' of Some q \<Rightarrow> qValue q | None \<Rightarrow> 0)\<rparr>"

text \<open>An error comes with the warnings gathered before it.\<close>

definition MapPodSpec :: "PodSpec \<Rightarrow> MappingMeta \<Rightarrow> int \<Rightarrow> (string \<times> string list) + (SandboxContainerSpec \<times> string list)" where
  "MapPodSpec podSpec mt defaultServerPort = (case psContainers podSpec of
      [] \<Rightarrow> Inl (''driver: pod spec has no containers'', [])
    | c # others \<Rightarrow>
       (let w0 = (if others \<noteq> [] then
              [''multi-container pod: only the first container ('' @ Quote (cName c) @ '') is run; '' @ Itoa (int (length others)) @ '' others ignored'']
              else []);
            serverPort = (if mmServerPort mt = 0 then defaultServerPort else mmServerPort mt);
            (env, w1) = mapEnv (cEnv c) Map.empty w0;
            (mounts, w2) = mapMounts (mmNamespace mt) (volByName (psVolumes podSpec)) (cVolumeMounts c)
        in if privileged c then Inl (''driver: privileged containers are refused'', w1 @ w2)
           else Inr (\<lparr>csNamespace = mmNamespace mt, csSandboxName = mmSandboxName mt, csUID = mmUID mt,
              csImage = cImage c, csPullPolicy = mapPullPolicy (cImagePullPolicy c), csCommand = cCommand c,
              csArgs = cArgs c, csEnv = env, csWorkingDir = cWorkingDir c, csRuntimePorts = mapPorts serverPort (cPorts c),
              csServerPort = serverPort, csMounts = mounts, csUser = mapUser podSpec c,
              csReadOnlyRoot = mapReadOnlyRoot c, csResources = mapResources c,
              csDNSServers = (case psDNSConfig podSpec of Some ns \<Rightarrow> ns | None \<Rightarrow> []),
              csLabels = mmExtraLabels mt, csInjectRuntime = mmInjectRuntime mt\<rparr>, w1 @ w2)))"

end
