(* ===== verification/FakeDriver.thy ===== *)
theory FakeDriver
  imports Driver
begin

text \<open>
  \<^verbatim>\<open>internal/driver/fake.go\<close>: the in-memory driver, the contract of a driver as a locale, and its
  interpretation on the in-memory one. The channel of events is a list: sending blocks once 128 of
  them wait, which is not modelled. Go maps that are ranged over are association lists with
  distinct keys.
\<close>

section \<open>The in-memory driver\<close>

record FakeDriver =
  fdContainers :: "(string \<times> ContainerInfo) list"
  fdSpecs :: "string \<rightharpoonup> SandboxContainerSpec"
  fdVolumes :: "(string \<times> VolumeSpec) list"
  fdNextPort :: int
  fdEvents :: "DriverEvent list"
  fdReady :: bool
  fdCreateErr :: "derr option"
  fdPingErr :: "derr option"

definition NewFakeDriver :: FakeDriver where
  "NewFakeDriver = \<lparr>fdContainers = [], fdSpecs = Map.empty, fdVolumes = [], fdNextPort = 40000, fdEvents = [],
     fdReady = True, fdCreateErr = None, fdPingErr = None\<rparr>"

definition fkey :: "string \<Rightarrow> string \<Rightarrow> string" where
  "fkey ns nm = ns @ ''/'' @ nm"

text \<open>\<^verbatim>\<open>docker.go\<close>.\<close>

definition containerName :: "string \<Rightarrow> string \<Rightarrow> string \<Rightarrow> string" where
  "containerName ns sandbox u = ''las-'' @ ns @ ''-'' @ sandbox @ ''-'' @ (if length u > 8 then take 8 u else u)"

text \<open>Publishing the remaining ports: each port not yet in the map takes the next host port.\<close>

fun fakePorts :: "int list \<Rightarrow> (int \<rightharpoonup> int) \<Rightarrow> int \<Rightarrow> (int \<rightharpoonup> int) \<times> int" where
  "fakePorts [] m next = (m, next)"
| "fakePorts (p # ps) m next = (if m p = None then fakePorts ps (m(p \<mapsto> next)) (next + 1) else fakePorts ps m next)"

definition fake_Create :: "SandboxContainerSpec \<Rightarrow> FakeDriver \<Rightarrow> FakeDriver \<times> (derr + ContainerInfo)" where
  "fake_Create cs f = (case fdCreateErr f of
      Some e \<Rightarrow> (f, Inl e)
    | None \<Rightarrow>
       (let port = fdNextPort f;
            (pm, next) = fakePorts (csRuntimePorts cs) [csServerPort cs \<mapsto> port] (port + 1);
            info = \<lparr>ciID = ''fake-'' @ csNamespace cs @ ''-'' @ csSandboxName cs,
               ciName = containerName (csNamespace cs) (csSandboxName cs) (csUID cs),
               ciState = ''running'', ciExitCode = 0,
               ciIPAddress = ''10.88.0.'' @ Itoa (port mod 250 + 2),
               ciPortMap = pm,
               ciLabels = [LabelManaged \<mapsto> ''true'', LabelNamespace \<mapsto> csNamespace cs,
                  LabelSandbox \<mapsto> csSandboxName cs, LabelUID \<mapsto> csUID cs],
               ciStartedAt = 0\<rparr>;
            k = fkey (csNamespace cs) (csSandboxName cs)
        in (f\<lparr>fdContainers := AList.update k info (fdContainers f), fdSpecs := (fdSpecs f)(k \<mapsto> cs), fdNextPort := next\<rparr>, Inr info)))"

definition fake_LastSpec :: "string \<Rightarrow> string \<Rightarrow> FakeDriver \<Rightarrow> SandboxContainerSpec option" where
  "fake_LastSpec ns nm f = fdSpecs f (fkey ns nm)"

definition fake_Inspect :: "string \<Rightarrow> string \<Rightarrow> FakeDriver \<Rightarrow> derr + ContainerInfo" where
  "fake_Inspect ns nm f = (case map_of (fdContainers f) (fkey ns nm) of None \<Rightarrow> Inl ErrNotFound | Some c \<Rightarrow> Inr c)"

definition fake_ListManaged :: "FakeDriver \<Rightarrow> derr + ContainerInfo list" where
  "fake_ListManaged f = Inr (map snd (fdContainers f))"

definition fake_Stop :: "string \<Rightarrow> FakeDriver \<Rightarrow> FakeDriver \<times> derr option" where
  "fake_Stop i f = (f\<lparr>fdContainers := map (\<lambda>(k, c). (k, if ciID c = i then c\<lparr>ciState := ''exited''\<rparr> else c)) (fdContainers f)\<rparr>, None)"

definition fake_Remove :: "string \<Rightarrow> FakeDriver \<Rightarrow> FakeDriver \<times> derr option" where
  "fake_Remove i f = (f\<lparr>fdContainers := filter (\<lambda>(k, c). ciID c \<noteq> i) (fdContainers f)\<rparr>, None)"

definition fake_EnsureVolume :: "VolumeSpec \<Rightarrow> FakeDriver \<Rightarrow> FakeDriver \<times> (derr + string)" where
  "fake_EnsureVolume cs f = (f\<lparr>fdVolumes := AList.update (vsName cs) cs (fdVolumes f)\<rparr>, Inr (vsName cs))"

definition fake_ListVolumes :: "FakeDriver \<Rightarrow> derr + VolumeSpec list" where
  "fake_ListVolumes f = Inr (map snd (fdVolumes f))"

definition fake_RemoveVolume :: "string \<Rightarrow> FakeDriver \<Rightarrow> FakeDriver \<times> derr option" where
  "fake_RemoveVolume nm f = (f\<lparr>fdVolumes := AList.delete nm (fdVolumes f)\<rparr>, None)"

definition fake_Probe :: "int \<Rightarrow> FakeDriver \<Rightarrow> derr option" where
  "fake_Probe port f = (if fdReady f then None else Some (DriverErr ''fake: runtime not ready''))"

definition fake_EmitEvent :: "DriverEvent \<Rightarrow> FakeDriver \<Rightarrow> FakeDriver" where
  "fake_EmitEvent ev f = f\<lparr>fdEvents := fdEvents f @ [ev]\<rparr>"

definition fake_Kill :: "string \<Rightarrow> string \<Rightarrow> int \<Rightarrow> FakeDriver \<Rightarrow> FakeDriver" where
  "fake_Kill ns nm code f = (case map_of (fdContainers f) (fkey ns nm) of
      None \<Rightarrow> f
    | Some c \<Rightarrow> fake_EmitEvent \<lparr>deType = ''die'', deID = ciID c, deNamespace = ns, deSandbox = nm, deExitCode = code\<rparr>
        (f\<lparr>fdContainers := AList.update (fkey ns nm) (c\<lparr>ciState := ''exited'', ciExitCode := code\<rparr>) (fdContainers f)\<rparr>))"

definition fakeDriver :: "FakeDriver Driver" where
  "fakeDriver = \<lparr>Ping = fdPingErr, EnsureImage = (\<lambda>_ _ f. (f, None)), CreateSandboxContainer = fake_Create,
     InspectSandbox = fake_Inspect, ListManaged = fake_ListManaged, StopContainer = fake_Stop,
     RemoveContainer = fake_Remove, EnsureVolume = fake_EnsureVolume, ListManagedVolumes = fake_ListVolumes,
     RemoveVolume = fake_RemoveVolume, ProbeRuntime = fake_Probe, BuildRuntimeImage = None\<rparr>"

lemma fakeDriver_sel [simp]:
  "CreateSandboxContainer fakeDriver = fake_Create" "InspectSandbox fakeDriver = fake_Inspect"
  "StopContainer fakeDriver = fake_Stop" "RemoveContainer fakeDriver = fake_Remove"
  "EnsureVolume fakeDriver = fake_EnsureVolume" "RemoveVolume fakeDriver = fake_RemoveVolume"
  "ProbeRuntime fakeDriver = fake_Probe" "ListManaged fakeDriver = fake_ListManaged"
  "ListManagedVolumes fakeDriver = fake_ListVolumes" "EnsureImage fakeDriver = (\<lambda>_ _ f. (f, None))"
  "Ping fakeDriver = fdPingErr" "BuildRuntimeImage fakeDriver = None"
  by (simp_all add: fakeDriver_def)

section \<open>The contract of a driver\<close>

text \<open>What the reconcilers rely on: a created container is the one inspected under its sandbox's
  name, removing an id removes exactly the container with that id, stopping keeps it inspectable, an
  ensured volume is listed and a removed one is not. Containers and volumes do not
  affect each other, except that creating a container may create the volumes it mounts. \<open>good\<close> is the backend's invariant;
  an operation that reports an error is not constrained beyond keeping it. The contract asks of the client that it creates a container only
  for a sandbox that has none, with labels of its own that leave the identity labels alone.\<close>

definition placeable :: "'d Driver \<Rightarrow> SandboxContainerSpec \<Rightarrow> 'd \<Rightarrow> bool" where
  "placeable D cs d \<longleftrightarrow> InspectSandbox D (csNamespace cs) (csSandboxName cs) d = Inl ErrNotFound \<and>
     csLabels cs LabelManaged = None \<and> csLabels cs LabelNamespace = None \<and> csLabels cs LabelSandbox = None"

locale container_driver =
  fixes D :: "'d Driver"
    and good :: "'d \<Rightarrow> bool"
    and has_volume :: "'d \<Rightarrow> string \<Rightarrow> bool"
  assumes create_good: "good d \<Longrightarrow> placeable D cs d \<Longrightarrow> good (fst (CreateSandboxContainer D cs d))"
    and remove_good: "good d \<Longrightarrow> good (fst (RemoveContainer D i d))"
    and stop_good: "good d \<Longrightarrow> good (fst (StopContainer D i d))"
    and ensure_good: "good d \<Longrightarrow> good (fst (EnsureVolume D v d))"
    and unvolume_good: "good d \<Longrightarrow> good (fst (RemoveVolume D n d))"
    and image_good: "good d \<Longrightarrow> good (fst (EnsureImage D im pol d))"
    and build_good: "good d \<Longrightarrow> BuildRuntimeImage D = Some build \<Longrightarrow> good (fst (build im ctx d))"
    and inspect_create: "good d \<Longrightarrow> placeable D cs d \<Longrightarrow> CreateSandboxContainer D cs d = (d', Inr c) \<Longrightarrow>
      InspectSandbox D (csNamespace cs) (csSandboxName cs) d' = Inr c"
    and inspect_create_other: "good d \<Longrightarrow> placeable D cs d \<Longrightarrow> CreateSandboxContainer D cs d = (d', r) \<Longrightarrow> fkey ns nm \<noteq> fkey (csNamespace cs) (csSandboxName cs) \<Longrightarrow>
      InspectSandbox D ns nm d' = InspectSandbox D ns nm d"
    and inspect_remove: "good d \<Longrightarrow> RemoveContainer D i d = (d', None) \<Longrightarrow>
      InspectSandbox D ns nm d' = (case InspectSandbox D ns nm d of Inl e \<Rightarrow> Inl e | Inr c \<Rightarrow> if ciID c = i then Inl ErrNotFound else Inr c)"
    and inspect_stop: "good d \<Longrightarrow> InspectSandbox D ns nm d = Inr c \<Longrightarrow>
      \<exists>c'. InspectSandbox D ns nm (fst (StopContainer D i d)) = Inr c' \<and> ciID c' = ciID c"
    and inspect_volume: "good d \<Longrightarrow> InspectSandbox D ns nm (fst (EnsureVolume D v d)) = InspectSandbox D ns nm d"
      "good d \<Longrightarrow> InspectSandbox D ns nm (fst (RemoveVolume D n d)) = InspectSandbox D ns nm d"
      "good d \<Longrightarrow> InspectSandbox D ns nm (fst (EnsureImage D im pol d)) = InspectSandbox D ns nm d"
    and volume_ensure: "good d \<Longrightarrow> EnsureVolume D v d = (d', Inr n) \<Longrightarrow> has_volume d' m \<longleftrightarrow> m = vsName v \<or> has_volume d m"
    and volume_remove: "good d \<Longrightarrow> RemoveVolume D n d = (d', None) \<Longrightarrow> has_volume d' m \<longleftrightarrow> m \<noteq> n \<and> has_volume d m"
    and volume_container: "good d \<Longrightarrow> has_volume d m \<Longrightarrow> has_volume (fst (CreateSandboxContainer D cs d)) m"
      "good d \<Longrightarrow> has_volume (fst (RemoveContainer D i d)) m = has_volume d m"
      "good d \<Longrightarrow> has_volume (fst (StopContainer D i d)) m = has_volume d m"
begin

text \<open>Stop, then remove: the sequence every teardown of the reconcilers uses.\<close>

lemma inspect_gone:
  assumes "good d" "InspectSandbox D ns nm d = Inr c" "RemoveContainer D (ciID c) d = (d', None)"
  shows "InspectSandbox D ns nm d' = Inl ErrNotFound"
  using inspect_remove [OF assms(1,3), of ns nm] assms(2) by simp

lemma inspect_stopped_gone:
  assumes "good d" "InspectSandbox D ns nm d = Inr c" "StopContainer D (ciID c) d = (d1, e)" "RemoveContainer D (ciID c) d1 = (d2, None)"
  shows "InspectSandbox D ns nm d2 = Inl ErrNotFound"
proof -
  obtain c' where c': "InspectSandbox D ns nm d1 = Inr c'" "ciID c' = ciID c"
    using inspect_stop [OF assms(1,2), of "ciID c"] assms(3) by auto
  have "good d1" using stop_good [OF assms(1), of "ciID c"] assms(3) by simp
  then show ?thesis using inspect_gone [OF _ c'(1)] c'(2) assms(4) by simp
qed

lemma recreate:
  assumes "good d" "RemoveContainer D i d = (d', None)" "placeable D cs d'" "CreateSandboxContainer D cs d' = (d'', Inr c)"
  shows "InspectSandbox D (csNamespace cs) (csSandboxName cs) d'' = Inr c"
proof -
  have "good d'" using remove_good [OF assms(1), of i] assms(2) by simp
  then show ?thesis using inspect_create [OF _ assms(3,4)] by simp
qed

end

definition fake_good :: "FakeDriver \<Rightarrow> bool" where
  "fake_good f \<longleftrightarrow> distinct (map fst (fdContainers f)) \<and> distinct (map fst (fdVolumes f))"

definition fake_has_volume :: "FakeDriver \<Rightarrow> string \<Rightarrow> bool" where
  "fake_has_volume f n \<longleftrightarrow> map_of (fdVolumes f) n \<noteq> None"

lemma fake_create_total: "\<exists>f1 c. fake_Create cs NewFakeDriver = (f1, Inr c)"
  by (simp add: fake_Create_def NewFakeDriver_def Let_def split: prod.split)

text \<open>The in-memory driver asks nothing of its client.\<close>

lemma fake_Create_keeps:
  "fake_good f \<Longrightarrow> fake_good (fst (fake_Create cs f))"
  "fake_Create cs f = (f1, Inr c) \<Longrightarrow> fake_Inspect (csNamespace cs) (csSandboxName cs) f1 = Inr c"
  "fake_has_volume (fst (fake_Create cs f)) m = fake_has_volume f m"
  by (auto simp: fake_good_def fake_Create_def fake_Inspect_def fake_has_volume_def Let_def distinct_update
      split: option.splits prod.splits)

lemma NewFakeDriver_good: "fake_good NewFakeDriver"
  by (simp add: fake_good_def NewFakeDriver_def)

lemma map_of_filter_value:
  assumes "distinct (map fst xs)"
  shows "map_of (filter (\<lambda>(k, c). P c) xs) k = (case map_of xs k of None \<Rightarrow> None | Some c \<Rightarrow> if P c then Some c else None)"
  using assms
proof (induction xs)
  case (Cons x xs)
  obtain k' c where "x = (k', c)" by fastforce
  moreover from this Cons.prems have "map_of xs k' = None" by (auto simp: map_of_eq_None_iff)
  ultimately show ?case using Cons by (auto split: option.splits)
qed simp

lemma map_of_map_value: "map_of (map (\<lambda>(k, c). (k, f c)) xs) k = map_option f (map_of xs k)"
  by (induction xs) auto

lemma map_fst_map_value: "map (fst \<circ> (\<lambda>(k, c). (k, f c))) xs = map fst xs"
  by (induction xs) auto

interpretation fake: container_driver fakeDriver fake_good fake_has_volume
proof unfold_locales
  fix d d' :: FakeDriver and i ns nm
  show "InspectSandbox fakeDriver ns nm d' =
      (case InspectSandbox fakeDriver ns nm d of Inl e \<Rightarrow> Inl e | Inr c \<Rightarrow> if ciID c = i then Inl ErrNotFound else Inr c)"
    if "fake_good d" "RemoveContainer fakeDriver i d = (d', None)"
    using that by (auto simp: fake_Remove_def fake_Inspect_def fake_good_def map_of_filter_value split: option.splits)
  show "\<exists>c'. InspectSandbox fakeDriver ns nm (fst (StopContainer fakeDriver i d)) = Inr c' \<and> ciID c' = ciID c"
    if "InspectSandbox fakeDriver ns nm d = Inr c" for c
    using that by (auto simp: fake_Stop_def fake_Inspect_def map_of_map_value split: option.splits)
qed (auto simp: fake_good_def fake_Create_def fake_Remove_def fake_Stop_def fake_EnsureVolume_def fake_RemoveVolume_def
      fake_Inspect_def fake_has_volume_def Let_def map_fst_map_value distinct_map_filter
      simp del: map_of_eq_Some_iff split: option.splits prod.splits if_splits)

end
