(* ===== verification/DriverProps.thy ===== *)
theory DriverProps
  imports FakeDriver
begin

text \<open>
  What the mapping of pod specs and the in-memory driver guarantee.
\<close>

section \<open>Mapping\<close>

lemma volByName_spec: "volByName vols n = find (\<lambda>v. volName v = n) (rev vols)"
proof -
  have "foldl (\<lambda>m v. m(volName v \<mapsto> v)) m vols n =
      (case find (\<lambda>v. volName v = n) (rev vols) of None \<Rightarrow> m n | Some v \<Rightarrow> Some v)" for m
    by (induction vols rule: rev_induct) auto
  then show ?thesis by (simp add: volByName_def split: option.split)
qed

lemma MapPodSpec_ok:
  assumes "MapPodSpec ps mt d = Inr (cs, ws)"
  obtains c others where "psContainers ps = c # others" "\<not> privileged c"
    "csServerPort cs = (if mmServerPort mt = 0 then d else mmServerPort mt)"
    "csRuntimePorts cs = mapPorts (csServerPort cs) (cPorts c)"
    "csMounts cs = fst (mapMounts (mmNamespace mt) (volByName (psVolumes ps)) (cVolumeMounts c))"
    "\<exists>w1. ws = w1 @ snd (mapMounts (mmNamespace mt) (volByName (psVolumes ps)) (cVolumeMounts c))"
    "csResources cs = mapResources c" "csNamespace cs = mmNamespace mt" "csSandboxName cs = mmSandboxName mt" "csUID cs = mmUID mt"
  using assms
  by (auto simp: MapPodSpec_def Let_def split: list.splits prod.splits if_splits)

lemma MapPodSpec_total:
  "psContainers ps = c # others \<Longrightarrow> \<not> privileged c \<Longrightarrow> \<exists>cs ws. MapPodSpec ps mt d = Inr (cs, ws)"
  by (simp add: MapPodSpec_def Let_def split: prod.split)

lemma mapMounts_accounted: "length vms \<le> length (fst (mapMounts ns vols vms)) + length (snd (mapMounts ns vols vms))"
proof (induction vms)
  case (Cons vm vms)
  have "1 \<le> length (fst (mapMount ns vols vm)) + length (snd (mapMount ns vols vm))"
    by (simp add: mapMount_def Let_def split: option.split)
  with Cons show ?case by (simp add: mapMounts_def)
qed (simp add: mapMounts_def)

text \<open>A pod spec is refused exactly when it has no container or its first container asks to be
  privileged; everything else the program cannot represent becomes a warning.\<close>

theorem MapPodSpec_refuses:
  "(\<exists>e. MapPodSpec ps mt d = Inl e) \<longleftrightarrow> psContainers ps = [] \<or> privileged (hd (psContainers ps))"
  by (auto simp: MapPodSpec_def Let_def split: list.split prod.split)

text \<open>The published ports are the server port and the declared positive ports of the first
  container, in increasing order and each once; the server port is the requested one or, when none is
  requested, the default.\<close>

theorem MapPodSpec_ports:
  assumes "MapPodSpec ps mt d = Inr (cs, ws)"
  shows "sorted (csRuntimePorts cs) \<and> distinct (csRuntimePorts cs) \<and>
    set (csRuntimePorts cs) = insert (csServerPort cs) {p \<in> set (cPorts (hd (psContainers ps))). p > 0} \<and>
    csServerPort cs = (if mmServerPort mt = 0 then d else mmServerPort mt)"
proof -
  from assms obtain c others where "psContainers ps = c # others" "csRuntimePorts cs = mapPorts (csServerPort cs) (cPorts c)"
    "csServerPort cs = (if mmServerPort mt = 0 then d else mmServerPort mt)" by (rule MapPodSpec_ok)
  moreover have "sorted (mapPorts p ports)" "distinct (mapPorts p ports)" "set (mapPorts p ports) = insert p {q \<in> set ports. q > 0}" for p ports
    by (auto simp: mapPorts_def simp del: remdups.simps)
  ultimately show ?thesis by simp
qed

definition sample_container :: Container where
  "sample_container = \<lparr>cName = ''main'', cImage = ''img'', cCommand = [], cArgs = [], cWorkingDir = '''', cImagePullPolicy = '''',
     cEnv = [], cPorts = [9000, 0, 80, 9000], cVolumeMounts = [\<lparr>vmName = ''data'', vmMountPath = ''/data'', vmReadOnly = False, vmSubPath = ''''\<rparr>],
     cSecurityContext = None, cLimits = [''cpu'' \<mapsto> \<lparr>qMilliValue = 1500, qValue = 2\<rparr>]\<rparr>"

definition sample_pod :: PodSpec where
  "sample_pod = \<lparr>psContainers = [sample_container],
     psVolumes = [\<lparr>volName = ''data'', volPVC = Some \<lparr>pvcClaimName = ''pvc'', pvcReadOnly = True\<rparr>, volEmptyDir = None\<rparr>],
     psSecurityContext = None, psDNSPolicy = '''', psDNSConfig = None, psAutomountServiceAccountToken = None\<rparr>"

definition sample_mapping :: MappingMeta where
  "sample_mapping = \<lparr>mmNamespace = ''ns'', mmSandboxName = ''sb'', mmUID = ''u'', mmServerPort = 0, mmExtraLabels = Map.empty, mmInjectRuntime = False\<rparr>"

lemma sample_mapped: "\<exists>cs ws. MapPodSpec sample_pod sample_mapping 8888 = Inr (cs, ws)"
  by (rule MapPodSpec_total [of _ sample_container "[]"]) (simp_all add: sample_pod_def privileged_def sample_container_def)

theorem MapPodSpec_ports_witness:
  "\<exists>cs ws. MapPodSpec sample_pod sample_mapping 8888 = Inr (cs, ws) \<and> set (csRuntimePorts cs) = {80, 8888, 9000}"
proof -
  obtain cs ws where m: "MapPodSpec sample_pod sample_mapping 8888 = Inr (cs, ws)" using sample_mapped by blast
  from MapPodSpec_ports [OF m] m show ?thesis
    by (auto simp: sample_pod_def sample_container_def sample_mapping_def)
qed

text \<open>Every volume of the container spec comes from a claim named by the pod: a mount that is not
  a tmpfs mounts the docker volume of a nonempty claim of a declared volume, at the mount path asked for,
  read-only whenever the mount or the claim says so. No mount is dropped silently: if a volume mount has
  no counterpart, there is a warning.\<close>

theorem MapPodSpec_mounts:
  assumes "MapPodSpec ps mt d = Inr (cs, ws)"
  shows "(\<forall>m \<in> set (csMounts cs). mTmpfs m \<or>
      (\<exists>vm \<in> set (cVolumeMounts (hd (psContainers ps))). \<exists>vol \<in> set (psVolumes ps). \<exists>pvc.
        volName vol = vmName vm \<and> volPVC vol = Some pvc \<and> pvcClaimName pvc \<noteq> '''' \<and>
        m = mountPVC (mmNamespace mt) vm pvc \<and> mVolumeName m = VolumeName (mmNamespace mt) (pvcClaimName pvc))) \<and>
    length (cVolumeMounts (hd (psContainers ps))) \<le> length (csMounts cs) + length ws"
proof (intro conjI ballI)
  from assms obtain c others w1 where c: "psContainers ps = c # others"
    and ms: "csMounts cs = fst (mapMounts (mmNamespace mt) (volByName (psVolumes ps)) (cVolumeMounts c))"
      "ws = w1 @ snd (mapMounts (mmNamespace mt) (volByName (psVolumes ps)) (cVolumeMounts c))" by (blast elim: MapPodSpec_ok)
  show "length (cVolumeMounts (hd (psContainers ps))) \<le> length (csMounts cs) + length ws"
    using mapMounts_accounted [of "cVolumeMounts c" "mmNamespace mt" "volByName (psVolumes ps)"] c ms by simp
  fix m assume m: "m \<in> set (csMounts cs)"
  from ms m obtain vm where vm: "vm \<in> set (cVolumeMounts c)" "m \<in> set (fst (mapMount (mmNamespace mt) (volByName (psVolumes ps)) vm))"
    by (auto simp: mapMounts_def)
  show "mTmpfs m \<or> (\<exists>vm \<in> set (cVolumeMounts (hd (psContainers ps))). \<exists>vol \<in> set (psVolumes ps). \<exists>pvc.
        volName vol = vmName vm \<and> volPVC vol = Some pvc \<and> pvcClaimName pvc \<noteq> '''' \<and>
        m = mountPVC (mmNamespace mt) vm pvc \<and> mVolumeName m = VolumeName (mmNamespace mt) (pvcClaimName pvc))"
  proof (cases "mTmpfs m")
    case False
    with vm(2) obtain vol pvc where "find (\<lambda>v. volName v = vmName vm) (rev (psVolumes ps)) = Some vol" "volPVC vol = Some pvc"
      "pvcClaimName pvc \<noteq> ''''" "m = mountPVC (mmNamespace mt) vm pvc"
      by (auto simp: mapMount_def Let_def volByName_spec mountTmpfs_def split: option.splits if_splits)
    moreover from this(1) have "vol \<in> set (psVolumes ps)" "volName vol = vmName vm"
      by (auto dest: find_SomeD)
    ultimately show ?thesis using c vm(1) by (auto simp: mountPVC_def)
  qed simp
qed

theorem MapPodSpec_mounts_witness:
  "\<exists>cs ws m. MapPodSpec sample_pod sample_mapping 8888 = Inr (cs, ws) \<and> csMounts cs = [m] \<and> mVolumeName m = VolumeName ''ns'' ''pvc''"
proof -
  obtain cs ws where m: "MapPodSpec sample_pod sample_mapping 8888 = Inr (cs, ws)" using sample_mapped by blast
  then have "csMounts cs = fst (mapMounts ''ns'' (volByName (psVolumes sample_pod)) (cVolumeMounts sample_container))"
    by (rule MapPodSpec_ok) (simp add: sample_pod_def sample_mapping_def)
  then have ms: "\<exists>m. csMounts cs = [m] \<and> \<not> mTmpfs m"
    by (simp add: sample_pod_def sample_container_def mapMounts_def mapMount_def volByName_def mountPVC_def)
  then show ?thesis
    using MapPodSpec_mounts [OF m] m by (auto simp: sample_pod_def sample_mapping_def)
qed



section \<open>The in-memory driver\<close>

text \<open>The in-memory driver keeps the driver's contract: the container it creates for a sandbox is
  the one it then reports, running and labelled with the sandbox's identity; removing it by its id
  makes it unknown; and neither operation touches a volume.\<close>

theorem fake_lifecycle:
  assumes "fake_good f" "fake_Create cs f = (f1, Inr c)" "fake_Remove (ciID c) f1 = (f2, e)"
  shows "fake_Inspect (csNamespace cs) (csSandboxName cs) f1 = Inr c \<and> ciState c = ''running'' \<and>
    ci_Namespace c = csNamespace cs \<and> ci_Sandbox c = csSandboxName cs \<and> ci_UID c = csUID cs \<and>
    fake_Inspect (csNamespace cs) (csSandboxName cs) f2 = Inl ErrNotFound \<and>
    (\<forall>v. fake_has_volume f2 v = fake_has_volume f v) \<and> fake_good f2"
proof -
  have e: "e = None" using assms(3) by (simp add: fake_Remove_def)
  have g1: "fake_good f1" using fake_Create_keeps(1) [OF assms(1), of cs] assms(2) by simp
  have i1: "fake_Inspect (csNamespace cs) (csSandboxName cs) f1 = Inr c"
    using fake_Create_keeps(2) [OF assms(2)] by simp
  have i2: "fake_Inspect (csNamespace cs) (csSandboxName cs) f2 = Inl ErrNotFound"
    using fake.inspect_gone [OF g1, of "csNamespace cs" "csSandboxName cs" c f2] i1 assms(3) e by simp
  have v: "fake_has_volume f2 v = fake_has_volume f v" for v
    using fake_Create_keeps(3) [of cs f v] fake.volume_container(2) [OF g1, of "ciID c" v] assms(2,3) by simp
  have "fake_good f2" using fake.remove_good [OF g1, of "ciID c"] assms(3) by simp
  moreover have "ciState c = ''running'' \<and> ci_Namespace c = csNamespace cs \<and> ci_Sandbox c = csSandboxName cs \<and> ci_UID c = csUID cs"
    using assms(2)
    by (auto simp: fake_Create_def Let_def ci_Namespace_def ci_Sandbox_def ci_UID_def map_get_def label_defs
        split: option.splits prod.splits)
  ultimately show ?thesis using i1 i2 v by simp
qed

theorem fake_lifecycle_witness:
  "\<exists>cs ws f1 c f2 e. MapPodSpec sample_pod sample_mapping 8888 = Inr (cs, ws) \<and> fake_Create cs NewFakeDriver = (f1, Inr c) \<and>
     fake_Remove (ciID c) f1 = (f2, e) \<and> fake_Inspect (csNamespace cs) (csSandboxName cs) f2 = Inl ErrNotFound"
proof -
  obtain cs ws where m: "MapPodSpec sample_pod sample_mapping 8888 = Inr (cs, ws)" using sample_mapped by blast
  obtain f1 c where c: "fake_Create cs NewFakeDriver = (f1, Inr c)" using fake_create_total by blast
  obtain f2 e where r: "fake_Remove (ciID c) f1 = (f2, e)" by fastforce
  from fake_lifecycle [OF NewFakeDriver_good c r] m c r show ?thesis by blast
qed

lemma fakePorts_spec:
  assumes "fakePorts ps m next = (m', next')" "inj_on m (dom m)" "\<forall>p h. m p = Some h \<longrightarrow> h < next"
  shows "inj_on m' (dom m')" "dom m' = dom m \<union> set ps" "\<forall>p h. m' p = Some h \<longrightarrow> h < next'"
proof -
  have "inj_on m' (dom m') \<and> dom m' = dom m \<union> set ps \<and> (\<forall>p h. m' p = Some h \<longrightarrow> h < next')"
    using assms
  proof (induction ps m "next" rule: fakePorts.induct)
    case (2 p ps m nxt)
    show ?case
    proof (cases "m p = None")
      case True
      have lt: "\<forall>q h. (m(p \<mapsto> nxt)) q = Some h \<longrightarrow> h < nxt + 1"
      proof (intro allI impI)
        fix q h assume "(m(p \<mapsto> nxt)) q = Some h"
        moreover have "m q = Some h \<Longrightarrow> h < nxt" using "2.prems"(3) by blast
        ultimately show "h < nxt + 1" by (cases "q = p") auto
      qed
      have "inj_on (m(p \<mapsto> nxt)) (dom (m(p \<mapsto> nxt)))"
        using "2.prems"(2,3) by (fastforce simp: inj_on_def)
      moreover have "fakePorts ps (m(p \<mapsto> nxt)) (nxt + 1) = (m', next')" using "2.prems"(1) True by simp
      ultimately have "inj_on m' (dom m') \<and> dom m' = dom (m(p \<mapsto> nxt)) \<union> set ps \<and> (\<forall>p h. m' p = Some h \<longrightarrow> h < next')"
        using "2.IH"(1) [OF True] lt by blast
      moreover have "dom (m(p \<mapsto> nxt)) \<union> set ps = dom m \<union> set (p # ps)" by auto
      ultimately show ?thesis by (metis (no_types))
    next
      case False
      then have "fakePorts ps m nxt = (m', next')" using "2.prems"(1) by (simp del: not_None_eq)
      from "2.IH"(2) [OF False this "2.prems"(2,3)] show ?thesis using False by auto
    qed
  qed simp
  then show "inj_on m' (dom m')" "dom m' = dom m \<union> set ps" "\<forall>p h. m' p = Some h \<longrightarrow> h < next'" by blast+
qed

text \<open>Every port of the spec, the server port included, is published on a host port of its own.\<close>

lemma fake_ports_published:
  assumes "fake_Create cs f = (f1, Inr c)"
  shows "dom (ciPortMap c) = insert (csServerPort cs) (set (csRuntimePorts cs)) \<and> inj_on (ciPortMap c) (dom (ciPortMap c))"
proof -
  obtain pm nxt where p: "fakePorts (csRuntimePorts cs) [csServerPort cs \<mapsto> fdNextPort f] (fdNextPort f + 1) = (pm, nxt)" by fastforce
  then have "ciPortMap c = pm" using assms by (auto simp: fake_Create_def Let_def split: option.splits)
  moreover have "inj_on pm (dom pm)" "dom pm = insert (csServerPort cs) (set (csRuntimePorts cs))"
    using fakePorts_spec [OF p] by (auto split: if_splits)
  ultimately show ?thesis by simp
qed

text \<open>The docker volume of a claim is named by joining namespace and claim with a dash, which does
  not tell them apart: claims of different namespaces can share one volume, so that deleting one of them
  removes the data of the other.\<close>

theorem volume_names_collide:
  "(ns @ ''-'' @ x, c) \<noteq> (ns, x @ ''-'' @ c) \<and> VolumeName (ns @ ''-'' @ x) c = VolumeName ns (x @ ''-'' @ c) \<and>
   \<not> fake_has_volume (fst (fake_RemoveVolume (VolumeName (ns @ ''-'' @ x) c)
       (fst (fake_EnsureVolume \<lparr>vsName = VolumeName ns (x @ ''-'' @ c), vsNamespace = ns, vsPVCName = x @ ''-'' @ c, vsLabels = Map.empty\<rparr> f))))
     (VolumeName ns (x @ ''-'' @ c))"
  by (auto simp: fake_EnsureVolume_def fake_RemoveVolume_def fake_has_volume_def VolumeName_def)

end

