(* ===== verification/Runtime.thy ===== *)
theory Runtime
  imports Prelude
begin

text \<open>
  \<^verbatim>\<open>runtime/\<close>: the HTTP server inside a sandbox container. Tokenizing a command line, resolving a path
  under the root, and the handlers, over the operating system's operations as a parameter.
  \<^verbatim>\<open>filepath.Clean\<close> and \<^verbatim>\<open>filepath.Join\<close> are the standard library's, for rooted paths.
\<close>

section \<open>Splitting a command line\<close>

text \<open>The loop of \<^verbatim>\<open>splitArgs\<close> with its variables: the two quote flags, whether a token has been
  started, the token so far and the tokens before it.\<close>

definition flushToken :: "bool \<Rightarrow> string \<Rightarrow> string list \<Rightarrow> string list" where
  "flushToken hasToken cur args = (if hasToken then args @ [cur] else args)"

definition escapable :: "char \<Rightarrow> bool" where
  "escapable c \<longleftrightarrow> c \<in> {CHR 0x22, CHR 0x5C, CHR ''$'', CHR 0x60}"

definition is_blank :: "char \<Rightarrow> bool" where
  "is_blank c \<longleftrightarrow> c \<in> {CHR '' '', CHR 0x09, CHR 0x0A, CHR 0x0D}"

fun splitLoop :: "string \<Rightarrow> bool \<Rightarrow> bool \<Rightarrow> bool \<Rightarrow> string \<Rightarrow> string list \<Rightarrow> string + string list" where
  "splitLoop [] inSingle inDouble hasToken cur args =
     (if inSingle \<or> inDouble then Inl ''unbalanced quotes'' else Inr (flushToken hasToken cur args))"
| "splitLoop (c # s) inSingle inDouble hasToken cur args =
     (if inSingle then
        (if c = CHR 0x27 then splitLoop s False inDouble hasToken cur args
         else splitLoop s inSingle inDouble hasToken (cur @ [c]) args)
      else if inDouble then
        (if c = CHR 0x22 then splitLoop s inSingle False hasToken cur args
         else (case s of
             d # s' \<Rightarrow> (if c = CHR 0x5C \<and> escapable d then splitLoop s' inSingle inDouble hasToken (cur @ [d]) args
                        else splitLoop s inSingle inDouble hasToken (cur @ [c]) args)
           | [] \<Rightarrow> splitLoop s inSingle inDouble hasToken (cur @ [c]) args))
      else if c = CHR 0x27 then splitLoop s True inDouble True cur args
      else if c = CHR 0x22 then splitLoop s inSingle True True cur args
      else if c = CHR 0x5C then
        (case s of d # s' \<Rightarrow> splitLoop s' inSingle inDouble True (cur @ [d]) args
         | [] \<Rightarrow> splitLoop s inSingle inDouble hasToken cur args)
      else if is_blank c then splitLoop s inSingle inDouble False (if hasToken then [] else cur) (flushToken hasToken cur args)
      else splitLoop s inSingle inDouble True (cur @ [c]) args)"

definition splitArgs :: "string \<Rightarrow> string + string list" where
  "splitArgs s = splitLoop s False False False [] []"

section \<open>Paths\<close>

fun split_slash :: "string \<Rightarrow> string \<Rightarrow> string list" where
  "split_slash [] acc = [acc]"
| "split_slash (c # cs) acc = (if c = CHR ''/'' then acc # split_slash cs [] else split_slash cs (acc @ [c]))"

definition path_comps :: "string \<Rightarrow> string list" where
  "path_comps p = split_slash p []"

text \<open>\<^verbatim>\<open>Clean\<close> of a rooted path, on its components: empty and \<^verbatim>\<open>.\<close> components disappear, \<^verbatim>\<open>..\<close> removes the
  component before it and stops at the root.\<close>

fun clean_comps :: "string list \<Rightarrow> string list \<Rightarrow> string list" where
  "clean_comps [] out = out"
| "clean_comps (c # cs) out =
     (if c = '''' \<or> c = ''.'' then clean_comps cs out
      else if c = ''..'' then clean_comps cs (butlast out)
      else clean_comps cs (out @ [c]))"

definition join_comps :: "string list \<Rightarrow> string" where
  "join_comps cs = (if cs = [] then ''/'' else concat (map (\<lambda>c. CHR ''/'' # c) cs))"

definition CleanRooted :: "string \<Rightarrow> string" where
  "CleanRooted p = join_comps (clean_comps (path_comps p) [])"

definition JoinRooted :: "string \<Rightarrow> string \<Rightarrow> string" where
  "JoinRooted base p = CleanRooted (if p = '''' then base else base @ ''/'' @ p)"

text \<open>\<open>absRoot\<close> is the result of \<^verbatim>\<open>filepath.Abs\<close> on the server's root.\<close>

definition safePath :: "string + string \<Rightarrow> string \<Rightarrow> string + string" where
  "safePath absRoot p = (case absRoot of
      Inl err \<Rightarrow> Inl err
    | Inr base \<Rightarrow>
       (let clean = TrimLeft p (CHR ''/'');
            full = JoinRooted base clean
        in if full \<noteq> base \<and> \<not> HasPrefix full (base @ ''/'') then Inl ''access denied: path escapes root''
           else Inr full))"

section \<open>The handlers\<close>

text \<open>The operating system: the calls the handlers make on a file system of type \<open>'fs\<close>. \<open>osStat\<close> says
  whether a path is a directory; a run of a command ends well, with an exit code, or not at all.\<close>

datatype runResult = RunOK | RunExit int | RunSpawnError string

record fileEntry =
  feName :: string
  feSize :: int
  feIsDir :: bool
  feModTimeNanos :: int

record 'fs oslib =
  osStat :: "string \<Rightarrow> 'fs \<Rightarrow> string + bool"
  osReadFile :: "string \<Rightarrow> 'fs \<Rightarrow> string + bytes"
  osReadDir :: "string \<Rightarrow> 'fs \<Rightarrow> string + fileEntry option list"
  osMkdirAll :: "string \<Rightarrow> 'fs \<Rightarrow> 'fs \<times> string option"
  osCreate :: "string \<Rightarrow> 'fs \<Rightarrow> 'fs \<times> string option"
  osWrite :: "string \<Rightarrow> bytes \<Rightarrow> 'fs \<Rightarrow> 'fs \<times> string option"
  osRun :: "string \<Rightarrow> string list \<Rightarrow> 'fs \<Rightarrow> 'fs \<times> string \<times> string \<times> runResult"

datatype rbody =
    Health
  | Executed string string int
  | Message string
  | Content bytes
  | Entries "fileEntry list"
  | Exists string bool

record rresponse =
  rcode :: int
  rbody :: rbody

definition respond :: "int \<Rightarrow> rbody \<Rightarrow> rresponse" where
  "respond c b = \<lparr>rcode = c, rbody = b\<rparr>"

text \<open>The request body is decoded by the JSON library: the argument is the decoded command.\<close>

definition execute :: "'fs oslib \<Rightarrow> string \<Rightarrow> string + string \<Rightarrow> 'fs \<Rightarrow> 'fs \<times> rresponse" where
  "execute OS root req fs = (case req of
      Inl err \<Rightarrow> (fs, respond 200 (Executed '''' (''Failed to decode request: '' @ err) 1))
    | Inr command \<Rightarrow>
       (case splitArgs command of
          Inl err \<Rightarrow> (fs, respond 200 (Executed '''' (''Failed to execute command: '' @ err) 1))
        | Inr [] \<Rightarrow> (fs, respond 200 (Executed '''' ''Failed to execute command: empty command'' 1))
        | Inr (a # args) \<Rightarrow>
           (case osRun OS root (a # args) fs of
              (fs', out, err, RunOK) \<Rightarrow> (fs', respond 200 (Executed out err 0))
            | (fs', out, err, RunExit c) \<Rightarrow> (fs', respond 200 (Executed out err c))
            | (fs', out, err, RunSpawnError e) \<Rightarrow> (fs', respond 200 (Executed out (''Failed to execute command: '' @ e) 1)))))"

text \<open>\<^verbatim>\<open>filepath.Dir\<close> of a clean rooted path.\<close>

definition DirRooted :: "string \<Rightarrow> string" where
  "DirRooted p = join_comps (butlast (clean_comps (path_comps p) []))"

datatype uploadForm = BadForm string | MissingFile | FormFile string bytes

definition upload :: "'fs oslib \<Rightarrow> string + string \<Rightarrow> uploadForm \<Rightarrow> 'fs \<Rightarrow> 'fs \<times> rresponse" where
  "upload OS absRoot form fs = (case form of
      BadForm err \<Rightarrow> (fs, respond 400 (Message (''invalid multipart form: '' @ err)))
    | MissingFile \<Rightarrow> (fs, respond 400 (Message ''missing file field''))
    | FormFile filename content \<Rightarrow>
       (case safePath absRoot filename of
          Inl _ \<Rightarrow> (fs, respond 403 (Message ''Access denied''))
        | Inr dest \<Rightarrow>
           (case osMkdirAll OS (DirRooted dest) fs of
              (fs1, Some err) \<Rightarrow> (fs1, respond 500 (Message (''File upload failed: '' @ err)))
            | (fs1, None) \<Rightarrow>
               (case osCreate OS dest fs1 of
                  (fs2, Some err) \<Rightarrow> (fs2, respond 500 (Message (''File upload failed: '' @ err)))
                | (fs2, None) \<Rightarrow>
                   (case osWrite OS dest content fs2 of
                      (fs3, Some err) \<Rightarrow> (fs3, respond 500 (Message (''File upload failed: '' @ err)))
                    | (fs3, None) \<Rightarrow> (fs3, respond 200 (Message (''File '' @ [CHR 0x27] @ filename @ [CHR 0x27] @ '' uploaded successfully.'')))))))) "

definition download :: "'fs oslib \<Rightarrow> string + string \<Rightarrow> string \<Rightarrow> 'fs \<Rightarrow> rresponse" where
  "download OS absRoot path fs = (case safePath absRoot path of
      Inl _ \<Rightarrow> respond 403 (Message ''Access denied'')
    | Inr full \<Rightarrow>
       (case osStat OS full fs of
          Inl _ \<Rightarrow> respond 404 (Message ''File not found'')
        | Inr isDir \<Rightarrow>
           (if isDir then respond 404 (Message ''File not found'')
            else case osReadFile OS full fs of
                Inl _ \<Rightarrow> respond 404 (Message ''File not found'')
              | Inr bs \<Rightarrow> respond 200 (Content bs))))"

definition list_handler :: "'fs oslib \<Rightarrow> string + string \<Rightarrow> string \<Rightarrow> 'fs \<Rightarrow> rresponse" where
  "list_handler OS absRoot path fs = (case safePath absRoot path of
      Inl _ \<Rightarrow> respond 403 (Message ''Access denied'')
    | Inr full \<Rightarrow>
       (case osStat OS full fs of
          Inl _ \<Rightarrow> respond 404 (Message ''Path is not a directory'')
        | Inr isDir \<Rightarrow>
           (if \<not> isDir then respond 404 (Message ''Path is not a directory'')
            else case osReadDir OS full fs of
                Inl err \<Rightarrow> respond 500 (Message (''List files failed: '' @ err))
              | Inr dirents \<Rightarrow> respond 200 (Entries (List.map_filter id dirents)))))"

definition exists_handler :: "'fs oslib \<Rightarrow> string + string \<Rightarrow> string \<Rightarrow> 'fs \<Rightarrow> rresponse" where
  "exists_handler OS absRoot path fs = (case safePath absRoot path of
      Inl _ \<Rightarrow> respond 403 (Message ''Access denied'')
    | Inr full \<Rightarrow> respond 200 (Exists path (case osStat OS full fs of Inl _ \<Rightarrow> False | Inr _ \<Rightarrow> True)))"

definition health :: rresponse where
  "health = respond 200 Health"

section \<open>Command lines\<close>

text \<open>Quoting as a POSIX shell client does: in single quotes, a single quote as \<^verbatim>\<open>'\''\<close>.\<close>

definition quoteBody :: "string \<Rightarrow> string" where
  "quoteBody s = concat (map (\<lambda>c. if c = CHR 0x27 then [CHR 0x27, CHR 0x5C, CHR 0x27, CHR 0x27] else [c]) s)"

definition shellQuote :: "string \<Rightarrow> string" where
  "shellQuote s = [CHR 0x27] @ quoteBody s @ [CHR 0x27]"

fun joinQuoted :: "string list \<Rightarrow> string" where
  "joinQuoted [] = []"
| "joinQuoted [a] = shellQuote a"
| "joinQuoted (a # as) = shellQuote a @ '' '' @ joinQuoted as"

lemma splitLoop_quoteBody:
  "splitLoop (quoteBody s @ CHR 0x27 # rest) True False True cur args = splitLoop rest False False True (cur @ s) args"
proof (induction s arbitrary: cur)
  case (Cons c s)
  show ?case
  proof (cases "c = CHR 0x27")
    case True
    then have "quoteBody (c # s) = CHR 0x27 # CHR 0x5C # CHR 0x27 # CHR 0x27 # quoteBody s" by (simp add: quoteBody_def)
    with Cons [of "cur @ [c]"] True show ?thesis by simp
  next
    case False
    then have "quoteBody (c # s) = c # quoteBody s" by (simp add: quoteBody_def)
    with Cons [of "cur @ [c]"] False show ?thesis by simp
  qed
qed (simp add: quoteBody_def)

lemma splitLoop_shellQuote:
  "splitLoop (shellQuote s @ rest) False False False [] args = splitLoop rest False False True s args"
  using splitLoop_quoteBody [of s rest "[]" args] by (simp add: shellQuote_def)

lemma splitLoop_joinQuoted: "splitLoop (joinQuoted as) False False False [] args = Inr (args @ as)"
proof (induction as arbitrary: args rule: joinQuoted.induct)
  case 1
  show ?case by (simp add: flushToken_def)
next
  case (2 a)
  show ?case using splitLoop_shellQuote [of a "[]" args] by (simp add: flushToken_def)
next
  case (3 a b bs)
  have "splitLoop (joinQuoted (a # b # bs)) False False False [] args =
      splitLoop ('' '' @ joinQuoted (b # bs)) False False True a args"
    by (simp add: splitLoop_shellQuote)
  also have "\<dots> = splitLoop (joinQuoted (b # bs)) False False False [] (args @ [a])"
    by (simp add: is_blank_def flushToken_def)
  finally show ?case using 3 [of "args @ [a]"] by simp
qed

section \<open>Paths\<close>

lemma split_slash_append: "split_slash (xs @ CHR ''/'' # ys) acc = split_slash xs acc @ split_slash ys []"
  by (induction xs arbitrary: acc) auto

lemma split_slash_plain: "CHR ''/'' \<notin> set c \<Longrightarrow> split_slash c acc = [acc @ c]"
  by (induction c arbitrary: acc) auto

lemma split_slash_no_slash: "CHR ''/'' \<notin> set acc \<Longrightarrow> c \<in> set (split_slash s acc) \<Longrightarrow> CHR ''/'' \<notin> set c"
proof (induction s arbitrary: acc)
  case (Cons d s)
  show ?case
  proof (cases "d = CHR ''/''")
    case True
    then show ?thesis using Cons.prems Cons.IH [of "[]"] by auto
  next
    case False
    then show ?thesis using Cons.prems Cons.IH [of "acc @ [d]"] by auto
  qed
qed simp

definition plain_comp :: "string \<Rightarrow> bool" where
  "plain_comp c \<longleftrightarrow> CHR ''/'' \<notin> set c \<and> c \<noteq> '''' \<and> c \<noteq> ''.'' \<and> c \<noteq> ''..''"

lemma clean_comps_plain:
  "\<forall>c \<in> set cs. CHR ''/'' \<notin> set c \<Longrightarrow> \<forall>c \<in> set out. plain_comp c \<Longrightarrow> \<forall>c \<in> set (clean_comps cs out). plain_comp c"
proof (induction cs arbitrary: out)
  case (Cons c cs)
  let ?out = "if c = '''' \<or> c = ''.'' then out else if c = ''..'' then butlast out else out @ [c]"
  have "\<forall>d \<in> set ?out. plain_comp d"
    using Cons.prems by (auto simp: plain_comp_def dest: in_set_butlastD)
  then have "\<forall>d \<in> set (clean_comps cs ?out). plain_comp d" using Cons.prems(1) by (intro Cons.IH) simp_all
  moreover have "clean_comps (c # cs) out = clean_comps cs ?out" by simp
  ultimately show ?case by (simp only:)
qed simp

lemma clean_comps_append: "clean_comps (as @ bs) out = clean_comps bs (clean_comps as out)"
proof (induction as arbitrary: out)
  case (Cons a as)
  show ?case by (simp add: Cons.IH)
qed simp

lemma clean_comps_id: "\<forall>c \<in> set cs. plain_comp c \<Longrightarrow> clean_comps cs out = out @ cs"
  by (induction cs arbitrary: out) (auto simp: plain_comp_def)

lemma path_comps_join:
  assumes "\<forall>c \<in> set cs. plain_comp c" "cs \<noteq> []"
  shows "path_comps (join_comps cs) = '''' # cs"
proof -
  have "split_slash (concat (map (\<lambda>c. CHR ''/'' # c) cs)) [] = '''' # cs"
    using assms
  proof (induction cs rule: rev_induct)
    case (snoc c cs)
    have c: "split_slash c [] = [c]" using snoc.prems split_slash_plain [of c "[]"] by (simp add: plain_comp_def)
    show ?case
    proof (cases "cs = []")
      case False
      then have "split_slash (concat (map (\<lambda>c. CHR ''/'' # c) cs)) [] = '''' # cs" using snoc by simp
      then show ?thesis using c by (simp add: split_slash_append)
    qed (use c in simp)
  qed simp
  then show ?thesis using assms(2) by (simp add: path_comps_def join_comps_def)
qed

text \<open>The roots \<^verbatim>\<open>filepath.Abs\<close> returns: clean rooted paths, here other than the root directory.\<close>

definition clean_root :: "string \<Rightarrow> string list \<Rightarrow> bool" where
  "clean_root base bs \<longleftrightarrow> base = join_comps bs \<and> bs \<noteq> [] \<and> (\<forall>c \<in> set bs. plain_comp c)"

lemma JoinRooted_comps:
  assumes "clean_root base bs"
  shows "JoinRooted base p = join_comps (clean_comps (path_comps p) bs)"
proof -
  have b: "path_comps base = '''' # bs" "clean_comps bs [] = bs"
    using assms path_comps_join [of bs] clean_comps_id [of bs "[]"] by (auto simp: clean_root_def)
  show ?thesis
  proof (cases "p = ''''")
    case True
    then show ?thesis using b by (simp add: JoinRooted_def CleanRooted_def path_comps_def)
  next
    case False
    have "path_comps (base @ ''/'' @ p) = path_comps base @ path_comps p"
      by (simp add: path_comps_def split_slash_append)
    then show ?thesis using False b by (simp add: JoinRooted_def CleanRooted_def clean_comps_append)
  qed
qed

lemma path_comps_no_slash: "c \<in> set (path_comps p) \<Longrightarrow> CHR ''/'' \<notin> set c"
  using split_slash_no_slash [of "[]" c p] by (simp add: path_comps_def)

text \<open>A path accepted for a root extends it by plain components only.\<close>

lemma safePath_inside:
  assumes "clean_root base bs" "safePath (Inr base) p = Inr full"
  shows "\<exists>cs. full = join_comps (bs @ cs) \<and> (\<forall>c \<in> set cs. plain_comp c)"
proof -
  let ?out = "clean_comps (path_comps (TrimLeft p (CHR ''/''))) bs"
  have full: "full = join_comps ?out" "full = base \<or> HasPrefix full (base @ ''/'')"
    using assms(2) JoinRooted_comps [OF assms(1)] by (auto simp: safePath_def Let_def split: if_splits)
  have bs: "base = join_comps bs" "bs \<noteq> []" "\<forall>c \<in> set bs. plain_comp c" using assms(1) by (simp_all add: clean_root_def)
  have out: "\<forall>c \<in> set ?out. plain_comp c" using bs(3) path_comps_no_slash by (intro clean_comps_plain) auto
  show ?thesis
  proof (cases "full = base")
    case True
    then show ?thesis using bs(1) by (intro exI [of _ "[]"]) simp
  next
    case False
    then obtain r where r: "full = base @ ''/'' @ r" using full(2) by (auto dest!: HasPrefixE)
    have base: "path_comps base = '''' # bs" using path_comps_join [OF bs(3,2)] by (simp add: bs(1))
    have "base \<noteq> ''''" using bs(1,2) by (cases bs) (auto simp: join_comps_def)
    then have "length full > 1" using r by (cases base) auto
    then have ne: "?out \<noteq> []" using full(1) by (auto simp: join_comps_def)
    have "path_comps full = '''' # ?out" using path_comps_join [OF out ne] full(1) by simp
    moreover have "path_comps full = ('''' # bs) @ path_comps r"
      unfolding r using base by (simp add: path_comps_def split_slash_append)
    ultimately have "?out = bs @ path_comps r" by simp
    then show ?thesis using full(1) out by (intro exI [of _ "path_comps r"]) auto
  qed
qed

section \<open>Properties\<close>

text \<open>C33: an argument list quoted for a POSIX shell and joined by blanks is split back into exactly
  that list: every argument reaches the command byte by byte, whatever it contains.\<close>

theorem splitArgs_roundtrip: "splitArgs (joinQuoted as) = Inr as"
  using splitLoop_joinQuoted [of as "[]"] by (simp add: splitArgs_def)

lemma clean_comps_no_dotdot:
  "''..'' \<notin> set cs \<Longrightarrow> clean_comps cs out = out @ filter (\<lambda>c. c \<noteq> '''' \<and> c \<noteq> ''.'') cs"
proof (induction cs arbitrary: out)
  case (Cons c cs)
  then have "c \<noteq> ''..''" "''..'' \<notin> set cs" by auto
  then show ?case using Cons.IH [of out] Cons.IH [of "out @ [c]"] by simp
qed simp

lemma join_comps_append: "bs \<noteq> [] \<Longrightarrow> join_comps (bs @ cs) = join_comps bs @ concat (map (\<lambda>c. CHR ''/'' # c) cs)"
  by (simp add: join_comps_def)

lemma safePath_accepts:
  assumes "clean_root base bs" "''..'' \<notin> set (path_comps (TrimLeft p (CHR ''/'')))"
  shows "\<exists>full. safePath (Inr base) p = Inr full"
proof -
  let ?cs = "filter (\<lambda>c. c \<noteq> '''' \<and> c \<noteq> ''.'') (path_comps (TrimLeft p (CHR ''/'')))"
  have base: "base = join_comps bs" "bs \<noteq> []" using assms(1) by (simp_all add: clean_root_def)
  have full: "JoinRooted base (TrimLeft p (CHR ''/'')) = base @ concat (map (\<lambda>c. CHR ''/'' # c) ?cs)"
    using JoinRooted_comps [OF assms(1)] clean_comps_no_dotdot [OF assms(2), of bs] join_comps_append [OF base(2)] base(1) by simp
  show ?thesis
  proof (cases ?cs)
    case Nil
    then show ?thesis using full by (simp add: safePath_def Let_def)
  next
    case (Cons c cs)
    then have "HasPrefix (JoinRooted base (TrimLeft p (CHR ''/''))) (base @ ''/'')"
      unfolding full by (simp add: HasPrefix_def)
    then show ?thesis by (simp add: safePath_def Let_def)
  qed
qed



text \<open>When the server is rooted at the root directory the containment test compares with a double
  slash, so that every file is refused as an escape.\<close>

theorem safePath_refuses_all_at_slash:
  assumes "JoinRooted ''/'' (TrimLeft p (CHR ''/'')) \<noteq> ''/''"
  shows "safePath (Inr ''/'') p = Inl ''access denied: path escapes root''"
proof -
  let ?out = "clean_comps (path_comps (if TrimLeft p (CHR ''/'') = '''' then ''/'' else ''//'' @ TrimLeft p (CHR ''/''))) []"
  have j: "JoinRooted ''/'' (TrimLeft p (CHR ''/'')) = join_comps ?out" by (simp add: JoinRooted_def CleanRooted_def)
  have out: "\<forall>c \<in> set ?out. plain_comp c" using path_comps_no_slash by (intro clean_comps_plain) auto
  have "\<not> HasPrefix (join_comps ?out) ''//''"
  proof (cases ?out)
    case Nil
    then show ?thesis by (simp add: join_comps_def HasPrefix_def)
  next
    case (Cons c cs)
    then have "c \<noteq> []" "hd c \<noteq> CHR ''/''" using out by (cases c; auto simp: plain_comp_def)+
    then show ?thesis unfolding Cons by (cases c) (auto simp: join_comps_def HasPrefix_def)
  qed
  then show ?thesis using assms j by (simp add: safePath_def Let_def)
qed

theorem safePath_refuses_all_at_slash_witness:
  "safePath (Inr ''/'') ''data.txt'' = Inl ''access denied: path escapes root''"
proof -
  have "JoinRooted ''/'' (TrimLeft ''data.txt'' (CHR ''/'')) \<noteq> ''/''" by code_simp
  then show ?thesis by (rule safePath_refuses_all_at_slash)
qed

text \<open>Two operating systems that agree on everything at or below the root; creating the parent of the
  root is the one thing an upload may do above it (for an empty file name).\<close>

definition inside :: "string list \<Rightarrow> string \<Rightarrow> bool" where
  "inside bs p \<longleftrightarrow> (\<exists>cs. p = join_comps (bs @ cs) \<and> (\<forall>c \<in> set cs. plain_comp c))"

definition same_inside :: "string list \<Rightarrow> 'fs oslib \<Rightarrow> 'fs oslib \<Rightarrow> bool" where
  "same_inside bs A B \<longleftrightarrow> (\<forall>p. inside bs p \<longrightarrow> osStat A p = osStat B p \<and> osReadFile A p = osReadFile B p \<and>
      osReadDir A p = osReadDir B p \<and> osMkdirAll A p = osMkdirAll B p \<and> osCreate A p = osCreate B p \<and> osWrite A p = osWrite B p) \<and>
     osMkdirAll A (join_comps (butlast bs)) = osMkdirAll B (join_comps (butlast bs))"

lemma DirRooted_inside:
  assumes "clean_root base bs" "inside bs p"
  shows "inside bs (DirRooted p) \<or> DirRooted p = join_comps (butlast bs)"
proof -
  obtain cs where p: "p = join_comps (bs @ cs)" "\<forall>c \<in> set cs. plain_comp c" using assms(2) by (auto simp: inside_def)
  have bs: "bs \<noteq> []" "\<forall>c \<in> set (bs @ cs). plain_comp c" using assms(1) p(2) by (auto simp: clean_root_def)
  have "path_comps p = '''' # (bs @ cs)" using path_comps_join [OF bs(2)] bs(1) p(1) by simp
  then have d: "DirRooted p = join_comps (butlast (bs @ cs))" using clean_comps_id [OF bs(2), of "[]"] by (simp add: DirRooted_def)
  show ?thesis
  proof (cases "cs = []")
    case True
    then show ?thesis using d by simp
  next
    case False
    then have "DirRooted p = join_comps (bs @ butlast cs)" using d by (simp add: butlast_append)
    then show ?thesis using p(2) by (auto simp: inside_def dest: in_set_butlastD)
  qed
qed


definition sample_os :: "string \<Rightarrow> unit oslib" where
  "sample_os secret = \<lparr>osStat = (\<lambda>p fs. Inr False), osReadFile = (\<lambda>p fs. if p = ''/etc/passwd'' then Inl secret else Inr []),
     osReadDir = (\<lambda>p fs. Inr []), osMkdirAll = (\<lambda>p fs. (fs, None)), osCreate = (\<lambda>p fs. (fs, None)),
     osWrite = (\<lambda>p bs fs. (fs, None)), osRun = (\<lambda>d as fs. (fs, '''', '''', RunOK))\<rparr>"


end

