(* ===== verification/Convert.thy ===== *)
theory Convert
  imports Types
begin

text \<open>
  The typed agent-sandbox resources and the library that converts between them and unstructured
  objects. A conversion of a whole object is that of its spec and status trees: the metadata of the
  typed object is the metadata of the unstructured one. The converter and the condition helpers of
  apimachinery are parameters; what the program relies on is stated as laws.
\<close>

section \<open>Conditions\<close>

record Condition =
  cdType :: string
  cdStatus :: string
  cdReason :: string
  cdMessage :: string
  cdObservedGeneration :: uint64
  cdLastTransitionTime :: time

text \<open>\<^verbatim>\<open>k8s.io/apimachinery/pkg/api/meta\<close>.\<close>

record condlib =
  SetStatusCondition :: "Condition \<Rightarrow> Condition list \<Rightarrow> Condition list"
  RemoveStatusCondition :: "string \<Rightarrow> Condition list \<Rightarrow> Condition list"
  FindStatusCondition :: "string \<Rightarrow> Condition list \<Rightarrow> Condition option"

definition IsStatusConditionPresentAndEqual :: "condlib \<Rightarrow> Condition list \<Rightarrow> string \<Rightarrow> string \<Rightarrow> bool" where
  "IsStatusConditionPresentAndEqual K conds t st \<longleftrightarrow> (case FindStatusCondition K t conds of None \<Rightarrow> False | Some c \<Rightarrow> cdStatus c = st)"

definition IsStatusConditionTrue :: "condlib \<Rightarrow> Condition list \<Rightarrow> string \<Rightarrow> bool" where
  "IsStatusConditionTrue K conds t \<longleftrightarrow> IsStatusConditionPresentAndEqual K conds t ''True''"

text \<open>Their documented behaviour: finding returns the first condition of the type; setting a condition
  makes it the one found under its type (with the given status, reason, message and generation; the
  transition time moves only when the status changes), removing one makes it absent, and neither
  touches other types.\<close>

definition cond_laws :: "condlib \<Rightarrow> bool" where
  "cond_laws K \<longleftrightarrow>
     (\<forall>t cs. FindStatusCondition K t cs = find (\<lambda>c. cdType c = t) cs) \<and>
     (\<forall>c cs t. FindStatusCondition K t (SetStatusCondition K c cs) =
        (if t = cdType c
         then (case FindStatusCondition K t cs of
             Some old \<Rightarrow> if cdStatus old = cdStatus c then Some (c\<lparr>cdLastTransitionTime := cdLastTransitionTime old\<rparr>) else Some c
           | None \<Rightarrow> Some c)
         else FindStatusCondition K t cs)) \<and>
     (\<forall>t' cs t. FindStatusCondition K t (RemoveStatusCondition K t' cs) = (if t = t' then None else FindStatusCondition K t cs))"

lemma cond_find: "cond_laws K \<Longrightarrow> FindStatusCondition K t cs = find (\<lambda>c. cdType c = t) cs"
  unfolding cond_laws_def by blast

lemma cond_find_set:
  "cond_laws K \<Longrightarrow> FindStatusCondition K t (SetStatusCondition K c cs) =
     (if t = cdType c
      then (case FindStatusCondition K t cs of
          Some old \<Rightarrow> if cdStatus old = cdStatus c then Some (c\<lparr>cdLastTransitionTime := cdLastTransitionTime old\<rparr>) else Some c
        | None \<Rightarrow> Some c)
      else FindStatusCondition K t cs)"
  unfolding cond_laws_def by blast

lemma cond_find_remove:
  "cond_laws K \<Longrightarrow> FindStatusCondition K t (RemoveStatusCondition K t' cs) = (if t = t' then None else FindStatusCondition K t cs)"
  unfolding cond_laws_def by blast

lemma cond_set:
  assumes "cond_laws K"
  shows "IsStatusConditionPresentAndEqual K (SetStatusCondition K c cs) t st \<longleftrightarrow>
    (if t = cdType c then st = cdStatus c else IsStatusConditionPresentAndEqual K cs t st)"
  by (auto simp: IsStatusConditionPresentAndEqual_def cond_find_set [OF assms] split: option.splits if_splits)

lemma cond_remove:
  "cond_laws K \<Longrightarrow> IsStatusConditionPresentAndEqual K (RemoveStatusCondition K t' cs) t st \<longleftrightarrow>
    t \<noteq> t' \<and> IsStatusConditionPresentAndEqual K cs t st"
  by (simp add: IsStatusConditionPresentAndEqual_def cond_find_remove)

section \<open>Typed resources\<close>

record ('v) VCT =
  vctName :: string
  vctLabels :: "string \<rightharpoonup> string"
  vctAnnotations :: "string \<rightharpoonup> string"
  vctSpec :: 'v

record ('v) SandboxBlueprint =
  bpPodLabels :: "string \<rightharpoonup> string"
  bpPodAnnotations :: "string \<rightharpoonup> string"
  bpPodSpec :: PodSpec
  bpVolumeClaimTemplates :: "'v VCT list"
  bpService :: "bool option"

datatype OperatingMode = ModeRunning | ModeSuspended

datatype ShutdownPolicy = ShutdownRetain | ShutdownDelete | ShutdownDeleteForeground | ShutdownUnset

record ('v) SandboxSpec =
  sbBlueprint :: "'v SandboxBlueprint"
  sbOperatingMode :: OperatingMode
  sbShutdownTime :: "time option"
  sbShutdownPolicy :: "ShutdownPolicy option"

record SandboxStatus =
  stConditions :: "Condition list"
  stPodIPs :: "string list"
  stNodeName :: string
  stLabelSelector :: string
  stService :: string
  stServiceFQDN :: string

definition empty_SandboxStatus :: SandboxStatus where
  "empty_SandboxStatus = \<lparr>stConditions = [], stPodIPs = [], stNodeName = '''', stLabelSelector = '''', stService = '''', stServiceFQDN = ''''\<rparr>"

record ClaimEnvVar =
  ceContainerName :: string
  ceName :: string
  ceValue :: string

record PodMetadata =
  pmLabels :: "string \<rightharpoonup> string"
  pmAnnotations :: "string \<rightharpoonup> string"

record Lifecycle =
  lcShutdownTime :: "time option"
  lcTTLSecondsAfterFinished :: "int option"
  lcShutdownPolicy :: ShutdownPolicy

record ('v) ClaimSpec =
  clWarmPoolRef :: string
  clEnv :: "ClaimEnvVar list"
  clVolumeClaimTemplates :: "'v VCT list"
  clAdditionalPodMetadata :: PodMetadata
  clLifecycle :: "Lifecycle option"

record ClaimStatus =
  ksConditions :: "Condition list"
  ksSandboxName :: string
  ksPodIPs :: "string list"

datatype NetworkPolicyManagement = NPUnset | NPManaged | NPUnmanaged

text \<open>The injection policies are strings in the API: the two the program tests for, and any other.\<close>

datatype InjectionPolicy = PolicyAllowed | PolicyOverrides | PolicyOther string

fun policy_string :: "InjectionPolicy \<Rightarrow> string" where
  "policy_string PolicyAllowed = ''Allowed''"
| "policy_string PolicyOverrides = ''Overrides''"
| "policy_string (PolicyOther s) = s"

record ('v) TemplateSpec =
  tsBlueprint :: "'v SandboxBlueprint"
  tsNetworkPolicy :: bool
  tsNetworkPolicyManagement :: NetworkPolicyManagement
  tsEnvVarsInjectionPolicy :: InjectionPolicy
  tsVolumeClaimTemplatesPolicy :: InjectionPolicy

record WarmPoolSpec =
  wpReplicas :: "int option"
  wpTemplateRef :: string

record WarmPoolStatus =
  wsReplicas :: int
  wsReadyReplicas :: int
  wsSelector :: string

record ('v) PVCStatus =
  pvPhase :: string
  pvMirrored :: "'v option"

text \<open>The converter, and the nested accessors of \<^verbatim>\<open>unstructured\<close>. A decoder sees a missing tree as
  \<^const>\<open>None\<close>. Where only the spec is used, the decoder still sees the status and may fail on it.
  \<open>partialSandboxStatus\<close> is what a failed conversion of a sandbox leaves in the status of
  the target, for the one caller that ignores the error;
  \<open>sandboxZeroStatus\<close> and \<open>pvcZeroStatus\<close> are the trees it writes for a zero status. \<open>nestedConditions\<close> is \<^verbatim>\<open>NestedSlice(obj, "status", "conditions")\<close>: absent, or a list
  whose elements are maps (their type and status entries, if strings) or something else.\<close>

record ('j, 'v) convlib =
  decSandboxSpec :: "'j option \<Rightarrow> string + 'v SandboxSpec"
  encSandboxSpec :: "'v SandboxSpec \<Rightarrow> string + 'j"
  decSandboxStatus :: "'j option \<Rightarrow> string + SandboxStatus"
  encSandboxStatus :: "SandboxStatus \<Rightarrow> string + 'j"
  sandboxZeroStatus :: "'j option"
  partialSandboxStatus :: "'j option \<Rightarrow> 'j option \<Rightarrow> SandboxStatus"
  decClaimSpec :: "'j option \<Rightarrow> string + 'v ClaimSpec"
  decClaimStatus :: "'j option \<Rightarrow> string + ClaimStatus"
  encClaimStatus :: "ClaimStatus \<Rightarrow> string + 'j"
  decTemplateSpec :: "'j option \<Rightarrow> string + 'v TemplateSpec"
  decWarmPool :: "'j option \<Rightarrow> 'j option \<Rightarrow> string + WarmPoolSpec"
  encWarmPoolStatus :: "WarmPoolStatus \<Rightarrow> string + 'j"
  decPVC :: "'j option \<Rightarrow> 'j option \<Rightarrow> string + 'v"
  encPVCSpec :: "'v \<Rightarrow> string + 'j"
  pvcZeroStatus :: "'j option"
  encPVCStatus :: "'v PVCStatus \<Rightarrow> string + 'j"
  nestedConditions :: "'j option \<Rightarrow> (string option \<times> string option) option list option"
  nestedPhase :: "'j option \<Rightarrow> string"
  nestedSandboxName :: "'j option \<Rightarrow> string"

text \<open>What the program relies on: a status it writes can be encoded and is read back, up to the
  transition times, which the encoding truncates to seconds.\<close>

definition untimed :: "Condition list \<Rightarrow> Condition list" where
  "untimed cs = map (\<lambda>c. c\<lparr>cdLastTransitionTime := 0\<rparr>) cs"

definition status_laws :: "('j, 'v) convlib \<Rightarrow> bool" where
  "status_laws X \<longleftrightarrow> (\<forall>st. \<exists>j st'. encSandboxStatus X st = Inr j \<and> decSandboxStatus X (Some j) = Inr st' \<and>
     untimed (stConditions st') = untimed (stConditions st) \<and> stPodIPs st' = stPodIPs st)"

lemma find_untimed:
  "map_option cdStatus (find (\<lambda>c. cdType c = t) cs) = map_option cdStatus (find (\<lambda>c. cdType c = t) (untimed cs))"
  by (induction cs) (auto simp: untimed_def)

lemma present_untimed:
  assumes "cond_laws K" "untimed cs = untimed cs'"
  shows "IsStatusConditionPresentAndEqual K cs t st \<longleftrightarrow> IsStatusConditionPresentAndEqual K cs' t st"
proof -
  have eq: "IsStatusConditionPresentAndEqual K cs t st \<longleftrightarrow> map_option cdStatus (find (\<lambda>c. cdType c = t) cs) = Some st" for cs
    using assms(1) by (auto simp: IsStatusConditionPresentAndEqual_def cond_find split: option.split)
  show ?thesis unfolding eq using find_untimed [of t cs] find_untimed [of t cs'] assms(2) by simp
qed

end
