(* ===== verification/Router.thy ===== *)
theory Router
  imports Store StoreFacts Convert FakeDriver
begin

text \<open>
  \<^verbatim>\<open>internal/router/router.go\<close>: the data-plane router. Resolving a sandbox and a port to a published host
  port, and the decision the handler takes for a request: answer a health check, refuse, or proxy to
  an upstream. The proxying itself (\<^verbatim>\<open>httputil.ReverseProxy\<close>) and the request timeout, which only
  bounds it, are not modelled.
\<close>

section \<open>Resolving\<close>

datatype ResolveState = StateOK | StateSandboxNotFound | StateNotReady | StateNoPort

definition sandboxReady :: "('j, 'v) convlib \<Rightarrow> 'j obj \<Rightarrow> bool" where
  "sandboxReady X u = (case nestedConditions X (status u) of
      None \<Rightarrow> False
    | Some conds \<Rightarrow> list_ex (\<lambda>c. c = Some (Some ''Ready'', Some ''True'')) conds)"

text \<open>The resolver: the driver is absent when Docker is unreachable. A host port that is missing from
  the map reads as 0.\<close>

definition portOf :: "ContainerInfo \<Rightarrow> int \<Rightarrow> int" where
  "portOf info port = (case ciPortMap info port of None \<Rightarrow> 0 | Some h \<Rightarrow> h)"

definition Resolve :: "('j, 'v) convlib \<Rightarrow> ('j, 'db) store \<Rightarrow> ('d Driver \<times> 'd) option \<Rightarrow> string \<Rightarrow> string \<Rightarrow> int \<Rightarrow>
    string \<times> ResolveState" where
  "Resolve X s drv ns i port = (case Get SandboxGVR ns i s of
      Inl _ \<Rightarrow> ('''', StateSandboxNotFound)
    | Inr u \<Rightarrow>
       (if \<not> sandboxReady X u then ('''', StateNotReady)
        else case drv of
            None \<Rightarrow> ('''', StateNotReady)
          | Some (D, d) \<Rightarrow>
             (case InspectSandbox D ns i d of
                Inl _ \<Rightarrow> ('''', StateNotReady)
              | Inr info \<Rightarrow>
                 (if ciState info \<noteq> ''running'' then ('''', StateNotReady)
                  else if portOf info port = 0 then ('''', StateNoPort)
                  else (''http://127.0.0.1:'' @ Itoa (portOf info port), StateOK)))))"

section \<open>The handler\<close>

definition label_char :: "char \<Rightarrow> bool" where
  "label_char c \<longleftrightarrow> (CHR ''a'' \<le> c \<and> c \<le> CHR ''z'') \<or> (CHR ''0'' \<le> c \<and> c \<le> CHR ''9'')"

text \<open>The loop, with the index of the character.\<close>

fun validLoop :: "nat \<Rightarrow> nat \<Rightarrow> string \<Rightarrow> bool" where
  "validLoop len i [] = True"
| "validLoop len i (c # cs) =
     (if label_char c then validLoop len (Suc i) cs
      else if c = CHR ''-'' then (if i = 0 \<or> i = len - 1 then False else validLoop len (Suc i) cs)
      else False)"

definition validDNSLabel :: "string \<Rightarrow> bool" where
  "validDNSLabel s = (if length s = 0 \<or> length s > 63 then False else validLoop (length s) 0 s)"

definition statusFor :: "ResolveState \<Rightarrow> string \<Rightarrow> int \<Rightarrow> int \<times> string" where
  "statusFor state i port = (case state of
      StateSandboxNotFound \<Rightarrow> (502, ''sandbox '' @ Quote i @ '' not found'')
    | StateNotReady \<Rightarrow> (503, ''sandbox '' @ Quote i @ '' is not ready'')
    | StateNoPort \<Rightarrow> (502, ''sandbox '' @ Quote i @ '' does not publish port '' @ Itoa port)
    | StateOK \<Rightarrow> (502, ''unresolved''))"

text \<open>\<^verbatim>\<open>strconv.Atoi\<close>: an optional sign and decimal digits, within 64 bits.\<close>

definition Atoi :: "string \<Rightarrow> int option" where
  "Atoi s = (
     let (neg, ds) = (case s of c # r \<Rightarrow> if c = CHR ''-'' then (True, r) else if c = CHR ''+'' then (False, r) else (False, s)
                      | [] \<Rightarrow> (False, []))
     in if ds = [] then None
        else case dec_val 0 ds of
            None \<Rightarrow> None
          | Some m \<Rightarrow> (let n = (if neg then - int m else int m)
                       in if - (2 ^ 63) \<le> n \<and> n < 2 ^ 63 then Some n else None))"

record request =
  reqPath :: string
  reqHeader :: "string \<Rightarrow> string"

datatype routing =
    HealthOK
  | Refused int string
  | Proxied string

definition headerID :: string where "headerID = ''X-Sandbox-Id''"
definition headerNamespace :: string where "headerNamespace = ''X-Sandbox-Namespace''"
definition headerPort :: string where "headerPort = ''X-Sandbox-Port''"

definition requestNamespace :: "request \<Rightarrow> string" where
  "requestNamespace r = (if reqHeader r headerNamespace = '''' then ''default'' else reqHeader r headerNamespace)"

definition requestPort :: "request \<Rightarrow> int" where
  "requestPort r = (case Atoi (reqHeader r headerPort) of
      Some n \<Rightarrow> (if reqHeader r headerPort \<noteq> '''' \<and> 0 < n \<and> n \<le> 65535 then n else 8888)
    | None \<Rightarrow> 8888)"

definition ServeHTTP :: "(string \<Rightarrow> string \<Rightarrow> int \<Rightarrow> string \<times> ResolveState) \<Rightarrow> request \<Rightarrow> routing" where
  "ServeHTTP resolve r = (
     if reqPath r = ''/healthz'' \<or> reqPath r = ''/readyz'' then HealthOK
     else let i = reqHeader r headerID
          in if \<not> validDNSLabel i then Refused 400 ''X-Sandbox-ID header is required and must be a DNS label''
             else let ns = requestNamespace r; port = requestPort r
                  in case resolve ns i port of
                       (target, StateOK) \<Rightarrow> Proxied target
                     | (_, state) \<Rightarrow> (case statusFor state i port of (code, msg) \<Rightarrow> Refused code msg))"

section \<open>The resolver's contract\<close>

text \<open>What the handler relies on: a resolver that reports success gives the loopback address of a host port.\<close>

locale resolver =
  fixes resolve :: "string \<Rightarrow> string \<Rightarrow> int \<Rightarrow> string \<times> ResolveState"
  assumes resolve_loopback: "resolve ns i port = (t, StateOK) \<Longrightarrow> \<exists>h. h \<noteq> 0 \<and> t = ''http://127.0.0.1:'' @ Itoa h"
begin

lemma proxied_loopback:
  assumes "ServeHTTP resolve r = Proxied t"
  shows "\<exists>h. h \<noteq> 0 \<and> t = ''http://127.0.0.1:'' @ Itoa h"
  using assms resolve_loopback
  by (auto simp: ServeHTTP_def Let_def split: if_splits prod.splits ResolveState.splits)

end

lemma Resolve_OK:
  assumes "Resolve X s drv ns i port = (t, StateOK)"
  obtains u D d info h where "Get SandboxGVR ns i s = Inr u" "sandboxReady X u" "drv = Some (D, d)"
    "InspectSandbox D ns i d = Inr info" "ciState info = ''running''" "ciPortMap info port = Some h" "h \<noteq> 0"
    "t = ''http://127.0.0.1:'' @ Itoa h"
  using assms
  by (auto simp: Resolve_def portOf_def split: sum.splits if_splits option.splits prod.splits)

interpretation sr: resolver "Resolve X s drv"
  for X :: "('j, 'v) convlib" and s :: "('j, 'db) store" and drv :: "('d Driver \<times> 'd) option"
proof
  fix ns i port t
  assume "Resolve X s drv ns i port = (t, StateOK)"
  then show "\<exists>h. h \<noteq> 0 \<and> t = ''http://127.0.0.1:'' @ Itoa h"
    by (rule Resolve_OK) blast
qed

end
