(* ===== verification/Build.thy ===== *)
theory Build
  imports Convert Driver
begin

text \<open>
  \<^verbatim>\<open>internal/reconciler/build.go\<close>: turning a template into a Sandbox object. Injection of a claim's
  environment, merging of its volume claim templates, the secure defaults, and the assembled object.
  A Go panic is an error value of its own, \<open>Panicked\<close>.
\<close>

section \<open>Errors\<close>

datatype rerr =
    StoreErr apierr
  | DriverError derr
  | ConvertErr string
  | EnvInjectionRejected string
  | VCTRejected string
  | OtherErr string
  | Panicked

section \<open>Owner references\<close>

definition controllerRef :: "'j obj \<Rightarrow> string \<Rightarrow> string \<Rightarrow> OwnerReference" where
  "controllerRef owner apiVer knd = \<lparr>refAPIVersion = apiVer, refKind = knd, refName = name owner,
     refUID = uid owner, refController = Some True, refBlockOwnerDeletion = Some True\<rparr>"

section \<open>Secure defaults\<close>

definition applySecureDefaults :: "NetworkPolicyManagement \<Rightarrow> bool \<Rightarrow> PodSpec \<Rightarrow> PodSpec" where
  "applySecureDefaults npManagement hasCustomPolicy podSpec = (
     let p1 = (if psAutomountServiceAccountToken podSpec = None
               then podSpec\<lparr>psAutomountServiceAccountToken := Some False\<rparr> else podSpec);
         managed = (npManagement = NPUnset \<or> npManagement = NPManaged)
     in if managed \<and> \<not> hasCustomPolicy
        then (let p2 = p1\<lparr>psDNSPolicy := ''None''\<rparr>;
                  nss = (case psDNSConfig p2 of None \<Rightarrow> [] | Some nss \<Rightarrow> nss)
              in p2\<lparr>psDNSConfig := Some (if nss = [] then [''8.8.8.8'', ''1.1.1.1''] else nss)\<rparr>)
        else p1)"

section \<open>Environment injection\<close>

text \<open>The searching loops: the index of the first element that satisfies the test.\<close>

fun indexOf :: "('a \<Rightarrow> bool) \<Rightarrow> 'a list \<Rightarrow> nat option" where
  "indexOf P [] = None"
| "indexOf P (x # xs) = (if P x then Some 0 else map_option Suc (indexOf P xs))"

definition injectOne :: "InjectionPolicy \<Rightarrow> ClaimEnvVar \<Rightarrow> Container \<Rightarrow> rerr + Container" where
  "injectOne policy e c = (case indexOf (\<lambda>v. envName v = ceName e) (cEnv c) of
      Some existing \<Rightarrow>
        (if policy = PolicyOverrides
         then Inr (c\<lparr>cEnv := (cEnv c)[existing := (cEnv c ! existing)\<lparr>envValue := ceValue e, envValueFrom := False\<rparr>]\<rparr>)
         else Inl (OtherErr (''env '' @ Quote (ceName e) @ '' already set on container '' @ Quote (cName c) @ '' and policy is not Overrides'')))
    | None \<Rightarrow> Inr (c\<lparr>cEnv := cEnv c @ [\<lparr>envName = ceName e, envValue = ceValue e, envValueFrom = False\<rparr>]\<rparr>))"

definition envTarget :: "ClaimEnvVar \<Rightarrow> PodSpec \<Rightarrow> rerr + nat" where
  "envTarget e podSpec = (
     if ceContainerName e = '''' then Inr 0
     else case indexOf (\<lambda>c. cName c = ceContainerName e) (psContainers podSpec) of
         None \<Rightarrow> Inl (OtherErr (''env targets container '' @ Quote (ceContainerName e) @ '' which does not exist''))
       | Some i \<Rightarrow> Inr i)"

text \<open>The loop. Indexing the containers of a pod that has none panics.\<close>

fun injectLoop :: "InjectionPolicy \<Rightarrow> ClaimEnvVar list \<Rightarrow> PodSpec \<Rightarrow> rerr + PodSpec" where
  "injectLoop policy [] podSpec = Inr podSpec"
| "injectLoop policy (e # env) podSpec = (case envTarget e podSpec of
      Inl err \<Rightarrow> Inl err
    | Inr idx \<Rightarrow>
       (if idx < length (psContainers podSpec)
        then (case injectOne policy e (psContainers podSpec ! idx) of
                Inl err \<Rightarrow> Inl err
              | Inr c \<Rightarrow> injectLoop policy env (podSpec\<lparr>psContainers := (psContainers podSpec)[idx := c]\<rparr>))
        else Inl Panicked))"

definition injectEnv :: "ClaimEnvVar list \<Rightarrow> InjectionPolicy \<Rightarrow> PodSpec \<Rightarrow> rerr + PodSpec" where
  "injectEnv env policy podSpec = (
     if length env = 0 then Inr podSpec
     else if policy \<noteq> PolicyAllowed \<and> policy \<noteq> PolicyOverrides
     then Inl (EnvInjectionRejected ('' ('' @ Quote (policy_string policy) @ '')''))
     else injectLoop policy env podSpec)"

section \<open>Volume claim templates\<close>

fun vctIndex :: "nat \<Rightarrow> 'v VCT list \<Rightarrow> (string \<rightharpoonup> nat) \<Rightarrow> (string \<rightharpoonup> nat)" where
  "vctIndex i [] idx = idx"
| "vctIndex i (v # vs) idx = vctIndex (Suc i) vs (idx(vctName v \<mapsto> i))"

fun mergeLoop :: "InjectionPolicy \<Rightarrow> 'v VCT list \<Rightarrow> 'v VCT list \<Rightarrow> (string \<rightharpoonup> nat) \<Rightarrow> rerr + 'v VCT list" where
  "mergeLoop policy [] out idx = Inr out"
| "mergeLoop policy (v # vs) out idx = (case idx (vctName v) of
      Some at \<Rightarrow>
        (if policy \<noteq> PolicyOverrides
         then Inl (VCTRejected ('': '' @ Quote (vctName v) @ '' already defined and policy is not Overrides''))
         else mergeLoop policy vs (out[at := v]) idx)
    | None \<Rightarrow> mergeLoop policy vs (out @ [v]) (idx(vctName v \<mapsto> length out)))"

definition mergeVCT :: "'v VCT list \<Rightarrow> 'v VCT list \<Rightarrow> InjectionPolicy \<Rightarrow> rerr + 'v VCT list" where
  "mergeVCT base vs policy = (
     if policy \<noteq> PolicyAllowed \<and> policy \<noteq> PolicyOverrides
     then Inl (VCTRejected ('' ('' @ Quote (policy_string policy) @ '')''))
     else mergeLoop policy vs base (vctIndex 0 base Map.empty))"

section \<open>The object\<close>

definition mergePodMeta :: "PodMetadata option \<Rightarrow> 'v SandboxBlueprint \<Rightarrow> 'v SandboxBlueprint" where
  "mergePodMeta podMeta bp = (case podMeta of None \<Rightarrow> bp
     | Some pm \<Rightarrow> bp\<lparr>bpPodLabels := bpPodLabels bp ++ pmLabels pm,
                     bpPodAnnotations := bpPodAnnotations bp ++ pmAnnotations pm\<rparr>)"

definition buildBlueprint :: "'v TemplateSpec \<Rightarrow> ClaimEnvVar list \<Rightarrow> 'v VCT list \<Rightarrow> PodMetadata option \<Rightarrow>
    rerr + 'v SandboxBlueprint" where
  "buildBlueprint tmpl env extraVCT podMeta = (
     let bp = tsBlueprint tmpl
     in case injectEnv env (tsEnvVarsInjectionPolicy tmpl) (bpPodSpec bp) of
          Inl err \<Rightarrow> Inl err
        | Inr p \<Rightarrow>
           (let bp1 = bp\<lparr>bpPodSpec := applySecureDefaults (tsNetworkPolicyManagement tmpl) (tsNetworkPolicy tmpl) p\<rparr>;
                bp2 = mergePodMeta podMeta bp1
            in if length extraVCT > 0
               then (case mergeVCT (bpVolumeClaimTemplates bp2) extraVCT (tsVolumeClaimTemplatesPolicy tmpl) of
                       Inl err \<Rightarrow> Inl err
                     | Inr merged \<Rightarrow> Inr (bp2\<lparr>bpVolumeClaimTemplates := merged\<rparr>))
               else Inr bp2))"

text \<open>\<^verbatim>\<open>toUnstructured\<close> of a Sandbox: the metadata as it is, the spec through the converter, and
  what the converter writes for the zero status.\<close>

definition sandboxSpecOf :: "'v SandboxBlueprint \<Rightarrow> 'v SandboxSpec" where
  "sandboxSpecOf bp = \<lparr>sbBlueprint = bp, sbOperatingMode = ModeRunning, sbShutdownTime = None,
     sbShutdownPolicy = None\<rparr>"

definition buildSandbox :: "('j, 'v) convlib \<Rightarrow> 'v TemplateSpec \<Rightarrow> string \<Rightarrow> string \<Rightarrow> string \<Rightarrow>
    'j obj option \<Rightarrow> string \<Rightarrow> (string \<rightharpoonup> string) \<Rightarrow> ClaimEnvVar list \<Rightarrow> 'v VCT list \<Rightarrow> PodMetadata option \<Rightarrow>
    rerr + 'j obj" where
  "buildSandbox X tmpl ns nm gen owner ownerKind lbls env extraVCT podMeta = (
     case buildBlueprint tmpl env extraVCT podMeta of
       Inl err \<Rightarrow> Inl err
     | Inr bp \<Rightarrow>
        (case encSandboxSpec X (sandboxSpecOf bp) of
           Inl err \<Rightarrow> Inl (ConvertErr err)
         | Inr tree \<Rightarrow>
            Inr (empty_obj\<lparr>apiVersion := GroupVersion SandboxGVR, kind := ''Sandbox'', namespace := ns,
              name := nm, generateName := gen, labels := lbls,
              ownerReferences := (case owner of None \<Rightarrow> [] | Some u \<Rightarrow> [controllerRef u ExtensionsGV ownerKind]),
              spec := Some tree, status := sandboxZeroStatus X\<rparr>)))"

section \<open>Lemmas\<close>

lemma indexOf_Some: "indexOf P xs = Some i \<Longrightarrow> i < length xs \<and> P (xs ! i) \<and> (\<forall>j < i. \<not> P (xs ! j))"
proof (induction xs arbitrary: i)
  case (Cons x xs)
  show ?case
  proof (cases "P x")
    case False
    with Cons.prems obtain j where j: "indexOf P xs = Some j" "i = Suc j" by auto
    show ?thesis using Cons.IH [OF j(1)] j(2) False by (auto simp: less_Suc_eq_0_disj)
  qed (use Cons.prems in auto)
qed simp

lemma indexOf_None: "indexOf P xs = None \<longleftrightarrow> (\<forall>x \<in> set xs. \<not> P x)"
  by (induction xs) auto

end
