(* ===== verification/Reconciler.thy ===== *)
theory Reconciler
  imports Patch StoreFacts Build
begin

text \<open>
  \<^verbatim>\<open>internal/reconciler/reconcile.go\<close> and \<^verbatim>\<open>convert.go\<close>: what the reconcile loops share, and the delete
  cascade. A reconcile runs on a world, the object store and the container backend. The record
  \<open>Reconcilers\<close> has the fields of the Go struct and, beside them, the libraries the code calls.
  \<open>Clock\<close> gives the readings of \<^verbatim>\<open>r.now()\<close> within one reconcile, numbered along the calls, \<open>wall\<close> the reading of
  the real clock behind \<^verbatim>\<open>time.Until\<close>. \<open>sortSlice\<close> is \<^verbatim>\<open>sort.Slice\<close>, which is not stable: any function that
  returns its argument in order (\<open>sorts\<close>). \<open>race\<close> is what other goroutines do to the
  store between the read and the write of one attempt of the loop that expects them to interfere.
  Logging is not modelled.
\<close>

section \<open>World and configuration\<close>

record ('j, 'db, 'd) world =
  ws :: "('j, 'db) store"
  wd :: 'd

text \<open>Keys and values of the agent-sandbox API the code uses by name.\<close>

record apiconst =
  SandboxWarmPoolLabel :: string
  SandboxTemplateRefHashLabel :: string
  SandboxLaunchTypeLabel :: string
  SandboxLaunchTypeWarm :: string
  SandboxLaunchTypeCold :: string
  CreatedByLabel :: string
  SandboxPodNameAnnotation :: string
  AssignedSandboxNameAnnotation :: string

record ('j, 'db, 'd, 'v) Reconcilers =
  rAPI :: apiconst
  rLib :: "('j, 'db) storelib"
  rConv :: "('j, 'v) convlib"
  rCond :: condlib
  rErrText :: "apierr \<Rightarrow> string"
  rDriver :: "'d Driver"
  mapOrder :: "'j maporder"
  sortSlice :: "('j obj \<Rightarrow> 'j obj \<Rightarrow> bool) \<Rightarrow> 'j obj list \<Rightarrow> 'j obj list"
  race :: "nat \<Rightarrow> ('j, 'db) store \<Rightarrow> ('j, 'db) store"
  DefaultServerPort :: int
  RuntimeImage :: string
  RuntimeBuildContext :: string
  ClusterDomain :: string
  NodeName :: string
  Clock :: "nat \<Rightarrow> time"
  wall :: time

definition sorts :: "(('j obj \<Rightarrow> 'j obj \<Rightarrow> bool) \<Rightarrow> 'j obj list \<Rightarrow> 'j obj list) \<Rightarrow> bool" where
  "sorts f \<longleftrightarrow> (\<forall>less xs. mset (f less xs) = mset xs \<and>
     (asymp less \<and> transp (\<lambda>x y. \<not> less y x) \<longrightarrow> sorted_wrt (\<lambda>x y. \<not> less y x) (f less xs)))"

definition clusterDomain :: "('j, 'db, 'd, 'v) Reconcilers \<Rightarrow> string" where
  "clusterDomain r = (if ClusterDomain r \<noteq> '''' then ClusterDomain r else ''cluster.local'')"

definition nodeName :: "('j, 'db, 'd, 'v) Reconcilers \<Rightarrow> string" where
  "nodeName r = (if NodeName r \<noteq> '''' then NodeName r else ''local-docker'')"

definition serverPort :: "('j, 'db, 'd, 'v) Reconcilers \<Rightarrow> int" where
  "serverPort r = (if DefaultServerPort r \<noteq> 0 then DefaultServerPort r else 8888)"

text \<open>The result of a reconcile: the delay after which the key is queued again, in nanoseconds, 0 for none.\<close>

record Result =
  RequeueAfter :: int

definition no_requeue :: Result where "no_requeue = \<lparr>RequeueAfter = 0\<rparr>"

definition second :: int where "second = 1000000000"

text \<open>\<^verbatim>\<open>time.Time.Sub\<close> saturates at the bounds of \<^verbatim>\<open>int64\<close>.\<close>

definition time_Sub :: "time \<Rightarrow> time \<Rightarrow> int" where
  "time_Sub a b = max (- (2 ^ 63)) (min (2 ^ 63 - 1) (a - b))"

section \<open>Ownership\<close>

definition ownerMap :: "string \<Rightarrow> 'j obj \<Rightarrow> string list" where
  "ownerMap knd ob = (case find (\<lambda>ref. refKind ref = knd) (ownerReferences ob) of
      Some ref \<Rightarrow> [namespace ob @ ''/'' @ refName ref]
    | None \<Rightarrow> [])"

definition ownedBy :: "'j obj \<Rightarrow> string \<Rightarrow> string \<Rightarrow> bool" where
  "ownedBy ob knd nm \<longleftrightarrow> list_ex (\<lambda>ref. refKind ref = knd \<and> refName ref = nm) (ownerReferences ob)"

definition is_controller :: "OwnerReference \<Rightarrow> bool" where
  "is_controller ref \<longleftrightarrow> refController ref = Some True"

definition controllerOwnerUID :: "'j obj \<Rightarrow> string" where
  "controllerOwnerUID ob = (case find is_controller (ownerReferences ob) of Some ref \<Rightarrow> refUID ref | None \<Rightarrow> '''')"

section \<open>Status writes\<close>

text \<open>\<^verbatim>\<open>setStatus\<close> on the tree the converter made, the cleared version, and the write every status writer
  of the package ends with.\<close>

definition setStatus :: "'j obj \<Rightarrow> string + 'j \<Rightarrow> string + 'j obj" where
  "setStatus ob m = (case m of Inl err \<Rightarrow> Inl err | Inr tree \<Rightarrow> Inr (ob\<lparr>status := Some tree\<rparr>))"

definition writeStatus :: "('j, 'db, 'd, 'v) Reconcilers \<Rightarrow> GVR \<Rightarrow> 'j obj \<Rightarrow> string + 'j \<Rightarrow> ('j, 'db, 'd) world \<Rightarrow>
    ('j, 'db, 'd) world \<times> rerr option" where
  "writeStatus r gvr u m w = (case setStatus u m of
      Inl err \<Rightarrow> (w, Some (ConvertErr err))
    | Inr n \<Rightarrow>
       (case Update (rLib r) gvr (n\<lparr>resourceVersion := ''''\<rparr>) True (ws w) of
          (s, Inr _) \<Rightarrow> (w\<lparr>ws := s\<rparr>, None)
        | (s, Inl err) \<Rightarrow> (w\<lparr>ws := s\<rparr>, if IsConflict err then None else Some (StoreErr err))))"

section \<open>The delete cascade\<close>

text \<open>The store calls the hook after a successful delete, and the hook deletes further objects through
  the store. The hook is written over the delete it calls, and the recursion is unrolled by
  levels; level 3 is a fixed point (\<open>StoreDelete_unfold\<close>).\<close>

type_synonym ('j, 'db, 'd) deleter = "GVR \<Rightarrow> string \<Rightarrow> string \<Rightarrow> ('j, 'db, 'd) world \<Rightarrow> ('j, 'db, 'd) world \<times> (apierr + 'j obj)"

definition cleanupPVCVolume :: "('j, 'db, 'd, 'v) Reconcilers \<Rightarrow> 'j obj \<Rightarrow> ('j, 'db, 'd) world \<Rightarrow> ('j, 'db, 'd) world" where
  "cleanupPVCVolume r ob w = w\<lparr>wd := fst (RemoveVolume (rDriver r) (VolumeName (namespace ob) (name ob)) (wd w))\<rparr>"

definition removeSandboxContainer :: "('j, 'db, 'd, 'v) Reconcilers \<Rightarrow> string \<Rightarrow> string \<Rightarrow> ('j, 'db, 'd) world \<Rightarrow> ('j, 'db, 'd) world" where
  "removeSandboxContainer r ns nm w = (case InspectSandbox (rDriver r) ns nm (wd w) of
      Inr info \<Rightarrow> w\<lparr>wd := fst (RemoveContainer (rDriver r) (ciID info) (wd w))\<rparr>
    | Inl _ \<Rightarrow> w)"

fun cleanupVCTs :: "('j, 'db, 'd) deleter \<Rightarrow> ('j, 'db, 'd, 'v) Reconcilers \<Rightarrow> 'j obj \<Rightarrow> 'v VCT list \<Rightarrow>
    ('j, 'db, 'd) world \<Rightarrow> ('j, 'db, 'd) world" where
  "cleanupVCTs del r ob [] w = w"
| "cleanupVCTs del r ob (vct # vcts) w = (
     let pvcName = vctName vct @ ''-'' @ name ob
     in case Get PVCGVR (namespace ob) pvcName (ws w) of
          Inr pu \<Rightarrow>
            cleanupVCTs del r ob vcts
              (if controllerOwnerUID pu = uid ob then fst (del PVCGVR (namespace ob) pvcName w) else w)
        | Inl _ \<Rightarrow>
            cleanupVCTs del r ob vcts
              (w\<lparr>wd := fst (RemoveVolume (rDriver r) (VolumeName (namespace ob) pvcName) (wd w))\<rparr>))"

text \<open>A conversion of a whole object: its spec and its status.\<close>

definition decodeSandbox :: "('j, 'v) convlib \<Rightarrow> 'j obj \<Rightarrow> string + ('v SandboxSpec \<times> SandboxStatus)" where
  "decodeSandbox X u = (case decSandboxSpec X (spec u) of
      Inl err \<Rightarrow> Inl err
    | Inr sp \<Rightarrow> (case decSandboxStatus X (status u) of Inl err \<Rightarrow> Inl err | Inr st \<Rightarrow> Inr (sp, st)))"

definition cleanupSandboxResources :: "('j, 'db, 'd) deleter \<Rightarrow> ('j, 'db, 'd, 'v) Reconcilers \<Rightarrow> 'j obj \<Rightarrow>
    ('j, 'db, 'd) world \<Rightarrow> ('j, 'db, 'd) world" where
  "cleanupSandboxResources del r ob w = (
     let w1 = removeSandboxContainer r (namespace ob) (name ob) w
     in case decodeSandbox (rConv r) ob of
          Inl _ \<Rightarrow> w1
        | Inr (sp, _) \<Rightarrow> cleanupVCTs del r ob (bpVolumeClaimTemplates (sbBlueprint sp)) w1)"

definition cascadeClaimDelete :: "('j, 'db, 'd) deleter \<Rightarrow> ('j, 'db, 'd, 'v) Reconcilers \<Rightarrow> 'j obj \<Rightarrow>
    ('j, 'db, 'd) world \<Rightarrow> ('j, 'db, 'd) world" where
  "cascadeClaimDelete del r ob w = (
     let recorded = nestedSandboxName (rConv r) (status ob);
         sbName = (if recorded = '''' then name ob else recorded)
     in case Get SandboxGVR (namespace ob) sbName (ws w) of
          Inl _ \<Rightarrow> w
        | Inr sbU \<Rightarrow>
           (if controllerOwnerUID sbU \<noteq> uid ob then w else fst (del SandboxGVR (namespace ob) sbName w)))"

fun cascadePoolLoop :: "('j, 'db, 'd) deleter \<Rightarrow> string \<Rightarrow> 'j obj list \<Rightarrow> ('j, 'db, 'd) world \<Rightarrow> ('j, 'db, 'd) world" where
  "cascadePoolLoop del pool [] w = w"
| "cascadePoolLoop del pool (sb # sbs) w =
     cascadePoolLoop del pool sbs
       (if ownedBy sb ''SandboxWarmPool'' pool then fst (del SandboxGVR (namespace sb) (name sb) w) else w)"

definition cascadeWarmPoolDelete :: "('j, 'db, 'd) deleter \<Rightarrow> ('j, 'db, 'd, 'v) Reconcilers \<Rightarrow> 'j obj \<Rightarrow>
    ('j, 'db, 'd) world \<Rightarrow> ('j, 'db, 'd) world" where
  "cascadeWarmPoolDelete del r ob w = (case StoreList (mapOrder r) SandboxGVR (namespace ob) no_selectors (ws w) of
      Inl _ \<Rightarrow> w
    | Inr lst \<Rightarrow> cascadePoolLoop del (name ob) (lrItems lst) w)"

definition OnDelete :: "('j, 'db, 'd) deleter \<Rightarrow> ('j, 'db, 'd, 'v) Reconcilers \<Rightarrow> GVR \<Rightarrow> 'j obj \<Rightarrow>
    ('j, 'db, 'd) world \<Rightarrow> ('j, 'db, 'd) world" where
  "OnDelete del r gvr ob w = (
     if gvr = SandboxGVR then cleanupSandboxResources del r ob w
     else if gvr = SandboxClaimGVR then cascadeClaimDelete del r ob w
     else if gvr = WarmPoolGVR then cascadeWarmPoolDelete del r ob w
     else if gvr = PVCGVR then cleanupPVCVolume r ob w
     else w)"

text \<open>The store's \<^verbatim>\<open>Delete\<close> with the hook it runs after releasing the lock.\<close>

definition deleteWith :: "(GVR \<Rightarrow> 'j obj \<Rightarrow> ('j, 'db, 'd) world \<Rightarrow> ('j, 'db, 'd) world) \<Rightarrow>
    ('j, 'db, 'd, 'v) Reconcilers \<Rightarrow> ('j, 'db, 'd) deleter" where
  "deleteWith hook r gvr ns nm w = (case Delete (rLib r) gvr ns nm (ws w) of
      (s, Inl err) \<Rightarrow> (w\<lparr>ws := s\<rparr>, Inl err)
    | (s, Inr ob) \<Rightarrow> (if onDelete s then hook gvr ob (w\<lparr>ws := s\<rparr>) else w\<lparr>ws := s\<rparr>, Inr ob))"

fun deleteLevel :: "nat \<Rightarrow> ('j, 'db, 'd, 'v) Reconcilers \<Rightarrow> ('j, 'db, 'd) deleter" where
  "deleteLevel 0 r = deleteWith (\<lambda>_ _ w. w) r"
| "deleteLevel (Suc n) r = deleteWith (OnDelete (deleteLevel n r) r) r"

definition StoreDelete :: "('j, 'db, 'd, 'v) Reconcilers \<Rightarrow> ('j, 'db, 'd) deleter" where
  "StoreDelete r = deleteLevel 3 r"

section \<open>The cascade ends\<close>

text \<open>A hook only deletes resources of a lower level: claims and pools delete sandboxes, sandboxes
  delete volume claims, volume claims delete nothing.\<close>

lemma cleanupVCTs_cong:
  "del PVCGVR = del' PVCGVR \<Longrightarrow> cleanupVCTs del r ob vcts w = cleanupVCTs del' r ob vcts w"
  by (induction vcts arbitrary: w) (auto simp: Let_def split: sum.split)

lemma cascadePoolLoop_cong:
  "del SandboxGVR = del' SandboxGVR \<Longrightarrow> cascadePoolLoop del p sbs w = cascadePoolLoop del' p sbs w"
  by (induction sbs arbitrary: w) auto

lemma OnDelete_cong:
  assumes "gvr = SandboxGVR \<Longrightarrow> del PVCGVR = del' PVCGVR"
    and "gvr = SandboxClaimGVR \<or> gvr = WarmPoolGVR \<Longrightarrow> del SandboxGVR = del' SandboxGVR"
  shows "OnDelete del r gvr ob w = OnDelete del' r gvr ob w"
  using assms cleanupVCTs_cong [of del del'] cascadePoolLoop_cong [of del del']
  by (auto simp: OnDelete_def cleanupSandboxResources_def cascadeClaimDelete_def cascadeWarmPoolDelete_def Let_def
      split: sum.split)

lemma deleteWith_cong:
  assumes "\<And>ob w. hook gvr ob w = hook' gvr ob w"
  shows "deleteWith hook r gvr = deleteWith hook' r gvr"
  using assms by (intro ext) (simp add: deleteWith_def split: prod.split sum.split)

lemma deleteLevel_pvc: "deleteLevel (Suc n) r PVCGVR = deleteLevel (Suc m) r PVCGVR"
  by (auto intro!: deleteWith_cong OnDelete_cong)

lemma deleteLevel_sandbox: "deleteLevel (Suc (Suc n)) r SandboxGVR = deleteLevel (Suc (Suc m)) r SandboxGVR"
  using deleteLevel_pvc [of n r m] by (auto intro!: deleteWith_cong OnDelete_cong)

lemma deleteLevel_stable: "3 \<le> n \<Longrightarrow> deleteLevel n r = StoreDelete r"
proof -
  assume "3 \<le> n"
  then obtain k where k: "n = Suc (Suc (Suc k))" by (metis Suc_le_D numeral_3_eq_3 Suc_le_mono)
  have "deleteLevel (Suc (Suc (Suc k))) r gvr = deleteLevel (Suc (Suc (Suc 0))) r gvr" for gvr
    using deleteLevel_pvc [of "Suc k" r "Suc 0"] deleteLevel_sandbox [of k r 0]
    by (auto simp only: deleteLevel.simps(2) intro!: deleteWith_cong OnDelete_cong)
  then show ?thesis by (simp add: StoreDelete_def k numeral_3_eq_3 fun_eq_iff)
qed

lemma StoreDelete_unfold: "StoreDelete r = deleteWith (OnDelete (StoreDelete r) r) r"
proof -
  have "deleteLevel (Suc 3) r = deleteWith (OnDelete (deleteLevel 3 r) r) r" by (rule deleteLevel.simps)
  moreover have "deleteLevel (Suc 3) r = StoreDelete r" by (rule deleteLevel_stable) simp
  ultimately show ?thesis by (simp only: StoreDelete_def)
qed

end
