(* ===== verification/SandboxLoop.thy ===== *)
theory SandboxLoop
  imports Reconciler
begin

text \<open>
  \<^verbatim>\<open>internal/reconciler/sandbox.go\<close> and \<^verbatim>\<open>pvc.go\<close>: the loop that drives a Sandbox to a running container
  and reports its conditions, and the loop that backs a volume claim with a volume.
  A store create may not return (its name generation need not), so a reconcile that creates
  is a value of an option type; \<open>reconcileSandbox_returns\<close> shows that this one always returns.
\<close>

section \<open>Helpers\<close>

definition readyRequeue :: int where "readyRequeue = 500000000"

text \<open>The condition types of the agent-sandbox API; its reasons are written out below as
  \<^verbatim>\<open>plans/03-reconcilers.md\<close> lists them.\<close>

definition CondReady :: string where "CondReady = ''Ready''"
definition CondSuspended :: string where "CondSuspended = ''Suspended''"
definition CondFinished :: string where "CondFinished = ''Finished''"

lemmas cond_type_defs = CondReady_def CondSuspended_def CondFinished_def

definition setCond :: "condlib \<Rightarrow> string \<Rightarrow> string \<Rightarrow> string \<Rightarrow> string \<Rightarrow> uint64 \<Rightarrow> time \<Rightarrow> Condition list \<Rightarrow> Condition list" where
  "setCond K t st reason msg gen tm conds = SetStatusCondition K \<lparr>cdType = t, cdStatus = st, cdReason = reason,
     cdMessage = msg, cdObservedGeneration = gen, cdLastTransitionTime = tm\<rparr> conds"

text \<open>\<^verbatim>\<open>fnv.New32a\<close>: the 32-bit FNV-1a hash, and eight lowercase hexadecimal digits.\<close>

definition fnv1a :: "string \<Rightarrow> 32 word" where
  "fnv1a s = foldl (\<lambda>h c. (h XOR of_nat (of_char c)) * 16777619) 2166136261 s"

definition hex32 :: "32 word \<Rightarrow> string" where
  "hex32 h = map (\<lambda>i. hex_char (unat (drop_bit (4 * i) h AND 15))) [7, 6, 5, 4, 3, 2, 1, 0]"

definition nameHash :: "string \<Rightarrow> string" where
  "nameHash nm = hex32 (fnv1a nm)"

definition sandboxNameHashLabel :: string where
  "sandboxNameHashLabel = ''agents.x-k8s.io/sandbox-name-hash''"

definition nameHashSelector :: "string \<Rightarrow> string" where
  "nameHashSelector nm = sandboxNameHashLabel @ ''='' @ nameHash nm"

definition podServerPort :: "PodSpec \<Rightarrow> int \<Rightarrow> int" where
  "podServerPort podSpec dflt = (case psContainers podSpec of
      [] \<Rightarrow> dflt
    | c # _ \<Rightarrow> (case find (\<lambda>p. p > 0) (cPorts c) of Some p \<Rightarrow> p | None \<Rightarrow> dflt))"

definition pvcVolume :: "string \<Rightarrow> string \<Rightarrow> Volume" where
  "pvcVolume vn pvc = \<lparr>volName = vn, volPVC = Some \<lparr>pvcClaimName = pvc, pvcReadOnly = False\<rparr>, volEmptyDir = None\<rparr>"

definition injectPodVolume :: "string \<Rightarrow> string \<Rightarrow> PodSpec \<Rightarrow> PodSpec" where
  "injectPodVolume vn pvc podSpec = (case indexOf (\<lambda>v. volName v = vn) (psVolumes podSpec) of
      Some i \<Rightarrow> podSpec\<lparr>psVolumes := (psVolumes podSpec)[i := pvcVolume vn pvc]\<rparr>
    | None \<Rightarrow> podSpec\<lparr>psVolumes := psVolumes podSpec @ [pvcVolume vn pvc]\<rparr>)"

definition orphan_ref :: "('j, 'db) store \<Rightarrow> string \<Rightarrow> OwnerReference \<Rightarrow> bool" where
  "orphan_ref s ns ref = (
     if \<not> is_controller ref then False
     else if refKind ref \<noteq> ''SandboxClaim'' \<and> refKind ref \<noteq> ''SandboxWarmPool'' then False
     else case Get (if refKind ref = ''SandboxClaim'' then SandboxClaimGVR else WarmPoolGVR) ns (refName ref) s of
         Inl err \<Rightarrow> IsNotFound err
       | Inr owner \<Rightarrow> refUID ref \<noteq> '''' \<and> uid owner \<noteq> refUID ref)"

definition orphaned :: "('j, 'db) store \<Rightarrow> 'j obj \<Rightarrow> bool" where
  "orphaned s u = list_ex (orphan_ref s (namespace u)) (ownerReferences u)"

definition maxDur :: "int \<Rightarrow> int \<Rightarrow> int" where
  "maxDur a b = (if a > b then a else b)"

definition expiryRequeue :: "('j, 'db, 'd, 'v) Reconcilers \<Rightarrow> 'v SandboxSpec \<Rightarrow> Result" where
  "expiryRequeue r sp = (case sbShutdownTime sp of
      Some ex \<Rightarrow> (let d = time_Sub ex (wall r); d = (if d < 0 then 0 else d) in \<lparr>RequeueAfter = maxDur d second\<rparr>)
    | None \<Rightarrow> no_requeue)"

definition conditions_only :: "Condition list \<Rightarrow> SandboxStatus" where
  "conditions_only conds = empty_SandboxStatus\<lparr>stConditions := conds\<rparr>"

definition writeSandboxStatus :: "('j, 'db, 'd, 'v) Reconcilers \<Rightarrow> 'j obj \<Rightarrow> SandboxStatus \<Rightarrow> ('j, 'db, 'd) world \<Rightarrow>
    ('j, 'db, 'd) world \<times> rerr option" where
  "writeSandboxStatus r u st w = writeStatus r SandboxGVR u (encSandboxStatus (rConv r) st) w"

definition failReady :: "('j, 'db, 'd, 'v) Reconcilers \<Rightarrow> 'j obj \<Rightarrow> SandboxStatus \<Rightarrow> string \<Rightarrow> time \<Rightarrow> ('j, 'db, 'd) world \<Rightarrow>
    ('j, 'db, 'd) world \<times> Result" where
  "failReady r u st msg t w = (
     let conds = setCond (rCond r) CondReady ''False'' ''ReconcilerError'' (''Error seen: '' @ msg) (generation u) t (stConditions st)
     in (fst (writeSandboxStatus r u (conditions_only conds) w), \<lparr>RequeueAfter = 5 * second\<rparr>))"

text \<open>The bytes of a patch document.\<close>

definition bytesOf :: "string \<Rightarrow> bytes" where
  "bytesOf s = map (\<lambda>c. of_nat (of_char c)) s"

definition annotationPatch :: "string \<Rightarrow> string \<Rightarrow> bytes" where
  "annotationPatch k v = bytesOf (CHR ''{'' # Quote ''metadata'' @ '':{'' @ Quote ''annotations'' @ '':{'' @ Quote k @ '':'' @ Quote v @ ''}}}'')"

definition ensurePodNameAnnotation :: "('j, 'db, 'd, 'v) Reconcilers \<Rightarrow> 'j obj \<Rightarrow> string \<Rightarrow> ('j, 'db, 'd) world \<Rightarrow> ('j, 'db, 'd) world" where
  "ensurePodNameAnnotation r u podName w = (
     if map_get (annotations u) (SandboxPodNameAnnotation (rAPI r)) = podName then w
     else w\<lparr>ws := fst (Patch (rLib r) SandboxGVR (namespace u) (name u) MergePatchType
            (annotationPatch (SandboxPodNameAnnotation (rAPI r)) podName) False (ws w))\<rparr>)"

definition ensureImage :: "('j, 'db, 'd, 'v) Reconcilers \<Rightarrow> string \<Rightarrow> ('j, 'db, 'd) world \<Rightarrow> ('j, 'db, 'd) world \<times> derr option" where
  "ensureImage r img w = (case EnsureImage (rDriver r) img PullIfNotPresent (wd w) of
      (d, None) \<Rightarrow> (w\<lparr>wd := d\<rparr>, None)
    | (d, Some err) \<Rightarrow>
       (if img = RuntimeImage r \<and> RuntimeBuildContext r \<noteq> ''''
        then (case BuildRuntimeImage (rDriver r) of
                None \<Rightarrow> (w\<lparr>wd := d\<rparr>, Some err)
              | Some build \<Rightarrow>
                 (case build img (RuntimeBuildContext r) d of
                    (d', None) \<Rightarrow> (w\<lparr>wd := d'\<rparr>, None)
                  | (d', Some _) \<Rightarrow> (w\<lparr>wd := d'\<rparr>, Some err)))
        else (w\<lparr>wd := d\<rparr>, Some err)))"

section \<open>Volume claims\<close>

definition writePVCStatus :: "('j, 'db, 'd, 'v) Reconcilers \<Rightarrow> 'j obj \<Rightarrow> string \<Rightarrow> ('j, 'db, 'd) world \<Rightarrow>
    ('j, 'db, 'd) world \<times> rerr option" where
  "writePVCStatus r u phase w = (
     if nestedPhase (rConv r) (status u) = phase then (w, None)
     else case decPVC (rConv r) (spec u) (status u) of
         Inl err \<Rightarrow> (w, Some (ConvertErr err))
       | Inr sp \<Rightarrow>
          writeStatus r PVCGVR u
            (encPVCStatus (rConv r) \<lparr>pvPhase = phase, pvMirrored = (if phase = ''Bound'' then Some sp else None)\<rparr>) w)"

definition volumeSpec :: "string \<Rightarrow> string \<Rightarrow> VolumeSpec" where
  "volumeSpec ns claim = \<lparr>vsName = VolumeName ns claim, vsNamespace = ns, vsPVCName = claim, vsLabels = Map.empty\<rparr>"

text \<open>An error result of a status write is the error of the reconcile.\<close>

definition result_of :: "Result \<Rightarrow> rerr option \<Rightarrow> rerr + Result" where
  "result_of res e = (case e of None \<Rightarrow> Inr res | Some err \<Rightarrow> Inl err)"

definition reconcilePVC :: "('j, 'db, 'd, 'v) Reconcilers \<Rightarrow> string \<Rightarrow> string \<Rightarrow> ('j, 'db, 'd) world \<Rightarrow>
    ('j, 'db, 'd) world \<times> (rerr + Result)" where
  "reconcilePVC r ns nm w = (case Get PVCGVR ns nm (ws w) of
      Inl err \<Rightarrow> (if IsNotFound err then (w, Inr no_requeue) else (w, Inl (StoreErr err)))
    | Inr u \<Rightarrow>
       (case EnsureVolume (rDriver r) (volumeSpec ns nm) (wd w) of
          (d, Inl err) \<Rightarrow> (fst (writePVCStatus r u ''Pending'' (w\<lparr>wd := d\<rparr>)), Inl (DriverError err))
        | (d, Inr _) \<Rightarrow> (case writePVCStatus r u ''Bound'' (w\<lparr>wd := d\<rparr>) of (w1, e) \<Rightarrow> (w1, result_of no_requeue e))))"

definition vctObject :: "'j obj \<Rightarrow> 'v VCT \<Rightarrow> string \<Rightarrow> ('j, 'v) convlib \<Rightarrow> string + 'j obj" where
  "vctObject sbU vct pvcName X = (case encPVCSpec X (vctSpec vct) of
      Inl err \<Rightarrow> Inl err
    | Inr tree \<Rightarrow> Inr (empty_obj\<lparr>apiVersion := ''v1'', kind := ''PersistentVolumeClaim'', name := pvcName,
         namespace := namespace sbU, labels := (vctLabels vct)(sandboxNameHashLabel \<mapsto> nameHash (name sbU)),
         annotations := vctAnnotations vct,
         ownerReferences := [controllerRef sbU ''agents.x-k8s.io/v1beta1'' ''Sandbox''],
         spec := Some tree, status := pvcZeroStatus X\<rparr>))"

definition ensureVCTPVCObject :: "('j, 'db, 'd, 'v) Reconcilers \<Rightarrow> 'j obj \<Rightarrow> 'v VCT \<Rightarrow> string \<Rightarrow> ('j, 'db, 'd) world \<Rightarrow>
    ('j, 'db, 'd) world option" where
  "ensureVCTPVCObject r sbU vct pvcName w = (case vctObject sbU vct pvcName (rConv r) of
      Inl _ \<Rightarrow> Some w
    | Inr pu \<Rightarrow> (case Create (rLib r) PVCGVR pu (ws w) of None \<Rightarrow> None | Some (s, _) \<Rightarrow> Some (w\<lparr>ws := s\<rparr>)))"

section \<open>Sandboxes\<close>

definition handleSandboxExpiry :: "('j, 'db, 'd, 'v) Reconcilers \<Rightarrow> 'j obj \<Rightarrow> 'v SandboxSpec \<Rightarrow> SandboxStatus \<Rightarrow>
    ('j, 'db, 'd) world \<Rightarrow> ('j, 'db, 'd) world \<times> (rerr + Result)" where
  "handleSandboxExpiry r u sp st w = (
     let w1 = removeSandboxContainer r (namespace u) (name u) w;
         policy = (case sbShutdownPolicy sp of None \<Rightarrow> ShutdownRetain | Some p \<Rightarrow> p)
     in if policy = ShutdownDelete
        then (case StoreDelete r SandboxGVR (namespace u) (name u) w1 of
                (w2, Inl err) \<Rightarrow> (if IsNotFound err then (w2, Inr no_requeue) else (w2, Inl (StoreErr err)))
              | (w2, Inr _) \<Rightarrow> (w2, Inr no_requeue))
        else (let conds = setCond (rCond r) CondReady ''False'' ''SandboxExpired'' ''Sandbox has expired'' (generation u) (Clock r 1) (stConditions st)
              in case writeSandboxStatus r u (conditions_only conds) w1 of (w2, e) \<Rightarrow> (w2, result_of no_requeue e)))"

definition suspendedConds :: "('j, 'db, 'd, 'v) Reconcilers \<Rightarrow> bool \<Rightarrow> uint64 \<Rightarrow> Condition list \<Rightarrow> Condition list" where
  "suspendedConds r podGone gen conds = (
     let K = rCond r;
         conds1 = (if podGone
           then setCond K CondReady ''False'' ''SandboxSuspended'' ''Sandbox is suspended'' gen (Clock r 2)
                  (setCond K CondSuspended ''True'' ''PodTerminated'' ''Pod has been terminated. Sandbox is not operational.'' gen (Clock r 1) conds)
           else setCond K CondReady ''False'' ''SandboxSuspended'' ''Sandbox is suspending'' gen (Clock r 2)
                  (setCond K CondSuspended ''False'' ''PodNotTerminated'' ''Pod has not been terminated. Sandbox is operational.'' gen (Clock r 1) conds))
     in RemoveStatusCondition K CondFinished conds1)"

definition reconcileSuspended :: "('j, 'db, 'd, 'v) Reconcilers \<Rightarrow> 'j obj \<Rightarrow> 'v SandboxSpec \<Rightarrow> SandboxStatus \<Rightarrow>
    ('j, 'db, 'd) world \<Rightarrow> ('j, 'db, 'd) world \<times> (rerr + Result)" where
  "reconcileSuspended r u sp st w = (
     let D = rDriver r;
         (w1, podGone) = (case InspectSandbox D (namespace u) (name u) (wd w) of
             Inr info \<Rightarrow> (w\<lparr>wd := fst (RemoveContainer D (ciID info) (fst (StopContainer D (ciID info) (wd w))))\<rparr>, True)
           | Inl err \<Rightarrow> (w, err = ErrNotFound))
     in case writeSandboxStatus r u (conditions_only (suspendedConds r podGone (generation u) (stConditions st))) w1 of
          (w2, e) \<Rightarrow> (w2, result_of (expiryRequeue r sp) e))"


subsection \<open>A running sandbox\<close>

text \<open>The volume claim templates: an object for each, and the pod volume that refers to it.\<close>

fun ensureVCTs :: "('j, 'db, 'd, 'v) Reconcilers \<Rightarrow> 'j obj \<Rightarrow> 'v VCT list \<Rightarrow> PodSpec \<Rightarrow> ('j, 'db, 'd) world \<Rightarrow>
    (PodSpec \<times> ('j, 'db, 'd) world) option" where
  "ensureVCTs r u [] podSpec w = Some (podSpec, w)"
| "ensureVCTs r u (vct # vcts) podSpec w = (
     let pvcName = vctName vct @ ''-'' @ name u
     in case ensureVCTPVCObject r u vct pvcName w of
          None \<Rightarrow> None
        | Some w1 \<Rightarrow> ensureVCTs r u vcts (injectPodVolume (vctName vct) pvcName podSpec) w1)"

text \<open>The referenced volume claims: all present and backed, or the first that stops the loop.\<close>

datatype volcheck = VolumesReady | ClaimMissing string | VolumesFailed rerr

fun ensureVolumes :: "('j, 'db, 'd, 'v) Reconcilers \<Rightarrow> string \<Rightarrow> Volume list \<Rightarrow> ('j, 'db, 'd) world \<Rightarrow>
    ('j, 'db, 'd) world \<times> volcheck" where
  "ensureVolumes r ns [] w = (w, VolumesReady)"
| "ensureVolumes r ns (vol # vols) w = (case volPVC vol of
      None \<Rightarrow> ensureVolumes r ns vols w
    | Some src \<Rightarrow>
       (let claim = pvcClaimName src
        in case Get PVCGVR ns claim (ws w) of
             Inl err \<Rightarrow> (w, if IsNotFound err then ClaimMissing claim else VolumesFailed (StoreErr err))
           | Inr _ \<Rightarrow>
              (case EnsureVolume (rDriver r) (volumeSpec ns claim) (wd w) of
                 (d, Inl err) \<Rightarrow> (w\<lparr>wd := d\<rparr>, VolumesFailed (DriverError err))
               | (d, Inr _) \<Rightarrow> ensureVolumes r ns vols (w\<lparr>wd := d\<rparr>))))"

text \<open>The container: found, created, or an error; a mapping error is reported, not retried.\<close>

datatype containerResult = Container ContainerInfo | MappingFailed string | ContainerFailed rerr

definition mappingMeta :: "('j, 'db, 'd, 'v) Reconcilers \<Rightarrow> 'j obj \<Rightarrow> PodSpec \<Rightarrow> MappingMeta" where
  "mappingMeta r u podSpec = \<lparr>mmNamespace = namespace u, mmSandboxName = name u, mmUID = uid u,
     mmServerPort = podServerPort podSpec (serverPort r), mmExtraLabels = Map.empty, mmInjectRuntime = False\<rparr>"

definition ensureContainer :: "('j, 'db, 'd, 'v) Reconcilers \<Rightarrow> 'j obj \<Rightarrow> PodSpec \<Rightarrow> ('j, 'db, 'd) world \<Rightarrow>
    ('j, 'db, 'd) world \<times> containerResult" where
  "ensureContainer r u podSpec w = (case InspectSandbox (rDriver r) (namespace u) (name u) (wd w) of
      Inr info \<Rightarrow> (w, Container info)
    | Inl ErrNotFound \<Rightarrow>
       (case MapPodSpec podSpec (mappingMeta r u podSpec) (serverPort r) of
          Inl (msg, _) \<Rightarrow> (w, MappingFailed msg)
        | Inr (cs, _) \<Rightarrow>
           (case CreateSandboxContainer (rDriver r) cs (wd w) of
              (d, Inl err) \<Rightarrow> (w\<lparr>wd := d\<rparr>, ContainerFailed (DriverError err))
            | (d, Inr info) \<Rightarrow> (w\<lparr>wd := d\<rparr>, Container info)))
    | Inl err \<Rightarrow> (w, ContainerFailed (DriverError err)))"

definition hostPortOf :: "ContainerInfo \<Rightarrow> int \<Rightarrow> int" where
  "hostPortOf info port = (case ciPortMap info port of None \<Rightarrow> 0 | Some h \<Rightarrow> h)"

definition probeOK :: "('j, 'db, 'd, 'v) Reconcilers \<Rightarrow> ContainerInfo \<Rightarrow> int \<Rightarrow> 'd \<Rightarrow> bool" where
  "probeOK r info port d = (let hostPort = hostPortOf info port
     in if hostPort \<noteq> 0 then ProbeRuntime (rDriver r) hostPort d = None else False)"

text \<open>The conditions and the status the state of the container gives.\<close>

definition containerStatus :: "('j, 'db, 'd, 'v) Reconcilers \<Rightarrow> 'j obj \<Rightarrow> ContainerInfo \<Rightarrow> int \<Rightarrow> 'd \<Rightarrow> Condition list \<Rightarrow> SandboxStatus" where
  "containerStatus r u info port d conds0 = (
     let K = rCond r; gen = generation u;
         conds = RemoveStatusCondition K CondSuspended conds0
     in if ciState info = ''exited'' \<or> ciState info = ''dead'' then
          (let reason = (if ciExitCode info \<noteq> 0 then ''PodFailed'' else ''PodSucceeded'');
               msg = (if ciExitCode info \<noteq> 0 then ''Pod failed (exit '' @ Itoa (ciExitCode info) @ '')'' else ''Pod completed successfully'')
           in conditions_only (setCond K CondReady ''False'' reason msg gen (Clock r 2)
                (setCond K CondFinished ''True'' reason msg gen (Clock r 1) conds)))
        else if ciState info = ''running'' then
          (let conds1 = RemoveStatusCondition K CondFinished conds;
               ipOK = (ciIPAddress info \<noteq> '''')
           in empty_SandboxStatus\<lparr>stNodeName := nodeName r, stLabelSelector := nameHashSelector (name u),
                stPodIPs := (if ipOK then [ciIPAddress info] else []),
                stConditions := (if probeOK r info port d \<and> ipOK
                  then setCond K CondReady ''True'' ''DependenciesReady'' ''Pod is Ready'' gen (Clock r 1) conds1
                  else setCond K CondReady ''False'' ''DependenciesNotReady'' ''Pod is Running but not Ready'' gen (Clock r 1) conds1)\<rparr>)
        else conditions_only (setCond K CondReady ''False'' ''DependenciesNotReady'' (''Pod exists with phase: '' @ ciState info) gen (Clock r 1) conds))"

definition withService :: "('j, 'db, 'd, 'v) Reconcilers \<Rightarrow> 'j obj \<Rightarrow> 'v SandboxSpec \<Rightarrow> SandboxStatus \<Rightarrow> SandboxStatus" where
  "withService r u sp st = (if bpService (sbBlueprint sp) = Some True
     then st\<lparr>stService := name u, stServiceFQDN := name u @ ''.'' @ namespace u @ ''.svc.'' @ clusterDomain r\<rparr> else st)"

definition runningRequeue :: "('j, 'db, 'd, 'v) Reconcilers \<Rightarrow> 'v SandboxSpec \<Rightarrow> Condition list \<Rightarrow> Result" where
  "runningRequeue r sp conds = (
     let res = expiryRequeue r sp; K = rCond r
     in if \<not> IsStatusConditionTrue K conds CondReady \<and> \<not> IsStatusConditionPresentAndEqual K conds CondFinished ''True''
        then (if RequeueAfter res = 0 \<or> readyRequeue < RequeueAfter res then res\<lparr>RequeueAfter := readyRequeue\<rparr> else res)
        else res)"

text \<open>From the container on: the annotation, the status, its write and the requeue.\<close>

definition reportRunning :: "('j, 'db, 'd, 'v) Reconcilers \<Rightarrow> 'j obj \<Rightarrow> 'v SandboxSpec \<Rightarrow> SandboxStatus \<Rightarrow> PodSpec \<Rightarrow> ContainerInfo \<Rightarrow>
    ('j, 'db, 'd) world \<Rightarrow> ('j, 'db, 'd) world \<times> (rerr + Result)" where
  "reportRunning r u sp st podSpec info w = (
     let w1 = ensurePodNameAnnotation r u (name u) w;
         st1 = withService r u sp (containerStatus r u info (podServerPort podSpec (serverPort r)) (wd w1) (stConditions st))
     in case writeSandboxStatus r u st1 w1 of
          (w2, e) \<Rightarrow> (w2, result_of (runningRequeue r sp (stConditions st1)) e))"

definition missingConds :: "('j, 'db, 'd, 'v) Reconcilers \<Rightarrow> 'j obj \<Rightarrow> SandboxStatus \<Rightarrow> string \<Rightarrow> Condition list" where
  "missingConds r u st claim = setCond (rCond r) CondReady ''False'' ''DependenciesNotReady''
     (''persistentvolumeclaim '' @ Quote claim @ '' not found'') (generation u) (Clock r 1) (stConditions st)"

definition reconcileRunning :: "('j, 'db, 'd, 'v) Reconcilers \<Rightarrow> 'j obj \<Rightarrow> 'v SandboxSpec \<Rightarrow> SandboxStatus \<Rightarrow>
    ('j, 'db, 'd) world \<Rightarrow> (('j, 'db, 'd) world \<times> (rerr + Result)) option" where
  "reconcileRunning r u sp st w = (
     let ok = (\<lambda>(w, res). Some (w, Inr res))
     in if length (psContainers (bpPodSpec (sbBlueprint sp))) = 0
        then ok (failReady r u st ''Pod spec has no containers'' (Clock r 1) w)
        else case ensureVCTs r u (bpVolumeClaimTemplates (sbBlueprint sp)) (bpPodSpec (sbBlueprint sp)) w of
            None \<Rightarrow> None
          | Some (podSpec, w1) \<Rightarrow>
             (case ensureVolumes r (namespace u) (psVolumes podSpec) w1 of
                (w2, ClaimMissing claim) \<Rightarrow>
                  (case writeSandboxStatus r u (conditions_only (missingConds r u st claim)) w2 of
                     (w3, e) \<Rightarrow> Some (w3, result_of \<lparr>RequeueAfter = readyRequeue\<rparr> e))
              | (w2, VolumesFailed err) \<Rightarrow> Some (w2, Inl err)
              | (w2, VolumesReady) \<Rightarrow>
                  (case ensureImage r (cImage (hd (psContainers podSpec))) w2 of
                     (w3, Some err) \<Rightarrow> ok (failReady r u st (''image unavailable: '' @ derr_Error err) (Clock r 1) w3)
                   | (w3, None) \<Rightarrow>
                      (case ensureContainer r u podSpec w3 of
                         (w4, MappingFailed msg) \<Rightarrow> ok (failReady r u st msg (Clock r 1) w4)
                       | (w4, ContainerFailed err) \<Rightarrow> Some (w4, Inl err)
                       | (w4, Container info) \<Rightarrow> Some (reportRunning r u sp st podSpec info w4)))))"

definition reconcileSandbox :: "('j, 'db, 'd, 'v) Reconcilers \<Rightarrow> string \<Rightarrow> string \<Rightarrow> ('j, 'db, 'd) world \<Rightarrow>
    (('j, 'db, 'd) world \<times> (rerr + Result)) option" where
  "reconcileSandbox r ns nm w = (case Get SandboxGVR ns nm (ws w) of
      Inl err \<Rightarrow> (if IsNotFound err then Some (w, Inr no_requeue) else Some (w, Inl (StoreErr err)))
    | Inr u \<Rightarrow>
       (case decodeSandbox (rConv r) u of
          Inl err \<Rightarrow> Some (w, Inl (ConvertErr err))
        | Inr (sp, st) \<Rightarrow>
           (if orphaned (ws w) u
            then (case StoreDelete r SandboxGVR ns nm w of
                    (w1, Inl err) \<Rightarrow> (if IsNotFound err then Some (w1, Inr no_requeue) else Some (w1, Inl (StoreErr err)))
                  | (w1, Inr _) \<Rightarrow> Some (w1, Inr no_requeue))
            else if (case sbShutdownTime sp of None \<Rightarrow> False | Some ex \<Rightarrow> \<not> Clock r 0 < ex)
            then Some (handleSandboxExpiry r u sp st w)
            else if sbOperatingMode sp = ModeSuspended
            then Some (reconcileSuspended r u sp st w)
            else reconcileRunning r u sp st w)))"

end
