(* ===== verification/ClaimLoop.thy ===== *)
theory ClaimLoop
  imports SandboxLoop
begin

text \<open>
  \<^verbatim>\<open>internal/reconciler/claim.go\<close>, \<^verbatim>\<open>warmpool.go\<close> and \<^verbatim>\<open>template.go\<close>: binding a claim to a sandbox (an existing
  one, one adopted from the warm pool, or a new one), keeping a warm pool at its size, and
  checking a template. The loop that adopts a sandbox is written for interference: \<open>race r i\<close>
  is what other goroutines do to the store between its read and its write in attempt \<open>i\<close>.
\<close>

section \<open>Claims\<close>

definition claimIdentityLabel :: string where "claimIdentityLabel = ''agents.x-k8s.io/claim-uid''"
definition dependencyRequeue :: int where "dependencyRequeue = 60 * second"

definition setCondRaw :: "condlib \<Rightarrow> string \<Rightarrow> string \<Rightarrow> string \<Rightarrow> string \<Rightarrow> uint64 \<Rightarrow> time \<Rightarrow> Condition list \<Rightarrow> Condition list" where
  "setCondRaw K t st reason msg gen tm conds =
     SetStatusCondition K \<lparr>cdType = t, cdStatus = st, cdReason = (if reason = '''' then ''Unknown'' else reason),
       cdMessage = msg, cdObservedGeneration = gen, cdLastTransitionTime = tm\<rparr> conds"

text \<open>The text of an error. The two sentinels prefix what they wrap.\<close>

fun rerr_Error :: "('j, 'db, 'd, 'v) Reconcilers \<Rightarrow> rerr \<Rightarrow> string" where
  "rerr_Error r (StoreErr e) = rErrText r e"
| "rerr_Error r (DriverError e) = derr_Error e"
| "rerr_Error r (ConvertErr msg) = msg"
| "rerr_Error r (EnvInjectionRejected msg) = ''environment variable injection rejected by template policy'' @ msg"
| "rerr_Error r (VCTRejected msg) = ''volume claim template injection rejected by template policy'' @ msg"
| "rerr_Error r (OtherErr msg) = msg"
| "rerr_Error r Panicked = ''''"

fun buildErrorReason :: "rerr \<Rightarrow> string" where
  "buildErrorReason (EnvInjectionRejected _) = ''EnvVarsInjectionRejected''"
| "buildErrorReason (VCTRejected _) = ''VolumeClaimTemplatesError''"
| "buildErrorReason _ = ''ReconcilerError''"

definition writeClaimStatus :: "('j, 'db, 'd, 'v) Reconcilers \<Rightarrow> 'j obj \<Rightarrow> ClaimStatus \<Rightarrow> ('j, 'db, 'd) world \<Rightarrow>
    ('j, 'db, 'd) world \<times> rerr option" where
  "writeClaimStatus r u st w = writeStatus r SandboxClaimGVR u (encClaimStatus (rConv r) st) w"

definition claimNotReady :: "('j, 'db, 'd, 'v) Reconcilers \<Rightarrow> 'j obj \<Rightarrow> ClaimStatus \<Rightarrow> string \<Rightarrow> string \<Rightarrow> ('j, 'db, 'd) world \<Rightarrow>
    ('j, 'db, 'd) world \<times> Result" where
  "claimNotReady r u st reason msg w = (
     let conds = setCondRaw (rCond r) ''Ready'' ''False'' reason msg (generation u) (Clock r 1) (ksConditions st)
     in (fst (writeClaimStatus r u (st\<lparr>ksConditions := conds\<rparr>) w), \<lparr>RequeueAfter = dependencyRequeue\<rparr>))"

definition claimExpired :: "('j, 'db, 'd, 'v) Reconcilers \<Rightarrow> 'v ClaimSpec \<Rightarrow> ClaimStatus \<Rightarrow> bool" where
  "claimExpired r sp st = (case clLifecycle sp of
      None \<Rightarrow> False
    | Some lc \<Rightarrow>
       (let tm = Clock r 0
        in if (case lcShutdownTime lc of None \<Rightarrow> False | Some ex \<Rightarrow> \<not> tm < ex) then True
           else case lcTTLSecondsAfterFinished lc of
               None \<Rightarrow> False
             | Some ttl \<Rightarrow>
                (case FindStatusCondition (rCond r) ''Finished'' (ksConditions st) of
                   None \<Rightarrow> False
                 | Some fc \<Rightarrow> cdStatus fc = ''True'' \<and> \<not> tm < cdLastTransitionTime fc + ttl * second)))"

definition claimLifecycleRequeue :: "('j, 'db, 'd, 'v) Reconcilers \<Rightarrow> 'v ClaimSpec \<Rightarrow> int" where
  "claimLifecycleRequeue r sp = (case clLifecycle sp of
      None \<Rightarrow> 0
    | Some lc \<Rightarrow> (case lcShutdownTime lc of
          None \<Rightarrow> 0
        | Some ex \<Rightarrow> (let d = time_Sub ex (wall r) in if d < 0 then second else maxDur d second)))"

definition handleClaimExpiry :: "('j, 'db, 'd, 'v) Reconcilers \<Rightarrow> 'j obj \<Rightarrow> 'v ClaimSpec \<Rightarrow> ClaimStatus \<Rightarrow> ('j, 'db, 'd) world \<Rightarrow>
    ('j, 'db, 'd) world \<times> (rerr + Result)" where
  "handleClaimExpiry r u sp st w = (
     let policy = (case clLifecycle sp of None \<Rightarrow> ShutdownRetain
                   | Some lc \<Rightarrow> (if lcShutdownPolicy lc \<noteq> ShutdownUnset then lcShutdownPolicy lc else ShutdownRetain))
     in if policy = ShutdownDelete \<or> policy = ShutdownDeleteForeground
        then (case StoreDelete r SandboxClaimGVR (namespace u) (name u) w of
                (w1, Inl err) \<Rightarrow> (if IsNotFound err then (w1, Inr no_requeue) else (w1, Inl (StoreErr err)))
              | (w1, Inr _) \<Rightarrow> (w1, Inr no_requeue))
        else (let w1 = (if ksSandboxName st \<noteq> ''''
                then (case Get SandboxGVR (namespace u) (ksSandboxName st) (ws w) of
                        Inl _ \<Rightarrow> w
                      | Inr sbU \<Rightarrow> (if controllerOwnerUID sbU = uid u
                           then fst (StoreDelete r SandboxGVR (namespace u) (ksSandboxName st) w) else w))
                else w);
                  conds = setCondRaw (rCond r) ''Ready'' ''False'' ''ClaimExpired'' ''Sandbox cleanup initiated.'' (generation u) (Clock r 1) (ksConditions st)
              in case writeClaimStatus r u (st\<lparr>ksConditions := conds\<rparr>) w1 of (w2, e) \<Rightarrow> (w2, result_of no_requeue e)))"

definition stampClaimSandboxAnnotation :: "('j, 'db, 'd, 'v) Reconcilers \<Rightarrow> 'j obj \<Rightarrow> string \<Rightarrow> ('j, 'db, 'd) world \<Rightarrow> ('j, 'db, 'd) world" where
  "stampClaimSandboxAnnotation r u sbName w =
     w\<lparr>ws := fst (Patch (rLib r) SandboxClaimGVR (namespace u) (name u) MergePatchType
        (annotationPatch (AssignedSandboxNameAnnotation (rAPI r)) sbName) False (ws w))\<rparr>"

section \<open>Adoption\<close>

definition isSandboxReady :: "('j, 'db, 'd, 'v) Reconcilers \<Rightarrow> 'j obj \<Rightarrow> bool" where
  "isSandboxReady r u = (case decodeSandbox (rConv r) u of
      Inl _ \<Rightarrow> False
    | Inr (_, st) \<Rightarrow> IsStatusConditionTrue (rCond r) (stConditions st) CondReady)"

definition adoptedForm :: "('j, 'db, 'd, 'v) Reconcilers \<Rightarrow> 'j obj \<Rightarrow> 'j obj \<Rightarrow> 'j obj" where
  "adoptedForm r u pick = pick\<lparr>
     ownerReferences := [controllerRef u ExtensionsGV ''SandboxClaim''],
     labels := (((labels pick)(SandboxWarmPoolLabel (rAPI r) := None))
        (SandboxLaunchTypeLabel (rAPI r) \<mapsto> SandboxLaunchTypeWarm (rAPI r)))(claimIdentityLabel \<mapsto> uid u)\<rparr>"

text \<open>The retry loop: the attempts made so far, of five.\<close>

fun adoptLoop :: "nat \<Rightarrow> nat \<Rightarrow> ('j, 'db, 'd, 'v) Reconcilers \<Rightarrow> 'j obj \<Rightarrow> string \<Rightarrow> string \<Rightarrow> ('j, 'db) store \<Rightarrow>
    ('j, 'db) store \<times> 'j obj option" where
  "adoptLoop i 0 r u pool nm s = (s, None)"
| "adoptLoop i (Suc n) r u pool nm s = (case Get SandboxGVR (namespace u) nm s of
      Inl _ \<Rightarrow> (s, None)
    | Inr pick \<Rightarrow>
       (if \<not> ownedBy pick ''SandboxWarmPool'' pool then (s, None)
        else case Update (rLib r) SandboxGVR (adoptedForm r u pick) False (race r i s) of
            (s1, Inr updated) \<Rightarrow> (s1, Some updated)
          | (s1, Inl err) \<Rightarrow> (if \<not> IsConflict err then (s1, None) else adoptLoop (Suc i) n r u pool nm s1)))"

definition adoptCandidates :: "('j, 'db, 'd, 'v) Reconcilers \<Rightarrow> 'j obj \<Rightarrow> string \<Rightarrow> ('j, 'db) store \<Rightarrow> 'j obj list" where
  "adoptCandidates r u pool s = (case StoreList (mapOrder r) SandboxGVR (namespace u) no_selectors s of
      Inl _ \<Rightarrow> []
    | Inr lst \<Rightarrow> filter (\<lambda>sb. ownedBy sb ''SandboxWarmPool'' pool \<and> deletionTimestamp sb = None) (lrItems lst))"

definition adoptWarmSandbox :: "('j, 'db, 'd, 'v) Reconcilers \<Rightarrow> 'j obj \<Rightarrow> string \<Rightarrow> ('j, 'db) store \<Rightarrow>
    ('j, 'db) store \<times> 'j obj option" where
  "adoptWarmSandbox r u pool s = (
     let candidates = adoptCandidates r u pool s
     in if length candidates = 0 then (s, None)
        else adoptLoop 0 5 r u pool
          (name (hd (sortSlice r (\<lambda>a b. isSandboxReady r a \<and> \<not> isSandboxReady r b) candidates))) s)"

section \<open>Binding\<close>

definition coldLabels :: "('j, 'db, 'd, 'v) Reconcilers \<Rightarrow> 'j obj \<Rightarrow> string \<rightharpoonup> string" where
  "coldLabels r u = [SandboxLaunchTypeLabel (rAPI r) \<mapsto> SandboxLaunchTypeCold (rAPI r),
     CreatedByLabel (rAPI r) \<mapsto> ''controller'', claimIdentityLabel \<mapsto> uid u]"

definition coldCreate :: "('j, 'db, 'd, 'v) Reconcilers \<Rightarrow> 'j obj \<Rightarrow> 'v ClaimSpec \<Rightarrow> 'v TemplateSpec \<Rightarrow> ('j, 'db) store \<Rightarrow>
    (('j, 'db) store \<times> (rerr + 'j obj)) option" where
  "coldCreate r u sp tmpl s = (
     case buildSandbox (rConv r) tmpl (namespace u) (name u) '''' (Some u) ''SandboxClaim'' (coldLabels r u)
            (clEnv sp) (clVolumeClaimTemplates sp) (Some (clAdditionalPodMetadata sp)) of
       Inl err \<Rightarrow> Some (s, Inl err)
     | Inr sbU \<Rightarrow>
        (case Create (rLib r) SandboxGVR sbU s of
           None \<Rightarrow> None
         | Some (s1, Inr created) \<Rightarrow> Some (s1, Inr created)
         | Some (s1, Inl err) \<Rightarrow>
            (if IsAlreadyExists err
             then (case Get SandboxGVR (namespace u) (name u) s1 of
                     Inl gerr \<Rightarrow> Some (s1, Inl (StoreErr gerr))
                   | Inr got \<Rightarrow>
                      (if controllerOwnerUID got \<noteq> uid u
                       then Some (s1, Inl (OtherErr (''sandbox '' @ Quote (name u) @ '' exists but is not controlled by this claim'')))
                       else Some (s1, Inr got)))
             else Some (s1, Inl (StoreErr err)))))"

definition existingBinding :: "'j obj \<Rightarrow> ClaimStatus \<Rightarrow> ('j, 'db) store \<Rightarrow> 'j obj option" where
  "existingBinding u st s = (if ksSandboxName st = '''' then None
     else case Get SandboxGVR (namespace u) (ksSandboxName st) s of
         Inl _ \<Rightarrow> None
       | Inr sbU \<Rightarrow> if controllerOwnerUID sbU = uid u then Some sbU else None)"

text \<open>The sandbox and whether it was adopted.\<close>

definition getOrCreateSandbox :: "('j, 'db, 'd, 'v) Reconcilers \<Rightarrow> 'j obj \<Rightarrow> 'v ClaimSpec \<Rightarrow> ClaimStatus \<Rightarrow> 'v TemplateSpec \<Rightarrow> string \<Rightarrow>
    ('j, 'db) store \<Rightarrow> (('j, 'db) store \<times> (rerr + ('j obj \<times> bool))) option" where
  "getOrCreateSandbox r u sp st tmpl pool s = (case existingBinding u st s of
      Some sbU \<Rightarrow> Some (s, Inr (sbU, False))
    | None \<Rightarrow>
       (let forceCold = (length (clEnv sp) > 0 \<or> length (clVolumeClaimTemplates sp) > 0);
            (s1, adopted) = (if \<not> forceCold then adoptWarmSandbox r u pool s else (s, None))
        in case adopted of
             Some sbU \<Rightarrow> Some (s1, Inr (sbU, True))
           | None \<Rightarrow>
              (case coldCreate r u sp tmpl s1 of
                 None \<Rightarrow> None
               | Some (s2, Inl err) \<Rightarrow> Some (s2, Inl err)
               | Some (s2, Inr sbU) \<Rightarrow> Some (s2, Inr (sbU, False)))))"

text \<open>The conditions mirrored from the sandbox.\<close>

definition mirrorConds :: "('j, 'db, 'd, 'v) Reconcilers \<Rightarrow> uint64 \<Rightarrow> Condition list \<Rightarrow> Condition list \<Rightarrow> Condition list" where
  "mirrorConds r gen sbConds conds = (
     let K = rCond r;
         conds1 = (case FindStatusCondition K CondReady sbConds of
             Some rc \<Rightarrow> setCondRaw K ''Ready'' (cdStatus rc)
               (if cdStatus rc \<noteq> ''True'' \<and> cdReason rc = '''' then ''SandboxNotReady'' else cdReason rc) (cdMessage rc) gen (Clock r 1) conds
           | None \<Rightarrow> setCondRaw K ''Ready'' ''False'' ''SandboxNotReady'' ''Sandbox is not ready'' gen (Clock r 1) conds)
     in case FindStatusCondition K CondFinished sbConds of
          Some fc \<Rightarrow> setCondRaw K ''Finished'' (cdStatus fc) (cdReason fc) (cdMessage fc) gen (Clock r 2) conds1
        | None \<Rightarrow> RemoveStatusCondition K ''Finished'' conds1)"

definition decodedStatus :: "('j, 'v) convlib \<Rightarrow> 'j obj \<Rightarrow> SandboxStatus" where
  "decodedStatus X u = (case decodeSandbox X u of
      Inr (_, st) \<Rightarrow> st
    | Inl _ \<Rightarrow> partialSandboxStatus X (spec u) (status u))"

definition claimRequeue :: "('j, 'db, 'd, 'v) Reconcilers \<Rightarrow> 'v ClaimSpec \<Rightarrow> Condition list \<Rightarrow> Result" where
  "claimRequeue r sp conds = (
     let res = (if \<not> IsStatusConditionTrue (rCond r) conds ''Ready'' then \<lparr>RequeueAfter = readyRequeue\<rparr> else no_requeue);
         rq = claimLifecycleRequeue r sp
     in if rq > 0 \<and> (RequeueAfter res = 0 \<or> rq < RequeueAfter res) then res\<lparr>RequeueAfter := rq\<rparr> else res)"

text \<open>From the bound sandbox on.\<close>

definition reportClaim :: "('j, 'db, 'd, 'v) Reconcilers \<Rightarrow> 'j obj \<Rightarrow> 'v ClaimSpec \<Rightarrow> ClaimStatus \<Rightarrow> 'j obj \<Rightarrow> bool \<Rightarrow>
    ('j, 'db, 'd) world \<Rightarrow> ('j, 'db, 'd) world \<times> (rerr + Result)" where
  "reportClaim r u sp st sbU adopted w = (
     let w1 = (if adopted then stampClaimSandboxAnnotation r u (name sbU) w else w);
         sbSt = decodedStatus (rConv r) sbU;
         conds = mirrorConds r (generation u) (stConditions sbSt) (ksConditions st)
     in case writeClaimStatus r u \<lparr>ksConditions = conds, ksSandboxName = name sbU, ksPodIPs = stPodIPs sbSt\<rparr> w1 of
          (w2, e) \<Rightarrow> (w2, result_of (claimRequeue r sp conds) e))"

definition reconcileClaim :: "('j, 'db, 'd, 'v) Reconcilers \<Rightarrow> string \<Rightarrow> string \<Rightarrow> ('j, 'db, 'd) world \<Rightarrow>
    (('j, 'db, 'd) world \<times> (rerr + Result)) option" where
  "reconcileClaim r ns nm w = (
     let ok = (\<lambda>(w, res). Some (w, Inr res)); X = rConv r
     in case Get SandboxClaimGVR ns nm (ws w) of
          Inl err \<Rightarrow> (if IsNotFound err then Some (w, Inr no_requeue) else Some (w, Inl (StoreErr err)))
        | Inr u \<Rightarrow>
       (case decClaimSpec X (spec u) of
          Inl err \<Rightarrow> Some (w, Inl (ConvertErr err))
        | Inr sp \<Rightarrow>
       (case decClaimStatus X (status u) of
          Inl err \<Rightarrow> Some (w, Inl (ConvertErr err))
        | Inr st \<Rightarrow>
       (if claimExpired r sp st then Some (handleClaimExpiry r u sp st w)
        else case Get WarmPoolGVR ns (clWarmPoolRef sp) (ws w) of
          Inl perr \<Rightarrow> (if IsNotFound perr
             then ok (claimNotReady r u st ''WarmPoolNotFound'' (''SandboxWarmPool '' @ Quote (clWarmPoolRef sp) @ '' not found'') w)
             else Some (w, Inl (StoreErr perr)))
        | Inr pu \<Rightarrow>
       (case decWarmPool X (spec pu) (status pu) of
          Inl err \<Rightarrow> Some (w, Inl (ConvertErr err))
        | Inr pool \<Rightarrow>
       (case Get TemplateGVR ns (wpTemplateRef pool) (ws w) of
          Inl terr \<Rightarrow> (if IsNotFound terr
             then ok (claimNotReady r u st ''TemplateNotFound'' (''SandboxTemplate '' @ Quote (wpTemplateRef pool) @ '' not found'') w)
             else Some (w, Inl (StoreErr terr)))
        | Inr tu \<Rightarrow>
       (case decTemplateSpec X (spec tu) of
          Inl err \<Rightarrow> Some (w, Inl (ConvertErr err))
        | Inr tmpl \<Rightarrow>
       (case getOrCreateSandbox r u sp st tmpl (clWarmPoolRef sp) (ws w) of
          None \<Rightarrow> None
        | Some (s1, Inl Panicked) \<Rightarrow> Some (w\<lparr>ws := s1\<rparr>, Inl Panicked)
        | Some (s1, Inl err) \<Rightarrow>
            ok (claimNotReady r u st (buildErrorReason err) (''Error seen: '' @ rerr_Error r err) (w\<lparr>ws := s1\<rparr>))
        | Some (s1, Inr (sbU, adopted)) \<Rightarrow> Some (reportClaim r u sp st sbU adopted (w\<lparr>ws := s1\<rparr>))))))))))"

section \<open>Warm pools\<close>

definition writeWarmPoolStatus :: "('j, 'db, 'd, 'v) Reconcilers \<Rightarrow> 'j obj \<Rightarrow> WarmPoolStatus \<Rightarrow> ('j, 'db, 'd) world \<Rightarrow>
    ('j, 'db, 'd) world \<times> rerr option" where
  "writeWarmPoolStatus r u st w = writeStatus r WarmPoolGVR u (encWarmPoolStatus (rConv r) st) w"

definition warmLabels :: "('j, 'db, 'd, 'v) Reconcilers \<Rightarrow> string \<Rightarrow> string \<Rightarrow> string \<rightharpoonup> string" where
  "warmLabels r pool tmplName = [SandboxWarmPoolLabel (rAPI r) \<mapsto> nameHash pool,
     SandboxTemplateRefHashLabel (rAPI r) \<mapsto> nameHash tmplName,
     SandboxLaunchTypeLabel (rAPI r) \<mapsto> SandboxLaunchTypeWarm (rAPI r), CreatedByLabel (rAPI r) \<mapsto> ''controller'']"

text \<open>The loop that creates the missing members: it stops quietly when the template cannot be
  built, and with the error when a create fails.\<close>

fun createWarm :: "nat \<Rightarrow> ('j, 'db, 'd, 'v) Reconcilers \<Rightarrow> 'j obj \<Rightarrow> 'v TemplateSpec \<Rightarrow> string \<Rightarrow> string \<Rightarrow> string \<Rightarrow> ('j, 'db) store \<Rightarrow>
    (('j, 'db) store \<times> rerr option) option" where
  "createWarm 0 r u tmpl tmplName ns nm s = Some (s, None)"
| "createWarm (Suc n) r u tmpl tmplName ns nm s = (
     case buildSandbox (rConv r) tmpl ns '''' (nm @ ''-'') (Some u) ''SandboxWarmPool'' (warmLabels r nm tmplName) [] [] None of
       Inl _ \<Rightarrow> Some (s, None)
     | Inr sb \<Rightarrow>
        (case Create (rLib r) SandboxGVR sb s of
           None \<Rightarrow> None
         | Some (s1, Inl err) \<Rightarrow> Some (s1, Some (StoreErr err))
         | Some (s1, Inr _) \<Rightarrow> createWarm n r u tmpl tmplName ns nm s1))"

fun deleteExcess :: "('j, 'db, 'd, 'v) Reconcilers \<Rightarrow> string \<Rightarrow> 'j obj list \<Rightarrow> ('j, 'db, 'd) world \<Rightarrow> ('j, 'db, 'd) world" where
  "deleteExcess r ns [] w = w"
| "deleteExcess r ns (sb # sbs) w = deleteExcess r ns sbs (fst (StoreDelete r SandboxGVR ns (name sb) w))"

text \<open>\<^verbatim>\<open>a.After(b)\<close> on creation times; an unset one is the zero time, before every other.\<close>

definition createdAfter :: "time option \<Rightarrow> time option \<Rightarrow> bool" where
  "createdAfter a b = (case (a, b) of (Some x, Some y) \<Rightarrow> y < x | (Some _, None) \<Rightarrow> True | (None, _) \<Rightarrow> False)"

definition excessOrder :: "('j, 'db, 'd, 'v) Reconcilers \<Rightarrow> 'j obj \<Rightarrow> 'j obj \<Rightarrow> bool" where
  "excessOrder r a b = (
     if isSandboxReady r a \<noteq> isSandboxReady r b then \<not> isSandboxReady r a
     else createdAfter (creationTimestamp a) (creationTimestamp b))"

definition poolTemplate :: "('j, 'v) convlib \<Rightarrow> string \<Rightarrow> string \<Rightarrow> ('j, 'db) store \<Rightarrow> 'v TemplateSpec option" where
  "poolTemplate X ns tmplName s = (case Get TemplateGVR ns tmplName s of
      Inl _ \<Rightarrow> None
    | Inr tu \<Rightarrow> (case decTemplateSpec X (spec tu) of Inl _ \<Rightarrow> None | Inr tmpl \<Rightarrow> Some tmpl))"

text \<open>The step that brings the members to the wanted number: create, delete or leave. With a negative
  number of replicas the deleting loop runs past the end of the members, which panics.\<close>

definition adjustPool :: "('j, 'db, 'd, 'v) Reconcilers \<Rightarrow> 'j obj \<Rightarrow> 'v TemplateSpec option \<Rightarrow> string \<Rightarrow> string \<Rightarrow> string \<Rightarrow> int \<Rightarrow> 'j obj list \<Rightarrow>
    ('j, 'db, 'd) world \<Rightarrow> (('j, 'db, 'd) world \<times> rerr option) option" where
  "adjustPool r u tmpl tmplName ns nm desired mine w = (
     if tmpl \<noteq> None \<and> int (length mine) < desired
     then (case createWarm (nat (desired - int (length mine))) r u (the tmpl) tmplName ns nm (ws w) of
             None \<Rightarrow> None
           | Some (s, e) \<Rightarrow> Some (w\<lparr>ws := s\<rparr>, e))
     else if int (length mine) > desired
     then Some (deleteExcess r ns (take (nat (int (length mine) - desired)) (sortSlice r (excessOrder r) mine)) w,
                if desired < 0 then Some Panicked else None)
     else Some (w, None))"

definition poolDesired :: "WarmPoolSpec \<Rightarrow> int" where
  "poolDesired pool = (case wpReplicas pool of None \<Rightarrow> 1 | Some n \<Rightarrow> n)"

definition poolMembers :: "string \<Rightarrow> 'j obj list \<Rightarrow> 'j obj list" where
  "poolMembers nm items = filter (\<lambda>sb. ownedBy sb ''SandboxWarmPool'' nm) items"

definition reconcileWarmPool :: "('j, 'db, 'd, 'v) Reconcilers \<Rightarrow> string \<Rightarrow> string \<Rightarrow> ('j, 'db, 'd) world \<Rightarrow>
    (('j, 'db, 'd) world \<times> (rerr + Result)) option" where
  "reconcileWarmPool r ns nm w = (case Get WarmPoolGVR ns nm (ws w) of
      Inl err \<Rightarrow> (if IsNotFound err then Some (w, Inr no_requeue) else Some (w, Inl (StoreErr err)))
    | Inr u \<Rightarrow>
   (case decWarmPool (rConv r) (spec u) (status u) of
      Inl err \<Rightarrow> Some (w, Inl (ConvertErr err))
    | Inr pool \<Rightarrow>
       (let desired = poolDesired pool;
            tmpl = poolTemplate (rConv r) ns (wpTemplateRef pool) (ws w)
        in case StoreList (mapOrder r) SandboxGVR ns no_selectors (ws w) of
             Inl err \<Rightarrow> Some (w, Inl (StoreErr err))
           | Inr lst \<Rightarrow>
              (let mine = poolMembers nm (lrItems lst);
                   ready = length (filter (isSandboxReady r) mine)
               in case adjustPool r u tmpl (wpTemplateRef pool) ns nm desired mine w of
                    None \<Rightarrow> None
                  | Some (w1, Some err) \<Rightarrow> Some (w1, Inl err)
                  | Some (w1, None) \<Rightarrow>
                     (case writeWarmPoolStatus r u \<lparr>wsReplicas = int (length mine), wsReadyReplicas = int ready,
                             wsSelector = SandboxWarmPoolLabel (rAPI r) @ ''='' @ nameHash nm\<rparr> w1 of
                        (w2, e) \<Rightarrow> Some (w2, result_of no_requeue e))))))"

section \<open>Templates\<close>

text \<open>The warnings are the only effect.\<close>

definition reconcileTemplate :: "('j, 'db, 'd, 'v) Reconcilers \<Rightarrow> string \<Rightarrow> string \<Rightarrow> ('j, 'db, 'd) world \<Rightarrow>
    (rerr + Result) \<times> string list" where
  "reconcileTemplate r ns nm w = (case Get TemplateGVR ns nm (ws w) of
      Inl err \<Rightarrow> (if IsNotFound err then (Inr no_requeue, []) else (Inl (StoreErr err), []))
    | Inr u \<Rightarrow>
       (case decTemplateSpec (rConv r) (spec u) of
          Inl err \<Rightarrow> (Inl (ConvertErr err), [])
        | Inr tmpl \<Rightarrow>
           (Inr no_requeue,
            let n = length (psContainers (bpPodSpec (tsBlueprint tmpl)))
            in if n = 0 then [''SandboxTemplate has no containers'']
               else if n > 1 then [''SandboxTemplate has multiple containers; only the first is run locally'']
               else [])))"

end
