(* ===== verification/LoopRun.thy ===== *)
theory LoopRun
  imports ClaimLoop StoreRun
begin

text \<open>
  What a reconcile does to the store is a run of store operations. The relation \<open>reach\<close> is a preorder
  every store operation is in; it is closed under the composition of the loops, so that everything
  proved of runs of the store holds of the reconcilers.
\<close>

named_theorems reaches \<open>what stays within reach of the store\<close>

section \<open>Reachability\<close>

definition reach :: "('j, 'db) storelib \<Rightarrow> ('j, 'db) store \<Rightarrow> ('j, 'db) store \<Rightarrow> bool" where
  "reach L s s' \<longleftrightarrow> (keys_ok s \<longrightarrow> keys_ok s' \<and> (\<exists>log. run (store_step L) s log s'))"

lemma run_trans:
  assumes "run step t log' u" "run step s log t"
  shows "run step s (log @ log') u"
  using assms by (induction rule: run.induct) (simp, metis append.assoc run.run_step)

lemma reach_refl [simp, reaches]: "reach L s s"
  by (auto simp: reach_def intro: run.run_refl)

lemma reach_trans [trans]: "reach L s t \<Longrightarrow> reach L t u \<Longrightarrow> reach L s u"
  unfolding reach_def by (metis run_trans)

lemma store_step_keys_ok:
  assumes "store_step L s es s'" "keys_ok s"
  shows "keys_ok s'"
  using store_step_cases [OF assms]
proof (elim disjE conjE exE)
  fix ev
  assume c: "commits s ev s'" and reg: "resources s (evGVR ev) \<noteq> None"
    and v: "view s' = apply_event s ev (view s)" and d: "\<forall>g. distinct (map fst (data s' g))"
  obtain rm where rm: "resources s (evGVR ev) = Some rm" using reg by auto
  show ?thesis
  proof (cases "evType ev = Deleted")
    case True
    then have "view s' = (view s)((evGVR ev, event_key s ev) := None)" by (simp add: v apply_event_def)
    then show ?thesis using delete_keys_ok [OF assms(2) c _ d] by blast
  next
    case False
    then have v': "view s' = (view s)((evGVR ev, event_key s ev) \<mapsto> evObject ev)" by (simp add: v apply_event_def)
    show ?thesis using put_keys_ok [OF assms(2) c v' rm _ d] by (simp add: event_key_def rm)
  qed
qed (use assms silent_keys_ok in blast)

lemma reach_step: "store_step L s es s' \<Longrightarrow> reach L s s'"
  unfolding reach_def by (intro impI conjI exI) (erule (1) store_step_keys_ok, erule run_one)

lemma reach_op: "store_op L s es s' \<Longrightarrow> reach L s s'"
  by (rule reach_step) (rule store_step.op)

lemma reach_Update [reaches]: "reach L s (fst (Update L g ob st s))"
  by (cases "Update L g ob st s"; cases "snd (Update L g ob st s)") (auto intro: reach_op store_op.intros)

lemma reach_Delete [reaches]: "reach L s (fst (Delete L g ns nm s))"
  by (cases "Delete L g ns nm s"; cases "snd (Delete L g ns nm s)") (auto intro: reach_op store_op.intros)

lemma reach_Create [reaches]: "Create L g ob s = Some (s', r) \<Longrightarrow> reach L s s'"
  by (cases r) (auto intro: reach_op store_op.intros)

text \<open>The patch that sets one annotation leaves the members it does not name alone, among them the name and the
  namespace: documented behaviour of a merge patch.\<close>

definition annotation_law :: "('j, 'db) storelib \<Rightarrow> bool" where
  "annotation_law L \<longleftrightarrow> (\<forall>old oldJSON k v j ob. MarshalJSON L old = Inr oldJSON \<and>
     MergePatch L oldJSON (annotationPatch k v) = Inr j \<and> UnmarshalJSON L j = Inr ob \<longrightarrow>
       namespace ob = namespace old \<and> name ob = name old)"

lemma annotation_Patch:
  assumes "annotation_law L" "Patch L g ns nm MergePatchType (annotationPatch k v) False s = (s', Inr m)"
  obtains rm old where "resources s g = Some rm" "lookup s g (key (rmNamespaced rm) (eff_ns rm ns) nm) = Some old"
    "namespace m = namespace old" "name m = name old"
proof (rule Patch_okE [OF assms(2)])
  fix rm old patched oldJSON j
  assume a: "resources s g = Some rm" "lookup s g (key (rmNamespaced rm) (eff_ns rm ns) nm) = Some old"
    "MarshalJSON L old = Inr oldJSON" "patchJSON L MergePatchType oldJSON (annotationPatch k v) = Inr j" "UnmarshalJSON L j = Inr patched"
    "commitUpdate L g (key (rmNamespaced rm) (eff_ns rm ns) nm) old patched False s = (s', m)"
  have "MergePatch L oldJSON (annotationPatch k v) = Inr j"
    using a(4) by (auto simp: patchJSON_def patch_type_defs split: sum.splits)
  then have p: "namespace patched = namespace old \<and> name patched = name old"
    using assms(1) a(3,5) unfolding annotation_law_def by blast
  show thesis
    using that [OF a(1,2)] commitUpdate_facts(3) [OF a(6)] p by (simp add: mergeForUpdate_def Let_def)
qed

lemma reach_annotate [reaches]:
  assumes "annotation_law L"
  shows "reach L s (fst (Patch L g ns nm MergePatchType (annotationPatch k v) False s))"
proof (cases "Patch L g ns nm MergePatchType (annotationPatch k v) False s")
  case (Pair s' res)
  show ?thesis
  proof (cases res)
    case (Inl e)
    then show ?thesis using Pair by (auto intro: reach_op store_op.intros)
  next
    case (Inr m)
    have "reach L s s'"
    proof (cases "keys_ok s")
      case True
      with Pair Inr have "keeps_identity s g ns nm m"
        by (auto elim!: annotation_Patch [OF assms] simp: keeps_identity_def keys_ok_def view_def)
      then show ?thesis using Pair Inr by (auto intro: reach_op store_op.intros)
    qed (simp add: reach_def)
    then show ?thesis by (simp add: Pair)
  qed
qed

section \<open>The loops\<close>

definition wreach :: "('j, 'db, 'd, 'v) Reconcilers \<Rightarrow> ('j, 'db, 'd) world \<Rightarrow> ('j, 'db, 'd) world \<Rightarrow> bool" where
  "wreach r w w' \<longleftrightarrow> reach (rLib r) (ws w) (ws w')"

lemma wreach_refl [simp, reaches]: "wreach r w w"
  by (simp add: wreach_def)

lemma wreach_trans [trans]: "wreach r w w1 \<Longrightarrow> wreach r w1 w2 \<Longrightarrow> wreach r w w2"
  unfolding wreach_def by (rule reach_trans)

lemma wreach_driver [simp, reaches]: "wreach r w (w'\<lparr>wd := d\<rparr>) \<longleftrightarrow> wreach r w w'"
  by (simp add: wreach_def)

lemma wreach_store: "reach (rLib r) (ws w) s \<Longrightarrow> wreach r w (w\<lparr>ws := s\<rparr>)"
  by (simp add: wreach_def)

lemma wreach_writeStatus [reaches]: "wreach r w (fst (writeStatus r g u m w))"
proof -
  have "wreach r w (w\<lparr>ws := s\<rparr>)" if "Update (rLib r) g ob True (ws w) = (s, res)" for s ob res
    using that reach_Update [of "rLib r" "ws w" g ob True] by (simp add: wreach_store)
  then show ?thesis
    by (auto simp: writeStatus_def split: sum.split prod.split)
qed

lemma wreach_writers [reaches]:
  "wreach r w (fst (writeSandboxStatus r u st w))" "wreach r w (fst (writeClaimStatus r u cst w))"
  "wreach r w (fst (writeWarmPoolStatus r u pst w))" "wreach r w (fst (writePVCStatus r u ph w))"
  by (simp_all add: writeSandboxStatus_def writeClaimStatus_def writeWarmPoolStatus_def writePVCStatus_def
      wreach_writeStatus split: sum.split)

lemma wreach_annotate [reaches]:
  assumes "annotation_law (rLib r)"
  shows "wreach r w (ensurePodNameAnnotation r u p w)" "wreach r w (stampClaimSandboxAnnotation r u n w)"
  using reach_annotate [OF assms]
  by (simp_all add: ensurePodNameAnnotation_def stampClaimSandboxAnnotation_def wreach_store)

text \<open>The delete cascade, level by level.\<close>

definition reaching :: "('j, 'db, 'd, 'v) Reconcilers \<Rightarrow> ('j, 'db, 'd) deleter \<Rightarrow> bool" where
  "reaching r del \<longleftrightarrow> (\<forall>g ns nm w. wreach r w (fst (del g ns nm w)))"

lemma wreach_removeSandboxContainer [reaches]: "wreach r w (removeSandboxContainer r ns nm w)"
  by (simp add: removeSandboxContainer_def split: sum.split)

lemma wreach_cleanupVCTs: "reaching r del \<Longrightarrow> wreach r w (cleanupVCTs del r ob vcts w)"
proof (induction vcts arbitrary: w)
  case (Cons vct vcts)
  have "wreach r w (fst (del PVCGVR (namespace ob) (vctName vct @ ''-'' @ name ob) w))"
    using Cons.prems by (simp add: reaching_def)
  then show ?case
    using Cons.IH [OF Cons.prems] by (auto simp: Let_def split: sum.split intro: wreach_trans)
      (metis wreach_driver wreach_refl wreach_trans)
qed simp

lemma wreach_cascadePoolLoop: "reaching r del \<Longrightarrow> wreach r w (cascadePoolLoop del pool sbs w)"
proof (induction sbs arbitrary: w)
  case (Cons sb sbs)
  have "wreach r w (fst (del SandboxGVR (namespace sb) (name sb) w))"
    using Cons.prems by (simp add: reaching_def)
  then show ?case using Cons.IH [OF Cons.prems] by (auto intro: wreach_trans)
qed simp

lemma wreach_OnDelete:
  assumes "reaching r del"
  shows "wreach r w (OnDelete del r g ob w)"
proof -
  have "wreach r w (cleanupSandboxResources del r ob w)"
    using wreach_trans [OF wreach_removeSandboxContainer wreach_cleanupVCTs [OF assms]]
    by (auto simp: cleanupSandboxResources_def Let_def wreach_removeSandboxContainer split: sum.split)
  moreover have "wreach r w (cascadeClaimDelete del r ob w)"
    using assms by (auto simp: cascadeClaimDelete_def Let_def reaching_def split: sum.split)
  moreover have "wreach r w (cascadeWarmPoolDelete del r ob w)"
    using wreach_cascadePoolLoop [OF assms] by (auto simp: cascadeWarmPoolDelete_def split: sum.split)
  ultimately show ?thesis by (simp add: OnDelete_def cleanupPVCVolume_def)
qed

lemma wreach_deleteWith:
  assumes "\<And>g ob w. wreach r w (hook g ob w)"
  shows "wreach r w (fst (deleteWith hook r g ns nm w))"
proof -
  obtain s res where d: "Delete (rLib r) g ns nm (ws w) = (s, res)" by fastforce
  have "wreach r w (w\<lparr>ws := s\<rparr>)"
    using reach_Delete [of "rLib r" "ws w" g ns nm] by (simp add: d wreach_store)
  then show ?thesis
    using assms by (auto simp: deleteWith_def d split: sum.split intro: wreach_trans)
qed

lemma reaching_deleteLevel: "reaching r (deleteLevel n r)"
  by (induction n) (simp_all only: deleteLevel.simps reaching_def [of _ "deleteWith _ _"],
      intro allI wreach_deleteWith wreach_refl, intro allI wreach_deleteWith wreach_OnDelete)

lemma wreach_StoreDelete [reaches]: "wreach r w (fst (StoreDelete r g ns nm w))"
  using reaching_deleteLevel [of r 3] by (simp add: reaching_def StoreDelete_def)


text \<open>The sandbox loop.\<close>

lemma wreach_ensureVCTs:
  "ensureVCTs r u vcts podSpec w = Some (p, w') \<Longrightarrow> wreach r w w'"
proof (induction vcts arbitrary: podSpec w)
  case (Cons vct vcts)
  let ?n = "vctName vct @ ''-'' @ name u"
  from Cons.prems obtain w1 where w1: "ensureVCTPVCObject r u vct ?n w = Some w1"
    and rest: "ensureVCTs r u vcts (injectPodVolume (vctName vct) ?n podSpec) w1 = Some (p, w')"
    by (auto simp: Let_def split: option.splits)
  from w1 have "wreach r w w1"
    by (auto simp: ensureVCTPVCObject_def intro!: wreach_store reach_Create split: sum.splits option.splits)
  then show ?case using Cons.IH [OF rest] by (rule wreach_trans)
qed simp

lemma ensureVolumes_store [simp]: "ws (fst (ensureVolumes r ns vols w)) = ws w"
  by (induction r ns vols w rule: ensureVolumes.induct) (auto simp: Let_def split: option.split sum.split prod.split)

lemma ensureImage_store [simp]: "ws (fst (ensureImage r img w)) = ws w"
  by (auto simp: ensureImage_def split: prod.split option.split)

lemma ensureContainer_store [simp]: "ws (fst (ensureContainer r u p w)) = ws w"
  by (auto simp: ensureContainer_def split: sum.split prod.split derr.split)

lemma wreach_same: "ws w' = ws w \<Longrightarrow> wreach r w w'"
  by (simp add: wreach_def)

lemma wreach_reportRunning [reaches]:
  assumes "annotation_law (rLib r)"
  shows "wreach r w (fst (reportRunning r u sp st p info w))"
proof -
  have "wreach r w (fst (writeSandboxStatus r u st' (ensurePodNameAnnotation r u (name u) w)))" for st'
    using wreach_trans [OF wreach_annotate(1) [OF assms] wreach_writers(1)] .
  then show ?thesis unfolding reportRunning_def Let_def by (simp add: case_prod_beta)
qed

lemma wreach_failReady [reaches]: "wreach r w (fst (failReady r u st msg t w))"
  by (simp add: failReady_def Let_def wreach_writers)

text \<open>The ways through \<open>reconcileRunning\<close>: what was prepared when it stopped, and how.\<close>

definition prepared :: "('j, 'db, 'd, 'v) Reconcilers \<Rightarrow> 'j obj \<Rightarrow> 'v SandboxSpec \<Rightarrow> ('j, 'db, 'd) world \<Rightarrow> ('j, 'db, 'd) world \<Rightarrow> bool" where
  "prepared r u sp w x \<longleftrightarrow> x = w \<or>
     (\<exists>p w1. ensureVCTs r u (bpVolumeClaimTemplates (sbBlueprint sp)) (bpPodSpec (sbBlueprint sp)) w = Some (p, w1) \<and> ws x = ws w1)"

lemma reconcileRunning_cases:
  assumes "reconcileRunning r u sp st w = Some (w', res)"
  obtains (failed) x msg where "prepared r u sp w x" "w' = fst (failReady r u st msg (Clock r 1) x)" "res = Inr \<lparr>RequeueAfter = 5 * second\<rparr>"
  | (missing) x claim e where "prepared r u sp w x"
      "writeSandboxStatus r u (conditions_only (missingConds r u st claim)) x = (w', e)" "res = result_of \<lparr>RequeueAfter = readyRequeue\<rparr> e"
  | (error) err where "prepared r u sp w w'" "res = Inl err"
  | (report) p w1 w2 w3 x info where "prepared r u sp w x"
      "ensureVCTs r u (bpVolumeClaimTemplates (sbBlueprint sp)) (bpPodSpec (sbBlueprint sp)) w = Some (p, w1)"
      "ensureVolumes r (namespace u) (psVolumes p) w1 = (w2, VolumesReady)"
      "ensureImage r (cImage (hd (psContainers p))) w2 = (w3, None)"
      "ensureContainer r u p w3 = (x, Container info)" "reportRunning r u sp st p info x = (w', res)"
proof (cases "length (psContainers (bpPodSpec (sbBlueprint sp))) = 0")
  case True
  with assms have "w' = fst (failReady r u st ''Pod spec has no containers'' (Clock r 1) w)" "res = Inr \<lparr>RequeueAfter = 5 * second\<rparr>"
    by (auto simp: reconcileRunning_def failReady_def Let_def)
  then show thesis using failed [of w] by (simp add: prepared_def)
next
  case False
  with assms obtain p w1 where vct: "ensureVCTs r u (bpVolumeClaimTemplates (sbBlueprint sp)) (bpPodSpec (sbBlueprint sp)) w = Some (p, w1)"
    by (auto simp: reconcileRunning_def Let_def split: option.splits)
  obtain w2 v where vol: "ensureVolumes r (namespace u) (psVolumes p) w1 = (w2, v)" by fastforce
  obtain w3 im where img: "ensureImage r (cImage (hd (psContainers p))) w2 = (w3, im)" by fastforce
  obtain w4 c where con: "ensureContainer r u p w3 = (w4, c)" by fastforce
  have "ws w2 = ws w1" "ws w3 = ws w1" "ws w4 = ws w1"
    using ensureVolumes_store [of r "namespace u" "psVolumes p" w1] ensureImage_store [of r "cImage (hd (psContainers p))" w2]
      ensureContainer_store [of r u p w3] by (simp_all add: vol img con)
  with vct have prep: "prepared r u sp w w2" "prepared r u sp w w3" "prepared r u sp w w4"
    by (auto simp: prepared_def)
  note run = assms [unfolded reconcileRunning_def Let_def] False vct vol img con
  show thesis
  proof (cases v)
    case (ClaimMissing claim)
    obtain w5 e where "writeSandboxStatus r u (conditions_only (missingConds r u st claim)) w2 = (w5, e)" by fastforce
    then show thesis using run missing [OF prep(1)] ClaimMissing by simp
  next
    case VolumesReady
    show thesis
    proof (cases im)
      case (Some err)
      then show thesis using run VolumesReady failed [OF prep(2)] by (auto simp: failReady_def Let_def)
    next
      case None
      show thesis
      proof (cases c)
        case (Container info)
        then show thesis using run VolumesReady None report [OF prep(3) vct] vol img con by simp
      next
        case (MappingFailed msg)
        then show thesis using run VolumesReady None failed [OF prep(3)] by (auto simp: failReady_def Let_def)
      next
        case (ContainerFailed err)
        then show thesis using run VolumesReady None error [of err] prep(3) by simp
      qed
    qed
  next
    case (VolumesFailed err)
    then show thesis using run error [of err] prep(1) by simp
  qed
qed

lemma wreach_prepared: "prepared r u sp w x \<Longrightarrow> wreach r w x"
  by (auto simp: prepared_def wreach_def dest!: wreach_ensureVCTs)

lemma wreach_reconcileRunning:
  assumes "annotation_law (rLib r)" "reconcileRunning r u sp st w = Some (w', res)"
  shows "wreach r w w'"
  using assms(2)
proof (cases rule: reconcileRunning_cases)
  case (failed x msg)
  then show ?thesis using wreach_trans [OF wreach_prepared wreach_failReady] by blast
next
  case (missing x claim e)
  then show ?thesis using wreach_trans [OF wreach_prepared wreach_writers(1)] by (metis fst_conv)
next
  case (error err)
  then show ?thesis by (simp add: wreach_prepared)
next
  case (report p w1 w2 w3 x info)
  then show ?thesis using wreach_trans [OF wreach_prepared wreach_reportRunning [OF assms(1)]] by (metis fst_conv)
qed

lemma wreach_suspended_expiry [reaches]:
  "wreach r w (fst (reconcileSuspended r u sp st w))" "wreach r w (fst (handleSandboxExpiry r u sp st w))"
proof -
  show "wreach r w (fst (reconcileSuspended r u sp st w))"
    using wreach_writers(1) [of r "w\<lparr>wd := d\<rparr>" for d] wreach_writers(1) [of r w]
    by (auto simp: reconcileSuspended_def Let_def wreach_def case_prod_beta split: sum.split)
  have "wreach r w (fst (StoreDelete r g ns nm (removeSandboxContainer r ns' nm' w)))" for g ns nm ns' nm'
    using wreach_trans [OF wreach_removeSandboxContainer wreach_StoreDelete] .
  moreover have "wreach r w (fst (writeSandboxStatus r u st' (removeSandboxContainer r ns' nm' w)))" for st' ns' nm'
    using wreach_trans [OF wreach_removeSandboxContainer wreach_writers(1)] .
  ultimately show "wreach r w (fst (handleSandboxExpiry r u sp st w))"
    unfolding handleSandboxExpiry_def Let_def
    by (auto simp: case_prod_beta split: sum.split)
qed

lemma wreach_reconcileSandbox:
  assumes "annotation_law (rLib r)" "reconcileSandbox r ns nm w = Some (w', res)"
  shows "wreach r w w'"
  using assms(2) wreach_reconcileRunning [OF assms(1)] wreach_StoreDelete [of r w SandboxGVR ns nm] wreach_suspended_expiry [of r w]
  by (auto simp: reconcileSandbox_def case_prod_beta split: sum.splits prod.splits if_splits) (metis fst_conv)+

text \<open>The volume claim, claim and pool loops.\<close>

lemma wreach_reconcilePVC [reaches]: "wreach r w (fst (reconcilePVC r ns nm w))"
proof -
  have "wreach r w (fst (writePVCStatus r u ph (w\<lparr>wd := d\<rparr>)))" for u ph d
    using wreach_trans [of r w "w\<lparr>wd := d\<rparr>"] wreach_writers(4) by (metis wreach_driver wreach_refl)
  then show ?thesis
    by (auto simp: reconcilePVC_def case_prod_beta split: sum.split prod.split)
qed

text \<open>The other goroutines that interfere with an adoption act on the store by operations of their own.\<close>

definition races_reach :: "('j, 'db, 'd, 'v) Reconcilers \<Rightarrow> bool" where
  "races_reach r \<longleftrightarrow> (\<forall>i s. reach (rLib r) s (race r i s))"

lemma reach_adoptLoop: "races_reach r \<Longrightarrow> reach (rLib r) s (fst (adoptLoop i n r u pool nm s))"
proof (induction n arbitrary: i s)
  case (Suc n)
  have up: "reach (rLib r) s (fst (Update (rLib r) g ob False (race r i s)))" for g ob
    using Suc.prems reach_trans [OF _ reach_Update] unfolding races_reach_def by blast
  have "reach (rLib r) s s1 \<and> reach (rLib r) s (fst (adoptLoop (Suc i) n r u pool nm s1))"
    if "Update (rLib r) g ob False (race r i s) = (s1, res)" for g ob s1 res
    using up [of g ob] that Suc.IH [OF Suc.prems] by (auto intro: reach_trans)
  then show ?case by (auto split: sum.split prod.split)
qed simp

lemma reach_adoptWarmSandbox [reaches]: "races_reach r \<Longrightarrow> reach (rLib r) s (fst (adoptWarmSandbox r u pool s))"
  by (simp add: adoptWarmSandbox_def Let_def reach_adoptLoop del: adoptLoop.simps)

lemma reach_coldCreate [reaches]: "coldCreate r u sp tmpl s = Some (s', res) \<Longrightarrow> reach (rLib r) s s'"
  by (auto simp: coldCreate_def intro: reach_Create split: sum.splits option.splits if_splits)

lemma reach_getOrCreateSandbox:
  assumes "races_reach r" "getOrCreateSandbox r u sp st tmpl pool s = Some (s', res)"
  shows "reach (rLib r) s s'"
proof -
  obtain s1 a where s1: "(if \<not> (length (clEnv sp) > 0 \<or> length (clVolumeClaimTemplates sp) > 0) then adoptWarmSandbox r u pool s else (s, None)) = (s1, a)"
    by fastforce
  then have "reach (rLib r) s s1"
    using reach_adoptWarmSandbox [OF assms(1), of s u pool] by (auto split: if_splits)
  moreover have "s' = s \<or> s' = s1 \<or> (\<exists>res'. coldCreate r u sp tmpl s1 = Some (s', res'))"
    using assms(2) s1 by (auto simp: getOrCreateSandbox_def Let_def split: option.splits sum.splits prod.splits)
  ultimately show ?thesis using reach_coldCreate [of r u sp tmpl s1 s'] by (auto intro: reach_trans)
qed

lemma wreach_claim_parts [reaches]:
  "wreach r w (fst (claimNotReady r u st reason msg w))" "wreach r w (fst (handleClaimExpiry r u csp st w))"
proof -
  show "wreach r w (fst (claimNotReady r u st reason msg w))"
    by (simp add: claimNotReady_def Let_def wreach_writers)
  have "wreach r w (fst (writeClaimStatus r u st' (fst (StoreDelete r g ns nm w))))" for st' g ns nm
    using wreach_trans [OF wreach_StoreDelete wreach_writers(2)] .
  then show "wreach r w (fst (handleClaimExpiry r u csp st w))"
    unfolding handleClaimExpiry_def Let_def
    using wreach_StoreDelete [of r w] wreach_writers(2) [of r w]
    by (auto simp: case_prod_beta split: sum.split)
qed

lemma wreach_reportClaim [reaches]:
  assumes "annotation_law (rLib r)"
  shows "wreach r w (fst (reportClaim r u csp st sbU ad w))"
proof -
  have "wreach r w (fst (writeClaimStatus r u st' (stampClaimSandboxAnnotation r u n w)))" for st' n
    using wreach_trans [OF wreach_annotate(2) [OF assms] wreach_writers(2)] .
  then show ?thesis unfolding reportClaim_def Let_def using wreach_writers(2) [of r w] by (simp add: case_prod_beta)
qed

text \<open>The ways through \<open>reconcileClaim\<close>.\<close>

lemma reconcileClaim_cases:
  assumes "reconcileClaim r ns nm w = Some (w', res)"
  obtains (unchanged) "w' = w"
  | (expired) u sp st where "Get SandboxClaimGVR ns nm (ws w) = Inr u" "decClaimSpec (rConv r) (spec u) = Inr sp"
      "decClaimStatus (rConv r) (status u) = Inr st" "claimExpired r sp st" "handleClaimExpiry r u sp st w = (w', res)"
  | (unmet) u st reason msg where "Get SandboxClaimGVR ns nm (ws w) = Inr u" "w' = fst (claimNotReady r u st reason msg w)"
      "res = Inr \<lparr>RequeueAfter = dependencyRequeue\<rparr>"
  | (refused) u sp st tmpl s1 err where "Get SandboxClaimGVR ns nm (ws w) = Inr u"
      "getOrCreateSandbox r u sp st tmpl (clWarmPoolRef sp) (ws w) = Some (s1, Inl err)"
      "w' = (if err = Panicked then w\<lparr>ws := s1\<rparr>
             else fst (claimNotReady r u st (buildErrorReason err) (''Error seen: '' @ rerr_Error r err) (w\<lparr>ws := s1\<rparr>)))"
      "res = (if err = Panicked then Inl Panicked else Inr \<lparr>RequeueAfter = dependencyRequeue\<rparr>)"
  | (bound) u sp st tmpl s1 sbU adopted where "Get SandboxClaimGVR ns nm (ws w) = Inr u"
      "decClaimStatus (rConv r) (status u) = Inr st"
      "getOrCreateSandbox r u sp st tmpl (clWarmPoolRef sp) (ws w) = Some (s1, Inr (sbU, adopted))"
      "reportClaim r u sp st sbU adopted (w\<lparr>ws := s1\<rparr>) = (w', res)"
proof (cases "Get SandboxClaimGVR ns nm (ws w)")
  case (Inl err)
  with assms unchanged show thesis by (auto simp: reconcileClaim_def Let_def split: if_splits)
next
  case u: (Inr u)
  show thesis
  proof (cases "\<exists>sp st. decClaimSpec (rConv r) (spec u) = Inr sp \<and> decClaimStatus (rConv r) (status u) = Inr st")
    case False
    with assms u unchanged show thesis by (auto simp: reconcileClaim_def Let_def split: sum.splits)
  next
    case True
    then obtain sp st where sp: "decClaimSpec (rConv r) (spec u) = Inr sp" "decClaimStatus (rConv r) (status u) = Inr st" by blast
    note go = assms [unfolded reconcileClaim_def Let_def] u sp
    show thesis
    proof (cases "claimExpired r sp st")
      case True
      with go expired [OF u sp] show thesis by simp
    next
      case ne: False
      show thesis
      proof (cases "\<exists>pu pool tu tmpl. Get WarmPoolGVR ns (clWarmPoolRef sp) (ws w) = Inr pu \<and> decWarmPool (rConv r) (spec pu) (status pu) = Inr pool \<and>
          Get TemplateGVR ns (wpTemplateRef pool) (ws w) = Inr tu \<and> decTemplateSpec (rConv r) (spec tu) = Inr tmpl")
        case False
        then have "w' = w \<or> (\<exists>reason msg. w' = fst (claimNotReady r u st reason msg w) \<and> res = Inr \<lparr>RequeueAfter = dependencyRequeue\<rparr>)"
          using go ne by (auto simp: claimNotReady_def Let_def split: sum.splits if_splits)
        then show thesis using unchanged unmet [OF u] by blast
      next
        case True
        then obtain tmpl where bind: "(case getOrCreateSandbox r u sp st tmpl (clWarmPoolRef sp) (ws w) of
          None \<Rightarrow> None
        | Some (s1, Inl Panicked) \<Rightarrow> Some (w\<lparr>ws := s1\<rparr>, Inl Panicked)
        | Some (s1, Inl err) \<Rightarrow>
            (case claimNotReady r u st (buildErrorReason err) (''Error seen: '' @ rerr_Error r err) (w\<lparr>ws := s1\<rparr>) of (w, res) \<Rightarrow> Some (w, Inr res))
        | Some (s1, Inr (sbU, adopted)) \<Rightarrow> Some (reportClaim r u sp st sbU adopted (w\<lparr>ws := s1\<rparr>))) = Some (w', res)"
          using go ne by auto
        then obtain s1 out where goc: "getOrCreateSandbox r u sp st tmpl (clWarmPoolRef sp) (ws w) = Some (s1, out)"
          by (auto split: option.splits)
        show thesis
        proof (cases out)
          case (Inl err)
          with goc bind show thesis using refused [OF u, of sp st tmpl s1 err]
            by (cases err) (auto simp: claimNotReady_def Let_def)
        next
          case (Inr b)
          with goc bind show thesis using bound [OF u sp(2)] by (cases b) simp
        qed
      qed
    qed
  qed
qed

lemma wreach_reconcileClaim:
  assumes laws: "annotation_law (rLib r)" "races_reach r" and rec: "reconcileClaim r ns nm w = Some (w', res)"
  shows "wreach r w w'"
  using rec
proof (cases rule: reconcileClaim_cases)
  case (expired u sp st)
  then show ?thesis using wreach_claim_parts(2) by (metis fst_conv)
next
  case (refused u sp st tmpl s1 err)
  then have "wreach r w (w\<lparr>ws := s1\<rparr>)" using reach_getOrCreateSandbox [OF laws(2)] by (blast intro: wreach_store)
  then show ?thesis using refused(3) wreach_trans [OF _ wreach_claim_parts(1)] by (simp split: if_splits)
next
  case (bound u sp st tmpl s1 sbU adopted)
  then have "wreach r w (w\<lparr>ws := s1\<rparr>)" using reach_getOrCreateSandbox [OF laws(2)] by (blast intro: wreach_store)
  then show ?thesis using bound(4) wreach_trans [OF _ wreach_reportClaim [OF laws(1)]] by (metis fst_conv)
qed (auto simp: wreach_claim_parts)

lemma reach_createWarm: "createWarm n r u tmpl tn ns nm s = Some (s', e) \<Longrightarrow> reach (rLib r) s s'"
proof (induction n arbitrary: s)
  case (Suc n)
  then show ?case by (auto split: sum.splits option.splits intro: reach_trans [OF reach_Create] reach_Create)
qed simp

lemma wreach_deleteExcess [reaches]: "wreach r w (deleteExcess r ns sbs w)"
proof (induction sbs arbitrary: w)
  case (Cons sb sbs)
  show ?case using wreach_trans [OF wreach_StoreDelete Cons.IH] by simp
qed simp

lemma wreach_adjustPool:
  "adjustPool r u tmpl tn ns nm desired mine w = Some (w', e) \<Longrightarrow> wreach r w w'"
  by (auto simp: adjustPool_def wreach_deleteExcess intro!: wreach_store reach_createWarm split: if_splits option.splits)

text \<open>The ways through \<open>reconcileWarmPool\<close>.\<close>

lemma reconcileWarmPool_cases:
  assumes "reconcileWarmPool r ns nm w = Some (w', res)"
  obtains (unchanged) "w' = w"
  | (adjusted) u pool lst w1 e where "Get WarmPoolGVR ns nm (ws w) = Inr u"
      "decWarmPool (rConv r) (spec u) (status u) = Inr pool"
      "StoreList (mapOrder r) SandboxGVR ns no_selectors (ws w) = Inr lst"
      "adjustPool r u (poolTemplate (rConv r) ns (wpTemplateRef pool) (ws w)) (wpTemplateRef pool) ns nm (poolDesired pool)
         (poolMembers nm (lrItems lst)) w = Some (w1, e)"
      "case e of Some err \<Rightarrow> w' = w1 \<and> res = Inl err
         | None \<Rightarrow> (\<exists>st e'. writeWarmPoolStatus r u st w1 = (w', e') \<and> res = result_of no_requeue e')"
proof (cases "Get WarmPoolGVR ns nm (ws w)")
  case (Inl err)
  with assms unchanged show thesis by (auto simp: reconcileWarmPool_def split: if_splits)
next
  case u: (Inr u)
  show thesis
  proof (cases "decWarmPool (rConv r) (spec u) (status u)")
    case (Inl err)
    with assms u unchanged show thesis by (auto simp: reconcileWarmPool_def)
  next
    case pool: (Inr pool)
    show thesis
    proof (cases "StoreList (mapOrder r) SandboxGVR ns no_selectors (ws w)")
      case (Inl err)
      with assms u pool unchanged show thesis by (auto simp: reconcileWarmPool_def Let_def)
    next
      case lst: (Inr lst)
      note go = assms [unfolded reconcileWarmPool_def Let_def] u pool lst
      then obtain w1 e where adj: "adjustPool r u (poolTemplate (rConv r) ns (wpTemplateRef pool) (ws w)) (wpTemplateRef pool) ns nm (poolDesired pool)
         (poolMembers nm (lrItems lst)) w = Some (w1, e)"
        by (auto split: option.splits)
      show thesis
        using go adj by (intro adjusted [OF u pool lst adj]) (auto split: option.splits prod.splits)
    qed
  qed
qed

lemma wreach_reconcileWarmPool:
  assumes "reconcileWarmPool r ns nm w = Some (w', res)"
  shows "wreach r w w'"
  using assms
proof (cases rule: reconcileWarmPool_cases)
  case (adjusted u pool lst w1 e)
  have "wreach r w w1" using adjusted(4) by (rule wreach_adjustPool)
  moreover have "wreach r w1 w'"
    using adjusted(5) wreach_writers(3) [of r w1 u] by (auto split: option.splits) (metis fst_conv)
  ultimately show ?thesis by (rule wreach_trans)
qed simp

end
