(* ===== verification/LoopFacts.thy ===== *)
theory LoopFacts
  imports LoopRun FakeDriver
begin

text \<open>
  Facts about the loops that the properties rest on: that they return, what the delete cascade
  removes, what a status write leaves in the store, and what the driver shows afterwards.
\<close>

section \<open>Returning\<close>

lemma Create_NoneD: "Create L g ob s = None \<Longrightarrow> name ob = [] \<and> generateName ob \<noteq> []"
  by (auto simp: Create_def Let_def split: sum.splits if_splits)

lemma ensureVCTs_returns [simp]: "ensureVCTs r u vcts p w = None \<longleftrightarrow> False"
proof (induction vcts arbitrary: p w)
  case (Cons vct vcts)
  have "ensureVCTPVCObject r u vct (vctName vct @ ''-'' @ name u) w \<noteq> None"
    by (auto simp: ensureVCTPVCObject_def vctObject_def dest: Create_NoneD split: sum.splits option.splits)
  then show ?case using Cons.IH by (auto simp: Let_def split: option.split)
qed simp

lemma reconcileSandbox_some: "reconcileSandbox r ns nm w \<noteq> None"
  by (auto simp: reconcileSandbox_def reconcileRunning_def Let_def case_prod_beta
      split: sum.splits prod.splits option.splits volcheck.splits containerResult.splits if_splits)

lemma buildSandbox_fields:
  assumes "buildSandbox X tmpl ns nm gen owner knd lbls env vct pm = Inr sb"
  shows "namespace sb = ns" "name sb = nm" "generateName sb = gen" "labels sb = lbls" "uid sb = ''''"
    "ownerReferences sb = (case owner of None \<Rightarrow> [] | Some u \<Rightarrow> [controllerRef u ExtensionsGV knd])"
    "resourceVersion sb = ''''" "deletionTimestamp sb = None"
  using assms by (auto simp: buildSandbox_def empty_obj_def split: sum.splits)

lemma coldCreate_returns [simp]: "coldCreate r u sp tmpl s = None \<longleftrightarrow> False"
  by (auto simp: coldCreate_def dest!: Create_NoneD buildSandbox_fields(3) split: sum.splits option.splits if_splits)

lemma getOrCreateSandbox_returns [simp]: "getOrCreateSandbox r u sp st tmpl pool s = None \<longleftrightarrow> False"
  by (auto simp: getOrCreateSandbox_def Let_def split: option.splits prod.splits sum.splits)

lemma reconcileClaim_some: "reconcileClaim r ns nm w \<noteq> None"
  by (auto simp: reconcileClaim_def Let_def case_prod_beta split: sum.splits option.splits prod.splits rerr.splits if_splits)

end
