(* ===== verification/Cascade.thy ===== *)
theory Cascade
  imports LoopFacts
begin

text \<open>
  What the delete cascade removes: the target, and beyond it only objects owned by something
  removed in the same cascade. Everything else stays as it is.
\<close>

section \<open>Registered stores\<close>

definition loop_gvrs :: "GVR set" where
  "loop_gvrs = {SandboxGVR, SandboxClaimGVR, WarmPoolGVR, TemplateGVR, PVCGVR}"

definition registered :: "('j, 'db) store \<Rightarrow> bool" where
  "registered s \<longleftrightarrow> (\<forall>g \<in> loop_gvrs. resources s g = Some \<lparr>rmNamespaced = True, rmGroupRes = GVR_GroupResource g\<rparr>)"

definition at :: "GVR \<Rightarrow> string \<Rightarrow> string \<Rightarrow> GVR \<times> string" where
  "at g ns nm = (g, ns @ ''/'' @ nm)"

lemma registered_meta: "registered s \<Longrightarrow> g \<in> loop_gvrs \<Longrightarrow> meta s g = Inr \<lparr>rmNamespaced = True, rmGroupRes = GVR_GroupResource g\<rparr>"
  by (simp add: registered_def)

lemma loop_gvrs_simps [simp]:
  "SandboxGVR \<in> loop_gvrs" "SandboxClaimGVR \<in> loop_gvrs" "WarmPoolGVR \<in> loop_gvrs" "TemplateGVR \<in> loop_gvrs" "PVCGVR \<in> loop_gvrs"
  by (simp_all add: loop_gvrs_def)

lemma Get_view:
  assumes "registered s" "g \<in> loop_gvrs"
  shows "Get g ns nm s = (case view s (at g ns nm) of None \<Rightarrow> Inl (NotFound (GVR_GroupResource g) nm) | Some ob \<Rightarrow> Inr ob)"
  unfolding Get_def registered_meta [OF assms] by (simp add: key_def at_def view_def split: option.split)

lemma Get_Inr: "registered s \<Longrightarrow> g \<in> loop_gvrs \<Longrightarrow> Get g ns nm s = Inr ob \<longleftrightarrow> view s (at g ns nm) = Some ob"
  by (simp add: Get_view split: option.split)

lemma stored_at:
  assumes "keys_ok s" "registered s" "g \<in> loop_gvrs" "view s (g, k) = Some ob"
  shows "(g, k) = at g (namespace ob) (name ob)"
proof -
  have "resources s g = Some \<lparr>rmNamespaced = True, rmGroupRes = GVR_GroupResource g\<rparr>" using assms by (simp add: registered_def)
  then have "k = key True (namespace ob) (name ob)" using assms(1,4) unfolding keys_ok_def by fastforce
  then show ?thesis by (simp add: at_def key_def)
qed

section \<open>Shrinking\<close>

definition shrinks :: "('j, 'db, 'd) world \<Rightarrow> ('j, 'db, 'd) world \<Rightarrow> bool" where
  "shrinks w w' \<longleftrightarrow> (\<forall>x. view (ws w') x = view (ws w) x \<or> view (ws w') x = None) \<and>
     resources (ws w') = resources (ws w)"

lemma shrinks_refl [simp]: "shrinks w w"
  by (simp add: shrinks_def)

lemma shrinks_driver [simp]: "shrinks w (w'\<lparr>wd := d\<rparr>) \<longleftrightarrow> shrinks w w'" "shrinks (w\<lparr>wd := d\<rparr>) w' \<longleftrightarrow> shrinks w w'"
  by (simp_all add: shrinks_def)

lemma shrinks_trans [trans]: "shrinks w w1 \<Longrightarrow> shrinks w1 w2 \<Longrightarrow> shrinks w w2"
  unfolding shrinks_def by metis

lemma shrinks_view: "shrinks w w' \<Longrightarrow> view (ws w') x = Some ob \<Longrightarrow> view (ws w) x = Some ob"
  unfolding shrinks_def by (metis option.discI)

lemma shrinks_gone: "shrinks w w' \<Longrightarrow> view (ws w) x = None \<Longrightarrow> view (ws w') x = None"
  unfolding shrinks_def by metis

lemma shrinks_registered: "shrinks w w' \<Longrightarrow> registered (ws w') \<longleftrightarrow> registered (ws w)"
  by (simp add: shrinks_def registered_def)

section \<open>Owned by something removed\<close>

definition owns :: "GVR \<times> string \<Rightarrow> 'j obj \<Rightarrow> GVR \<times> string \<Rightarrow> 'j obj \<Rightarrow> bool" where
  "owns y ow x ob \<longleftrightarrow> controllerOwnerUID ob = uid ow \<or>
     (fst y = WarmPoolGVR \<and> fst x = SandboxGVR \<and> ownedBy ob ''SandboxWarmPool'' (name ow))"

definition removes :: "('j, 'db, 'd) world \<Rightarrow> ('j, 'db, 'd) world \<Rightarrow> GVR \<times> string \<Rightarrow> 'j obj \<Rightarrow> bool" where
  "removes w w' x ob \<longleftrightarrow> view (ws w) x = Some ob \<and> view (ws w') x = None"

definition cascade :: "(GVR \<times> string) set \<Rightarrow> ('j, 'db, 'd) world \<Rightarrow> ('j, 'db, 'd) world \<Rightarrow> bool" where
  "cascade A w w' \<longleftrightarrow> shrinks w w' \<and>
     (\<forall>x ob. removes w w' x ob \<longrightarrow> x \<in> A \<or> (\<exists>y ow. removes w w' y ow \<and> owns y ow x ob))"

lemma cascade_shrinks: "cascade A w w' \<Longrightarrow> shrinks w w'"
  by (simp add: cascade_def)

lemma cascade_refl [simp]: "cascade A w w"
  by (auto simp: cascade_def removes_def)

lemma cascade_driver [simp]: "cascade A w (w'\<lparr>wd := d\<rparr>) \<longleftrightarrow> cascade A w w'"
  by (simp add: cascade_def removes_def)

lemma cascade_driver' [simp]: "cascade A (w\<lparr>wd := d\<rparr>) w' \<longleftrightarrow> cascade A w w'"
  by (simp add: cascade_def removes_def)

lemma cascade_mono: "cascade A w w' \<Longrightarrow> A \<subseteq> B \<Longrightarrow> cascade B w w'"
  unfolding cascade_def by blast

lemma removes_later: "removes w w1 y ow \<Longrightarrow> shrinks w1 w2 \<Longrightarrow> removes w w2 y ow"
  by (auto simp: removes_def dest: shrinks_gone)

lemma removes_earlier: "shrinks w w1 \<Longrightarrow> removes w1 w2 y ow \<Longrightarrow> removes w w2 y ow"
  by (auto simp: removes_def dest: shrinks_view)

lemma cascade_trans:
  assumes "cascade A w w1" "cascade A w1 w2"
  shows "cascade A w w2"
proof -
  have sh: "shrinks w w1" "shrinks w1 w2" using assms by (simp_all add: cascade_shrinks)
  have "x \<in> A \<or> (\<exists>y ow. removes w w2 y ow \<and> owns y ow x ob)" if r: "removes w w2 x ob" for x ob
  proof (cases "view (ws w1) x")
    case None
    with r have "removes w w1 x ob" by (simp add: removes_def)
    then show ?thesis using assms(1) sh removes_later unfolding cascade_def by metis
  next
    case (Some ob')
    with r sh(1) have "removes w1 w2 x ob" by (auto simp: removes_def dest: shrinks_view)
    then show ?thesis using assms(2) sh removes_earlier unfolding cascade_def by metis
  qed
  with shrinks_trans [OF sh] show ?thesis by (simp add: cascade_def)
qed

text \<open>A root that something removed owns need not be listed.\<close>

lemma cascade_root_owned:
  assumes "cascade (insert x A) w w'"
    and "\<And>ob. removes w w' x ob \<Longrightarrow> \<exists>y ow. removes w w' y ow \<and> owns y ow x ob"
  shows "cascade A w w'"
  using assms unfolding cascade_def by blast

section \<open>The cascade of a delete\<close>

text \<open>A deleter stays within its target, and leaves it absent.\<close>

definition ready_world :: "('j, 'db, 'd) world \<Rightarrow> bool" where
  "ready_world w \<longleftrightarrow> keys_ok (ws w) \<and> registered (ws w)"

definition contained :: "('j, 'db, 'd, 'v) Reconcilers \<Rightarrow> ('j, 'db, 'd) deleter \<Rightarrow> bool" where
  "contained r del \<longleftrightarrow> reaching r del \<and> (\<forall>g ns nm w. ready_world w \<and> g \<in> loop_gvrs \<longrightarrow>
     cascade {at g ns nm} w (fst (del g ns nm w)))"

lemma ready_world_driver [simp]: "ready_world (w\<lparr>wd := d\<rparr>) \<longleftrightarrow> ready_world w"
  by (simp add: ready_world_def)

lemma ready_world_reach: "wreach r w w' \<Longrightarrow> shrinks w w' \<Longrightarrow> ready_world w \<Longrightarrow> ready_world w'"
  by (simp add: ready_world_def wreach_def reach_def shrinks_registered)

lemma contained_del:
  assumes "contained r del" "ready_world w" "g \<in> loop_gvrs"
  shows "cascade {at g ns nm} w (fst (del g ns nm w))" "ready_world (fst (del g ns nm w))"
proof -
  show c: "cascade {at g ns nm} w (fst (del g ns nm w))" using assms by (simp add: contained_def)
  show "ready_world (fst (del g ns nm w))"
    using assms cascade_shrinks [OF c] ready_world_reach [of r w "fst (del g ns nm w)"] by (simp add: contained_def reaching_def)
qed

text \<open>The objects an owner owns at some moment.\<close>

definition owned_in :: "('j, 'db, 'd) world \<Rightarrow> GVR \<times> string \<Rightarrow> 'j obj \<Rightarrow> (GVR \<times> string) set" where
  "owned_in w y ow = {x. \<exists>ob. view (ws w) x = Some ob \<and> owns y ow x ob}"

lemma owned_in_shrinks: "shrinks w w' \<Longrightarrow> owned_in w' y ow \<subseteq> owned_in w y ow"
  by (auto simp: owned_in_def dest: shrinks_view)

lemma owned_in_driver [simp]: "owned_in (w\<lparr>wd := d\<rparr>) y ow = owned_in w y ow"
  by (simp add: owned_in_def)

lemma cascade_step:
  assumes "contained r del" "ready_world w" "at g ns nm \<in> A" "g \<in> loop_gvrs"
    and "\<And>w'. cascade A w w' \<Longrightarrow> ready_world w' \<Longrightarrow> cascade A w' (f w')"
  shows "cascade A w (f (fst (del g ns nm w)))"
proof -
  let ?w = "fst (del g ns nm w)"
  have "cascade A w ?w" using contained_del(1) [OF assms(1,2,4)] assms(3) by (auto intro: cascade_mono)
  then show ?thesis using assms(5) contained_del(2) [OF assms(1,2,4)] cascade_trans by blast
qed

lemma cascade_cleanupVCTs:
  assumes "contained r del" "ready_world w" "owned_in w y ob \<subseteq> A"
  shows "cascade A w (cleanupVCTs del r ob vcts w)"
  using assms(2,3)
proof (induction vcts arbitrary: w)
  case (Cons vct vcts)
  let ?n = "vctName vct @ ''-'' @ name ob"
  have reg: "registered (ws w)" using Cons.prems by (simp add: ready_world_def)
  show ?case
  proof (cases "Get PVCGVR (namespace ob) ?n (ws w)")
    case (Inl e)
    then show ?thesis using Cons.IH [of "w\<lparr>wd := d\<rparr>" for d] Cons.prems by (simp add: Let_def)
  next
    case (Inr pu)
    show ?thesis
    proof (cases "controllerOwnerUID pu = uid ob")
      case False
      then show ?thesis using Inr Cons by (simp add: Let_def)
    next
      case True
      have "at PVCGVR (namespace ob) ?n \<in> A"
        using Inr True Cons.prems(2) Get_Inr [OF reg] by (auto simp: owned_in_def owns_def)
      then have "cascade A w (cleanupVCTs del r ob vcts (fst (del PVCGVR (namespace ob) ?n w)))"
      proof (intro cascade_step [OF assms(1) Cons.prems(1)])
        fix w' assume "cascade A w w'" and w': "ready_world w'"
        then have "owned_in w' y ob \<subseteq> A" using Cons.prems(2) owned_in_shrinks [OF cascade_shrinks] by blast
        with w' show "cascade A w' (cleanupVCTs del r ob vcts w')" by (rule Cons.IH)
      qed simp_all
      then show ?thesis using Inr True by (simp add: Let_def)
    qed
  qed
qed simp

lemma cascade_cascadePoolLoop:
  assumes "contained r del" "ready_world w" "\<And>sb. sb \<in> set sbs \<Longrightarrow> ownedBy sb ''SandboxWarmPool'' pool \<Longrightarrow> at SandboxGVR (namespace sb) (name sb) \<in> A"
  shows "cascade A w (cascadePoolLoop del pool sbs w)"
  using assms(2,3)
proof (induction sbs arbitrary: w)
  case (Cons sb sbs)
  have IH: "ready_world w' \<Longrightarrow> cascade A w' (cascadePoolLoop del pool sbs w')" for w' using Cons by simp
  then show ?case
    using cascade_step [OF assms(1) Cons.prems(1), of SandboxGVR "namespace sb" "name sb" A "cascadePoolLoop del pool sbs"] Cons.prems
    by simp
qed simp

lemma removeSandboxContainer_store [simp]: "ws (removeSandboxContainer r ns nm w) = ws w"
  by (simp add: removeSandboxContainer_def split: sum.split)

lemma cascade_same: "ws w1 = ws w \<Longrightarrow> cascade A w1 w' \<longleftrightarrow> cascade A w w'"
  by (simp add: cascade_def removes_def shrinks_def)

lemma StoreList_stored:
  assumes "permutes ord" "keys_ok s" "StoreList ord g ns no_selectors s = Inr lst" "sb \<in> set (lrItems lst)"
  shows "\<exists>k. view s (g, k) = Some sb"
proof -
  have "sb \<in> snd ` set (ord (data s g))" using assms(3,4) by (auto simp: StoreList_def split: sum.splits)
  also have "set (ord (data s g)) = set (data s g)" using assms(1) by (metis permutes_def set_mset_mset)
  finally obtain k where "(k, sb) \<in> set (data s g)" by auto
  then have "view s (g, k) = Some sb"
    using assms(2) by (auto simp: keys_ok_def view_def lookup_def intro: map_of_is_SomeI)
  then show ?thesis by blast
qed

lemma cascade_OnDelete:
  assumes del: "contained r del" and w: "ready_world w" and ord: "permutes (mapOrder r)"
    and owned: "owned_in w y ob \<subseteq> A" and y: "fst y = g"
  shows "cascade A w (OnDelete del r g ob w)"
proof -
  have reg: "registered (ws w)" "keys_ok (ws w)" using w by (simp_all add: ready_world_def)
  have "cascade A w (cleanupSandboxResources del r ob w)"
  proof -
    let ?w = "removeSandboxContainer r (namespace ob) (name ob) w"
    have "cascade A ?w (cleanupVCTs del r ob vcts ?w)" for vcts
      using w owned by (intro cascade_cleanupVCTs [OF del]) (simp_all add: ready_world_def owned_in_def)
    moreover have "cascade A w ?w" using cascade_refl [of A w] cascade_same [of ?w w A ?w] cascade_refl [of A ?w] by simp
    ultimately have "cascade A w ?w" "cascade A w (cleanupVCTs del r ob vcts ?w)" for vcts
      using cascade_same [of ?w w A "cleanupVCTs del r ob vcts ?w"] by simp_all
    then show ?thesis
      by (auto simp: cleanupSandboxResources_def Let_def split: sum.split)
  qed
  moreover have "cascade A w (cascadeClaimDelete del r ob w)"
  proof -
    have "cascade A w (fst (del SandboxGVR (namespace ob) n w))"
      if sb: "Get SandboxGVR (namespace ob) n (ws w) = Inr sb" "controllerOwnerUID sb = uid ob" for n sb
    proof -
      have "view (ws w) (at SandboxGVR (namespace ob) n) = Some sb" using sb(1) Get_Inr [OF reg(1)] by simp
      then have "at SandboxGVR (namespace ob) n \<in> A" using sb(2) owned by (auto simp: owned_in_def owns_def)
      then show ?thesis using cascade_mono [OF contained_del(1) [OF del w, of SandboxGVR "namespace ob" n]] by simp
    qed
    then show ?thesis by (auto simp: cascadeClaimDelete_def Let_def split: sum.split)
  qed
  moreover have "cascade A w (cascadeWarmPoolDelete del r ob w)" if "g = WarmPoolGVR"
  proof (cases "StoreList (mapOrder r) SandboxGVR (namespace ob) no_selectors (ws w)")
    case (Inr lst)
    have "at SandboxGVR (namespace sb) (name sb) \<in> A"
      if sb: "sb \<in> set (lrItems lst)" "ownedBy sb ''SandboxWarmPool'' (name ob)" for sb
    proof -
      obtain k where k: "view (ws w) (SandboxGVR, k) = Some sb" using StoreList_stored [OF ord reg(2) Inr sb(1)] by blast
      with stored_at [OF reg(2,1) _ k] have "view (ws w) (at SandboxGVR (namespace sb) (name sb)) = Some sb" by simp
      then show ?thesis using owned y sb(2) \<open>g = WarmPoolGVR\<close> by (auto simp: owned_in_def owns_def at_def)
    qed
    then show ?thesis using cascade_cascadePoolLoop [OF del w] Inr by (simp add: cascadeWarmPoolDelete_def)
  qed (simp add: cascadeWarmPoolDelete_def)
  ultimately show ?thesis by (simp add: OnDelete_def cleanupPVCVolume_def)
qed


text \<open>A delete with any hook that only removes what the deleted object owns.\<close>

lemma Delete_view:
  assumes "ready_world w" "g \<in> loop_gvrs" "Delete (rLib r) g ns nm (ws w) = (s, Inr ob)"
  shows "view s = (view (ws w))(at g ns nm := None)" "resources s = resources (ws w)"
    "\<exists>old. view (ws w) (at g ns nm) = Some old \<and> ob = old\<lparr>resourceVersion := FormatUint (rv (ws w) + 1)\<rparr>"
proof -
  have rm: "resources (ws w) g = Some \<lparr>rmNamespaced = True, rmGroupRes = GVR_GroupResource g\<rparr>"
    using assms by (simp add: ready_world_def registered_def)
  from assms(3) show "view s = (view (ws w))(at g ns nm := None)"
    "\<exists>old. view (ws w) (at g ns nm) = Some old \<and> ob = old\<lparr>resourceVersion := FormatUint (rv (ws w) + 1)\<rparr>"
    using rm by (auto elim!: Delete_okE simp: at_def key_def eff_ns_def view_def)
  show "resources s = resources (ws w)" using assms(3) by (rule delete_effect_resources)
qed

lemma owns_version [simp]: "owns y (ow\<lparr>resourceVersion := v\<rparr>) x ob \<longleftrightarrow> owns y ow x ob"
  by (simp add: owns_def)

lemma cascade_deleteWith:
  assumes w: "ready_world w" and g: "g \<in> loop_gvrs"
    and hook: "\<And>ob w'. ready_world w' \<Longrightarrow> wreach r w w' \<Longrightarrow> cascade (owned_in w' (at g ns nm) ob) w' (hook g ob w')"
  shows "cascade {at g ns nm} w (fst (deleteWith hook r g ns nm w)) \<and>
    view (ws (fst (deleteWith hook r g ns nm w))) (at g ns nm) = None"
proof (cases "Delete (rLib r) g ns nm (ws w)")
  case (Pair s res)
  show ?thesis
  proof (cases res)
    case (Inl e)
    then have "s = ws w" using Pair by (auto dest: Delete_err)
    moreover have "view (ws w) (at g ns nm) = None"
      using Pair Inl registered_meta [OF _ g, of "ws w"] w
      by (auto simp: Delete_def Let_def ready_world_def at_def key_def view_def simp del: meta_Inr split: option.splits)
    ultimately show ?thesis using Pair Inl by (simp add: deleteWith_def)
  next
    case (Inr ob)
    note d = Delete_view [OF w g Pair [unfolded Inr]]
    let ?w1 = "w\<lparr>ws := s\<rparr>"
    let ?w2 = "fst (deleteWith hook r g ns nm w)"
    obtain old where old: "view (ws w) (at g ns nm) = Some old" "ob = old\<lparr>resourceVersion := FormatUint (rv (ws w) + 1)\<rparr>"
      using d(3) by blast
    have sh: "shrinks w ?w1" using d by (simp add: shrinks_def)
    have "reach (rLib r) (ws w) s" using reach_Delete [of "rLib r" "ws w" g ns nm] by (simp add: Pair)
    then have w1: "wreach r w ?w1" "ready_world ?w1" using ready_world_reach [of r w ?w1] sh w by (simp_all add: wreach_store)
    have hk: "cascade (owned_in ?w1 (at g ns nm) ob) ?w1 ?w2"
      using hook [OF w1(2,1)] Pair Inr by (simp add: deleteWith_def)
    have tgt: "removes w ?w2 (at g ns nm) old"
      using old(1) d(1) shrinks_gone [OF cascade_shrinks [OF hk], of "at g ns nm"] by (simp add: removes_def)
    have "x = at g ns nm \<or> (\<exists>y ow. removes w ?w2 y ow \<and> owns y ow x o')" if x: "removes w ?w2 x o'" for x o'
    proof (cases "x = at g ns nm")
      case False
      then have "view (ws ?w1) x = view (ws w) x" by (simp add: d(1))
      with x have x1: "removes ?w1 ?w2 x o'" by (simp add: removes_def)
      show ?thesis
      proof (cases "x \<in> owned_in ?w1 (at g ns nm) ob")
        case True
        then have "owns (at g ns nm) old x o'" using x1 old(2) by (auto simp: owned_in_def removes_def)
        with tgt show ?thesis by blast
      next
        case False
        with hk x1 obtain y ow where "removes ?w1 ?w2 y ow" "owns y ow x o'" unfolding cascade_def by blast
        then show ?thesis using removes_earlier [OF sh] by blast
      qed
    qed simp
    then show ?thesis using shrinks_trans [OF sh cascade_shrinks [OF hk]] tgt by (simp add: cascade_def removes_def)
  qed
qed

lemma deleteLevel_cascade:
  assumes "permutes (mapOrder r)" "ready_world w" "g \<in> loop_gvrs"
  shows "cascade {at g ns nm} w (fst (deleteLevel n r g ns nm w)) \<and> view (ws (fst (deleteLevel n r g ns nm w))) (at g ns nm) = None"
  using assms(2,3)
proof (induction n arbitrary: g ns nm w)
  case 0
  show ?case unfolding deleteLevel.simps using 0 by (intro cascade_deleteWith cascade_refl)
next
  case (Suc n)
  have "contained r (deleteLevel n r)" using Suc.IH reaching_deleteLevel by (simp add: contained_def)
  then show ?case
    unfolding deleteLevel.simps using Suc.prems assms(1)
    by (intro cascade_deleteWith cascade_OnDelete [where y = "at g ns nm"]) (simp_all add: at_def)
qed

lemma contained_StoreDelete: "permutes (mapOrder r) \<Longrightarrow> contained r (StoreDelete r)"
  using deleteLevel_cascade [of r _ _ _ _ 3] reaching_deleteLevel [of r 3] by (simp add: contained_def StoreDelete_def)

lemmas cascade_StoreDelete = contained_del [OF contained_StoreDelete]

lemma StoreDelete_gone:
  assumes "permutes (mapOrder r)" "ready_world w" "g \<in> loop_gvrs"
  shows "view (ws (fst (StoreDelete r g ns nm w))) (at g ns nm) = None"
  using deleteLevel_cascade [OF assms, of ns nm 3] by (simp add: StoreDelete_def)

lemma StoreDelete_result: "snd (StoreDelete r g ns nm w) = snd (Delete (rLib r) g ns nm (ws w))"
  by (subst StoreDelete_unfold) (simp add: deleteWith_def case_prod_beta split: sum.split)

end
