(* ===== verification/SandboxFacts.thy ===== *)
theory SandboxFacts
  imports Cascade
begin

text \<open>
  The sandbox loop on a store where the resources are registered: the status a reconcile leaves, and
  the container the driver shows.
\<close>

section \<open>Writing the status\<close>

lemma Update_status:
  assumes "registered s" "g \<in> loop_gvrs" "view s (at g (namespace ob) (name ob)) = Some old" "resourceVersion ob = ''''"
  shows "\<exists>s'. Update L g ob True s = (s', Inr (old\<lparr>status := status ob, resourceVersion := FormatUint (rv s + 1)\<rparr>)) \<and>
    view s' = (view s)(at g (namespace ob) (name ob) \<mapsto> old\<lparr>status := status ob, resourceVersion := FormatUint (rv s + 1)\<rparr>) \<and>
    resources s' = resources s"
proof -
  let ?k = "namespace ob @ ''/'' @ name ob"
  obtain s' m where c: "commitUpdate L g ?k old ob True s = (s', m)" by fastforce
  note f = commitUpdate_facts [OF c]
  have "m = old\<lparr>status := status ob, resourceVersion := FormatUint (rv s + 1)\<rparr>"
    by (simp add: f(3) mergeForUpdate_def)
  moreover have "lookup s g ?k = Some old" using assms(3) by (simp add: at_def view_def)
  then have "Update L g ob True s = (s', Inr m)"
    using c assms(4) unfolding Update_def registered_meta [OF assms(1,2)] by (simp add: Let_def key_def stale_def)
  moreover have "resources s' = resources s" using f(1) by (simp add: commits_def)
  ultimately show ?thesis using f(2) by (simp add: at_def)
qed

lemma writeStatus_stored:
  assumes "registered (ws w)" "g \<in> loop_gvrs" "view (ws w) (at g (namespace u) (name u)) = Some old"
    and "writeStatus r g u (Inr tree) w = (w', e)"
  shows "e = None" "wd w' = wd w"
    "view (ws w') = (view (ws w))(at g (namespace u) (name u) \<mapsto> old\<lparr>status := Some tree, resourceVersion := FormatUint (rv (ws w) + 1)\<rparr>)"
proof -
  let ?n = "u\<lparr>status := Some tree, resourceVersion := ''''\<rparr>"
  obtain s' where "Update (rLib r) g ?n True (ws w) = (s', Inr (old\<lparr>status := Some tree, resourceVersion := FormatUint (rv (ws w) + 1)\<rparr>))"
    "view s' = (view (ws w))(at g (namespace u) (name u) \<mapsto> old\<lparr>status := Some tree, resourceVersion := FormatUint (rv (ws w) + 1)\<rparr>)"
    using Update_status [OF assms(1,2), of ?n old "rLib r"] assms(3) by auto
  then show "e = None" "wd w' = wd w"
    "view (ws w') = (view (ws w))(at g (namespace u) (name u) \<mapsto> old\<lparr>status := Some tree, resourceVersion := FormatUint (rv (ws w) + 1)\<rparr>)"
    using assms(4) by (auto simp: writeStatus_def setStatus_def)
qed

text \<open>The conditions a sandbox reports after its status was written.\<close>

definition reports :: "('j, 'db, 'd, 'v) Reconcilers \<Rightarrow> 'j obj \<Rightarrow> SandboxStatus \<Rightarrow> bool" where
  "reports r ob st \<longleftrightarrow> (\<exists>tree. encSandboxStatus (rConv r) st = Inr tree \<and> status ob = Some tree)"

lemma reports_ready:
  assumes "status_laws (rConv r)" "cond_laws (rCond r)" "reports r ob st" "isSandboxReady r ob"
  shows "IsStatusConditionTrue (rCond r) (stConditions st) CondReady"
proof -
  obtain tree st' where t: "encSandboxStatus (rConv r) st = Inr tree" "decSandboxStatus (rConv r) (Some tree) = Inr st'"
    "untimed (stConditions st') = untimed (stConditions st)" "status ob = Some tree"
    using assms(1,3) unfolding status_laws_def reports_def by (metis sum.inject(2))
  then have "IsStatusConditionTrue (rCond r) (stConditions st') CondReady"
    using assms(4) by (auto simp: isSandboxReady_def decodeSandbox_def split: sum.splits)
  then show ?thesis using present_untimed [OF assms(2) t(3)] by (simp add: IsStatusConditionTrue_def)
qed

lemma writeSandboxStatus_reports:
  assumes "status_laws (rConv r)" "registered (ws w)" "view (ws w) (at SandboxGVR (namespace u) (name u)) = Some old"
    and "writeSandboxStatus r u st w = (w', e)"
  shows "\<exists>ob. view (ws w') (at SandboxGVR (namespace u) (name u)) = Some ob \<and> reports r ob st" "e = None" "wd w' = wd w"
proof -
  obtain tree where t: "encSandboxStatus (rConv r) st = Inr tree" using assms(1) unfolding status_laws_def by blast
  note wr = writeStatus_stored [OF assms(2) _ assms(3) assms(4) [unfolded writeSandboxStatus_def t]]
  show "e = None" "wd w' = wd w" using wr(1,2) by simp_all
  show "\<exists>ob. view (ws w') (at SandboxGVR (namespace u) (name u)) = Some ob \<and> reports r ob st"
    using wr(3) t by (simp add: reports_def)
qed

section \<open>The conditions\<close>

lemma cond_types [simp]:
  "CondFinished \<noteq> CondReady" "CondSuspended \<noteq> CondReady" "CondReady \<noteq> CondSuspended" "CondFinished \<noteq> CondSuspended" "CondSuspended \<noteq> CondFinished"
  by (simp_all add: cond_type_defs)

lemma ready_setCond:
  "cond_laws K \<Longrightarrow> IsStatusConditionTrue K (setCond K t st reason msg gen tm cs) CondReady \<longleftrightarrow>
     (if t = CondReady then st = ''True'' else IsStatusConditionTrue K cs CondReady)"
  by (auto simp: IsStatusConditionTrue_def setCond_def cond_set)

lemma ready_remove:
  "cond_laws K \<Longrightarrow> t \<noteq> CondReady \<Longrightarrow> IsStatusConditionTrue K (RemoveStatusCondition K t cs) CondReady \<longleftrightarrow> IsStatusConditionTrue K cs CondReady"
  by (simp add: IsStatusConditionTrue_def cond_remove)

lemma containerStatus_ready:
  assumes "cond_laws (rCond r)"
  shows "IsStatusConditionTrue (rCond r) (stConditions (containerStatus r u info port d cs)) CondReady \<longleftrightarrow>
    ciState info = ''running'' \<and> probeOK r info port d \<and> ciIPAddress info \<noteq> ''''"
  by (auto simp: containerStatus_def Let_def conditions_only_def empty_SandboxStatus_def ready_setCond [OF assms])

lemma withService_conditions [simp]: "stConditions (withService r u sp st) = stConditions st"
  by (simp add: withService_def)

section \<open>Sandboxes stay where they are\<close>

lemma Create_frame:
  assumes cr: "Create L g ob s = Some (s', res)"
  shows "resources s' = resources s \<and> (\<forall>x. fst x \<noteq> g \<longrightarrow> view s' x = view s x)"
proof (cases res)
  case (Inl e)
  with cr obtain i where "s' = s\<lparr>randCount := i\<rparr>" by (auto dest: Create_errE)
  then show ?thesis by (simp add: view_def lookup_def fun_eq_iff)
next
  case (Inr ob')
  with cr obtain rm ob1 i where c: "createNamed L g rm ob1 (s\<lparr>randCount := i\<rparr>) = (s', Inr ob')" "resources s g = Some rm"
    using Create_okE [of L g ob s s' ob'] by metis
  have "view (s\<lparr>randCount := i\<rparr>) = view s" by (simp add: view_def lookup_def fun_eq_iff)
  then show ?thesis using createNamed_ok(1,3) [OF c(1)] c(2) by (auto simp: commits_def)
qed

lemma Patch_frame:
  assumes "Patch L g ns nm t body st s = (s', res)"
  shows "resources s' = resources s \<and> (\<forall>x. view s x \<noteq> None \<longrightarrow> view s' x \<noteq> None)"
proof (cases res)
  case (Inl e)
  then show ?thesis using assms by (auto dest: Patch_err)
next
  case (Inr m)
  with assms obtain k old inc where c: "commitUpdate L g k old inc st s = (s', m)" by (auto elim: Patch_okE)
  show ?thesis using commitUpdate_facts(1,2) [OF c] by (auto simp: commits_def)
qed

lemma ensureVCTs_frame:
  "ensureVCTs r u vcts p w = Some (p', w') \<Longrightarrow> registered (ws w) \<Longrightarrow>
     wd w' = wd w \<and> resources (ws w') = resources (ws w) \<and> (\<forall>x. fst x \<noteq> PVCGVR \<longrightarrow> view (ws w') x = view (ws w) x)"
proof (induction vcts arbitrary: p w)
  case (Cons vct vcts)
  let ?n = "vctName vct @ ''-'' @ name u"
  from Cons.prems(1) obtain w1 where w1: "ensureVCTPVCObject r u vct ?n w = Some w1"
    and rest: "ensureVCTs r u vcts (injectPodVolume (vctName vct) ?n p) w1 = Some (p', w')"
    by (auto simp: Let_def split: option.splits)
  have "wd w1 = wd w \<and> resources (ws w1) = resources (ws w) \<and> (\<forall>x. fst x \<noteq> PVCGVR \<longrightarrow> view (ws w1) x = view (ws w) x)"
    using w1 Create_frame [of "rLib r" PVCGVR _ "ws w"] by (auto simp: ensureVCTPVCObject_def split: sum.splits option.splits)
  then show ?case using Cons.IH [OF rest] Cons.prems(2) by (simp add: registered_def)
qed simp

lemma prepared_frame:
  assumes "prepared r u sp w x" "registered (ws w)"
  shows "registered (ws x)" "view (ws x) (at SandboxGVR ns nm) = view (ws w) (at SandboxGVR ns nm)"
  using assms ensureVCTs_frame [of r u _ _ w] by (auto simp: prepared_def at_def registered_def)

lemma ensurePodNameAnnotation_frame:
  assumes "registered (ws w)" "view (ws w) (at SandboxGVR ns nm) \<noteq> None"
  shows "registered (ws (ensurePodNameAnnotation r u p w))" "view (ws (ensurePodNameAnnotation r u p w)) (at SandboxGVR ns nm) \<noteq> None"
    "wd (ensurePodNameAnnotation r u p w) = wd w"
proof -
  obtain s res where P: "Patch (rLib r) SandboxGVR (namespace u) (name u) MergePatchType (annotationPatch (SandboxPodNameAnnotation (rAPI r)) p) False (ws w) = (s, res)"
    by fastforce
  have "resources s = resources (ws w)" "view s (at SandboxGVR ns nm) \<noteq> None"
    using Patch_frame [OF P] assms(2) by blast+
  then show "registered (ws (ensurePodNameAnnotation r u p w))" "view (ws (ensurePodNameAnnotation r u p w)) (at SandboxGVR ns nm) \<noteq> None"
    "wd (ensurePodNameAnnotation r u p w) = wd w"
    using assms P by (auto simp: ensurePodNameAnnotation_def registered_def)
qed

section \<open>What the driver shows\<close>

lemma MapPodSpec_identity:
  "MapPodSpec p mt port = Inr (cs, warns) \<Longrightarrow> csNamespace cs = mmNamespace mt \<and> csSandboxName cs = mmSandboxName mt \<and> csUID cs = mmUID mt \<and> csLabels cs = mmExtraLabels mt"
  by (auto simp: MapPodSpec_def Let_def split: list.splits prod.splits if_splits)

context container_driver
begin

lemma good_ensureVolumes:
  "rDriver r = D \<Longrightarrow> good (wd w) \<Longrightarrow> good (wd (fst (ensureVolumes r ns vols w)))"
proof (induction r ns vols w rule: ensureVolumes.induct)
  case (2 r ns vol vols w)
  have "good d" if "EnsureVolume D v (wd w) = (d, res)" for v d res
    using ensure_good [OF "2.prems"(2), of v] that by simp
  then show ?case using 2 by (auto simp: Let_def split: option.split sum.split prod.split)
qed simp

lemma good_ensureImage:
  assumes "rDriver r = D" "good (wd w)"
  shows "good (wd (fst (ensureImage r img w)))"
proof -
  obtain d e where d: "EnsureImage D img PullIfNotPresent (wd w) = (d, e)" by fastforce
  have "good d" using image_good [OF assms(2), of img PullIfNotPresent] by (simp add: d)
  moreover have "good d'" if "BuildRuntimeImage D = Some b" "b img (RuntimeBuildContext r) d = (d', e')" for b d' e'
    using build_good [OF \<open>good d\<close> that(1), of img "RuntimeBuildContext r"] that(2) by simp
  ultimately show ?thesis using assms(1) d by (auto simp: ensureImage_def split: option.split prod.split)
qed

lemma ensureContainer_inspects:
  assumes "rDriver r = D" "good (wd w)" "ensureContainer r u p w = (w', Container info)"
  shows "InspectSandbox D (namespace u) (name u) (wd w') = Inr info"
proof (cases "InspectSandbox D (namespace u) (name u) (wd w)")
  case (Inr i)
  then show ?thesis using assms by (simp add: ensureContainer_def)
next
  case (Inl e)
  with assms(1,3) obtain cs warns d where cs: "MapPodSpec p (mappingMeta r u p) (serverPort r) = Inr (cs, warns)"
      "CreateSandboxContainer D cs (wd w) = (d, Inr info)" "w' = w\<lparr>wd := d\<rparr>"
    by (auto simp: ensureContainer_def split: derr.splits sum.splits prod.splits)
  from MapPodSpec_identity [OF cs(1)] have i: "csNamespace cs = namespace u" "csSandboxName cs = name u" "csLabels cs = Map.empty"
    by (simp_all add: mappingMeta_def)
  moreover have "e = ErrNotFound" using Inl assms(1,3) by (auto simp: ensureContainer_def split: derr.splits)
  ultimately have "placeable D cs (wd w)" using Inl by (simp add: placeable_def)
  then show ?thesis using inspect_create [OF assms(2) _ cs(2)] cs(3) i by simp
qed

end

lemma good_path:
  assumes "container_driver (rDriver r) good hv" "good (wd w)" "registered (ws w)"
    and "ensureVCTs r u vcts p0 w = Some (p, w1)" "ensureVolumes r ns vols w1 = (w2, v)" "ensureImage r img w2 = (w3, im)"
  shows "good (wd w3)"
proof -
  have "good (wd w1)" using ensureVCTs_frame [OF assms(4,3)] assms(2) by simp
  then have "good (wd w2)" using container_driver.good_ensureVolumes [OF assms(1) refl] assms(5) by (metis fst_conv)
  then show ?thesis using container_driver.good_ensureImage [OF assms(1) refl] assms(6) by (metis fst_conv)
qed

text \<open>What a sandbox that reports ready has: a running container that serves.\<close>

definition serving :: "('j, 'db, 'd, 'v) Reconcilers \<Rightarrow> string \<Rightarrow> string \<Rightarrow> 'd \<Rightarrow> bool" where
  "serving r ns nm d \<longleftrightarrow> (\<exists>info port. InspectSandbox (rDriver r) ns nm d = Inr info \<and> ciState info = ''running'' \<and>
     ciIPAddress info \<noteq> '''' \<and> hostPortOf info port \<noteq> 0 \<and> ProbeRuntime (rDriver r) (hostPortOf info port) d = None)"

lemma reportRunning_serving:
  assumes laws: "status_laws (rConv r)" "cond_laws (rCond r)"
    and x: "registered (ws x)" "view (ws x) (at SandboxGVR (namespace u) (name u)) \<noteq> None"
      "InspectSandbox (rDriver r) (namespace u) (name u) (wd x) = Inr info"
    and rep: "reportRunning r u sp st p info x = (w', res)"
  shows "\<exists>ob. view (ws w') (at SandboxGVR (namespace u) (name u)) = Some ob \<and> (isSandboxReady r ob \<longrightarrow> serving r (namespace u) (name u) (wd w'))"
proof -
  let ?x = "ensurePodNameAnnotation r u (name u) x"
  let ?port = "podServerPort p (serverPort r)"
  let ?st = "withService r u sp (containerStatus r u info ?port (wd ?x) (stConditions st))"
  note fr = ensurePodNameAnnotation_frame [OF x(1,2), of r u "name u"]
  obtain old where old: "view (ws ?x) (at SandboxGVR (namespace u) (name u)) = Some old" using fr(2) by blast
  obtain w2 e where w2: "writeSandboxStatus r u ?st ?x = (w2, e)" by fastforce
  note wr = writeSandboxStatus_reports [OF laws(1) fr(1) old w2]
  have w': "w' = w2" using rep w2 by (simp add: reportRunning_def Let_def)
  obtain ob where ob: "view (ws w') (at SandboxGVR (namespace u) (name u)) = Some ob" "reports r ob ?st" using wr(1) w' by blast
  have "serving r (namespace u) (name u) (wd w')" if rd: "isSandboxReady r ob"
  proof -
    have "ciState info = ''running'' \<and> probeOK r info ?port (wd ?x) \<and> ciIPAddress info \<noteq> ''''"
      using reports_ready [OF laws ob(2) rd] containerStatus_ready [OF laws(2)] by simp
    then show ?thesis using x(3) wr(3) fr(3) w' by (auto simp: serving_def probeOK_def Let_def split: if_splits)
  qed
  with ob(1) show ?thesis by blast
qed


lemma run_keys_resources:
  assumes "run (store_step L) s log t" "keys_ok s"
  shows "keys_ok t \<and> (\<forall>g rm. resources s g = Some rm \<longrightarrow> resources t g = Some rm)"
  using assms
proof (induction rule: run.induct)
  case (run_step s log t es u)
  then show ?case using store_step_keys_ok [of L t es u] store_step_resources [of L t es u] by blast
qed simp

lemma wreach_ready_world: "wreach r w w' \<Longrightarrow> ready_world w \<Longrightarrow> ready_world w'"
  unfolding ready_world_def wreach_def reach_def registered_def by (metis run_keys_resources)

lemma not_ready_write:
  assumes laws: "status_laws (rConv r)" "cond_laws (rCond r)"
    and w: "registered (ws w)" "view (ws w) (at SandboxGVR (namespace u) (name u)) \<noteq> None"
    and st: "\<not> IsStatusConditionTrue (rCond r) (stConditions st) CondReady"
  shows "\<exists>ob. view (ws (fst (writeSandboxStatus r u st w))) (at SandboxGVR (namespace u) (name u)) = Some ob \<and> \<not> isSandboxReady r ob"
proof -
  obtain old where old: "view (ws w) (at SandboxGVR (namespace u) (name u)) = Some old" using w(2) by blast
  obtain w' e where "writeSandboxStatus r u st w = (w', e)" by fastforce
  then show ?thesis using writeSandboxStatus_reports(1) [OF laws(1) w(1) old] reports_ready [OF laws] st by fastforce
qed

lemma conditions_only_conditions [simp]: "stConditions (conditions_only cs) = cs"
  by (simp add: conditions_only_def)

text \<open>The paths that end without a ready sandbox.\<close>

lemma reconcileRunning_serving:
  assumes laws: "status_laws (rConv r)" "cond_laws (rCond r)" and drv: "container_driver (rDriver r) good hv" "good (wd w)"
    and w: "registered (ws w)" "view (ws w) (at SandboxGVR (namespace u) (name u)) \<noteq> None"
    and rec: "reconcileRunning r u sp st w = Some (w', Inr res)"
  shows "\<exists>ob. view (ws w') (at SandboxGVR (namespace u) (name u)) = Some ob \<and> (isSandboxReady r ob \<longrightarrow> serving r (namespace u) (name u) (wd w'))"
  using rec
proof (cases rule: reconcileRunning_cases)
  case (failed x msg)
  have "\<exists>ob. view (ws (fst (failReady r u st msg (Clock r 1) x))) (at SandboxGVR (namespace u) (name u)) = Some ob \<and> \<not> isSandboxReady r ob"
    unfolding failReady_def Let_def fst_conv using prepared_frame [OF failed(1) w(1)] w(2)
    by (intro not_ready_write [OF laws]) (simp_all add: ready_setCond [OF laws(2)])
  then show ?thesis using failed(2) by blast
next
  case (missing x claim e)
  have "\<exists>ob. view (ws (fst (writeSandboxStatus r u (conditions_only (missingConds r u st claim)) x))) (at SandboxGVR (namespace u) (name u)) = Some ob \<and> \<not> isSandboxReady r ob"
    using prepared_frame [OF missing(1) w(1)] w(2)
    by (intro not_ready_write [OF laws]) (simp_all add: ready_setCond [OF laws(2)] missingConds_def)
  then show ?thesis using missing(2) by auto
next
  case (report p w1 w2 w3 x info)
  have "good (wd w3)" by (rule good_path [OF drv w(1) report(2,3,4)])
  then have "InspectSandbox (rDriver r) (namespace u) (name u) (wd x) = Inr info"
    using container_driver.ensureContainer_inspects [OF drv(1) refl _ report(5)] by blast
  moreover have "view (ws x) (at SandboxGVR (namespace u) (name u)) \<noteq> None" using prepared_frame(2) [OF report(1) w(1)] w(2) by metis
  ultimately show ?thesis using reportRunning_serving [OF laws prepared_frame(1) [OF report(1) w(1)] _ _ report(6)] by blast
qed simp

lemma suspended_not_ready:
  assumes "status_laws (rConv r)" "cond_laws (rCond r)" "registered (ws w)" "view (ws w) (at SandboxGVR (namespace u) (name u)) \<noteq> None"
  shows "\<exists>ob. view (ws (fst (reconcileSuspended r u sp st w))) (at SandboxGVR (namespace u) (name u)) = Some ob \<and> \<not> isSandboxReady r ob"
proof -
  have c: "\<not> IsStatusConditionTrue (rCond r) (stConditions (conditions_only (suspendedConds r b gen cs))) CondReady" for b gen cs
    by (simp add: suspendedConds_def Let_def ready_remove [OF assms(2)] ready_setCond [OF assms(2)])
  show ?thesis
    using not_ready_write [OF assms(1,2) _ _ c, of w u] not_ready_write [OF assms(1,2) _ _ c, of "w\<lparr>wd := d\<rparr>" u for d] assms(3,4)
    by (auto simp: reconcileSuspended_def Let_def case_prod_beta split: sum.split)
qed

lemma expiry_not_ready:
  assumes "status_laws (rConv r)" "cond_laws (rCond r)" "permutes (mapOrder r)" "ready_world w"
    and "view (ws w) (at SandboxGVR (namespace u) (name u)) \<noteq> None"
  shows "case view (ws (fst (handleSandboxExpiry r u sp st w))) (at SandboxGVR (namespace u) (name u)) of
    None \<Rightarrow> True | Some ob \<Rightarrow> \<not> isSandboxReady r ob"
proof -
  let ?w = "removeSandboxContainer r (namespace u) (name u) w"
  have w: "ready_world ?w" "registered (ws ?w)" using assms(4) by (simp_all add: ready_world_def)
  have "view (ws (fst (StoreDelete r SandboxGVR (namespace u) (name u) ?w))) (at SandboxGVR (namespace u) (name u)) = None"
    using StoreDelete_gone [OF assms(3) w(1)] by simp
  moreover have "\<exists>ob. view (ws (fst (writeSandboxStatus r u (conditions_only (setCond (rCond r) CondReady ''False'' ''SandboxExpired'' ''Sandbox has expired'' gen tm cs)) ?w)))
      (at SandboxGVR (namespace u) (name u)) = Some ob \<and> \<not> isSandboxReady r ob" for gen tm cs
    using assms(5) w(2) by (intro not_ready_write [OF assms(1,2)]) (simp_all add: ready_setCond [OF assms(2)])
  ultimately show ?thesis
    unfolding handleSandboxExpiry_def Let_def
    by (auto simp: case_prod_beta split: sum.split) (metis option.simps(5))+
qed

end
