(* ===== verification/SampleWorld.thy ===== *)
theory SampleWorld
  imports ClaimLoop FakeDriver Recovery
begin

text \<open>
  One concrete instance of the libraries of the reconcilers: trees that hold the typed values they
  encode, the condition helpers on lists, insertion sort, the in-memory driver, and a store
  without persistence. It shows that the laws assumed of the libraries can hold, and the
  witnesses evaluate on it.
\<close>

text \<open>Specs are numbered, so that trees can be compared.\<close>

datatype tree =
    TSandbox nat
  | TSandboxStatus SandboxStatus
  | TClaim nat
  | TClaimStatus ClaimStatus
  | TTemplate nat
  | TPool WarmPoolSpec
  | TPoolStatus WarmPoolStatus
  | TPVC nat
  | TPVCStatus "nat PVCStatus"

definition bad :: "string + 'a" where "bad = Inl ''unexpected kind''"

definition cond_entry :: "Condition \<Rightarrow> (string option \<times> string option) option" where
  "cond_entry c = Some (Some (cdType c), Some (cdStatus c))"

definition sample_pspec :: PodSpec where
  "sample_pspec = \<lparr>psContainers = [\<lparr>cName = ''main'', cImage = ''img'', cCommand = [], cArgs = [], cWorkingDir = '''',
     cImagePullPolicy = '''', cEnv = [], cPorts = [8888], cVolumeMounts = [], cSecurityContext = None, cLimits = Map.empty\<rparr>],
     psVolumes = [], psSecurityContext = None, psDNSPolicy = '''', psDNSConfig = None, psAutomountServiceAccountToken = None\<rparr>"

definition sample_blueprint :: "nat SandboxBlueprint" where
  "sample_blueprint = \<lparr>bpPodLabels = Map.empty, bpPodAnnotations = Map.empty, bpPodSpec = sample_pspec,
     bpVolumeClaimTemplates = [\<lparr>vctName = ''work'', vctLabels = Map.empty, vctAnnotations = Map.empty, vctSpec = 0\<rparr>], bpService = None\<rparr>"

definition sample_template :: "nat TemplateSpec" where
  "sample_template = \<lparr>tsBlueprint = sample_blueprint, tsNetworkPolicy = False, tsNetworkPolicyManagement = NPUnset,
     tsEnvVarsInjectionPolicy = PolicyOther '''', tsVolumeClaimTemplatesPolicy = PolicyOther ''''\<rparr>"

definition sample_claim :: "nat ClaimSpec" where
  "sample_claim = \<lparr>clWarmPoolRef = ''p'', clEnv = [], clVolumeClaimTemplates = [],
     clAdditionalPodMetadata = \<lparr>pmLabels = Map.empty, pmAnnotations = Map.empty\<rparr>, clLifecycle = None\<rparr>"

definition sandbox_table :: "nat \<Rightarrow> nat SandboxSpec" where
  "sandbox_table n = (if n = 0 then (sandboxSpecOf sample_blueprint)\<lparr>sbOperatingMode := ModeSuspended\<rparr> else sandboxSpecOf sample_blueprint)"

definition template_table :: "nat \<Rightarrow> nat TemplateSpec" where
  "template_table n = (if n = 0 then sample_template
     else sample_template\<lparr>tsBlueprint := sample_blueprint\<lparr>bpPodSpec := sample_pspec\<lparr>psContainers := []\<rparr>\<rparr>, tsEnvVarsInjectionPolicy := PolicyAllowed\<rparr>)"

definition claim_table :: "nat \<Rightarrow> nat ClaimSpec" where
  "claim_table n = (if n = 0 then sample_claim
     else sample_claim\<lparr>clEnv := [\<lparr>ceContainerName = [], ceName = ''A'', ceValue = ''1''\<rparr>]\<rparr>)"

definition sample_conv :: "(tree, nat) convlib" where
  "sample_conv = \<lparr>
     decSandboxSpec = (\<lambda>t. case t of Some (TSandbox n) \<Rightarrow> Inr (sandbox_table n) | _ \<Rightarrow> bad),
     encSandboxSpec = (\<lambda>sp. Inr (TSandbox 1)),
     decSandboxStatus = (\<lambda>t. case t of Some (TSandboxStatus st) \<Rightarrow> Inr st | None \<Rightarrow> Inr empty_SandboxStatus | _ \<Rightarrow> bad),
     encSandboxStatus = (\<lambda>st. Inr (TSandboxStatus st)),
     sandboxZeroStatus = Some (TSandboxStatus empty_SandboxStatus),
     partialSandboxStatus = (\<lambda>_ _. empty_SandboxStatus),
     decClaimSpec = (\<lambda>t. case t of Some (TClaim n) \<Rightarrow> Inr (claim_table n) | _ \<Rightarrow> bad),
     decClaimStatus = (\<lambda>t. case t of Some (TClaimStatus st) \<Rightarrow> Inr st
        | None \<Rightarrow> Inr \<lparr>ksConditions = [], ksSandboxName = '''', ksPodIPs = []\<rparr> | _ \<Rightarrow> bad),
     encClaimStatus = (\<lambda>st. Inr (TClaimStatus st)),
     decTemplateSpec = (\<lambda>t. case t of Some (TTemplate n) \<Rightarrow> Inr (template_table n) | _ \<Rightarrow> bad),
     decWarmPool = (\<lambda>t _. case t of Some (TPool sp) \<Rightarrow> Inr sp | _ \<Rightarrow> bad),
     encWarmPoolStatus = (\<lambda>st. Inr (TPoolStatus st)),
     decPVC = (\<lambda>t _. case t of Some (TPVC v) \<Rightarrow> Inr v | _ \<Rightarrow> bad),
     encPVCSpec = (\<lambda>v. Inr (TPVC v)),
     pvcZeroStatus = None,
     encPVCStatus = (\<lambda>st. Inr (TPVCStatus st)),
     nestedConditions = (\<lambda>t. case t of Some (TSandboxStatus st) \<Rightarrow> Some (map cond_entry (stConditions st)) | _ \<Rightarrow> None),
     nestedPhase = (\<lambda>t. case t of Some (TPVCStatus st) \<Rightarrow> pvPhase st | _ \<Rightarrow> ''''),
     nestedSandboxName = (\<lambda>t. case t of Some (TClaimStatus st) \<Rightarrow> ksSandboxName st | _ \<Rightarrow> '''')\<rparr>"

lemma sample_status_laws: "status_laws sample_conv"
  by (simp add: status_laws_def sample_conv_def)

section \<open>Conditions\<close>

fun sample_set :: "Condition \<Rightarrow> Condition list \<Rightarrow> Condition list" where
  "sample_set c [] = [c]"
| "sample_set c (old # cs) = (if cdType old = cdType c
     then (if cdStatus old = cdStatus c then c\<lparr>cdLastTransitionTime := cdLastTransitionTime old\<rparr> else c) # cs
     else old # sample_set c cs)"

definition sample_cond :: condlib where
  "sample_cond = \<lparr>SetStatusCondition = sample_set, RemoveStatusCondition = (\<lambda>t. filter (\<lambda>c. cdType c \<noteq> t)),
     FindStatusCondition = (\<lambda>t. find (\<lambda>c. cdType c = t))\<rparr>"

lemma sample_set_find:
  "find (\<lambda>d. cdType d = t) (sample_set c cs) =
     (if t = cdType c
      then (case find (\<lambda>d. cdType d = t) cs of
          Some old \<Rightarrow> if cdStatus old = cdStatus c then Some (c\<lparr>cdLastTransitionTime := cdLastTransitionTime old\<rparr>) else Some c
        | None \<Rightarrow> Some c)
      else find (\<lambda>d. cdType d = t) cs)"
  by (induction cs) auto

lemma sample_remove_find:
  "find (\<lambda>c. cdType c = t) (filter (\<lambda>c. cdType c \<noteq> t') cs) = (if t = t' then None else find (\<lambda>c. cdType c = t) cs)"
  by (induction cs) auto

lemma sample_cond_laws: "cond_laws sample_cond"
  unfolding cond_laws_def
  by (intro conjI allI) (simp_all add: sample_cond_def sample_set_find sample_remove_find split: option.split)

section \<open>Sorting\<close>

fun insert_by :: "('a \<Rightarrow> 'a \<Rightarrow> bool) \<Rightarrow> 'a \<Rightarrow> 'a list \<Rightarrow> 'a list" where
  "insert_by lt x [] = [x]"
| "insert_by lt x (y # ys) = (if lt y x then y # insert_by lt x ys else x # y # ys)"

definition isort_by :: "('a \<Rightarrow> 'a \<Rightarrow> bool) \<Rightarrow> 'a list \<Rightarrow> 'a list" where
  "isort_by lt xs = foldr (insert_by lt) xs []"

lemma insert_by_mset: "mset (insert_by lt x xs) = add_mset x (mset xs)"
  by (induction xs) auto

lemma insert_by_sorted:
  assumes "asymp lt" "transp (\<lambda>x y. \<not> lt y x)" "sorted_wrt (\<lambda>x y. \<not> lt y x) xs"
  shows "sorted_wrt (\<lambda>x y. \<not> lt y x) (insert_by lt x xs)"
  using assms(3)
proof (induction xs)
  case (Cons y ys)
  have set: "set (insert_by lt x ys) = insert x (set ys)"
    using insert_by_mset [of lt x ys] by (metis set_mset_add_mset_insert set_mset_mset)
  show ?case
  proof (cases "lt y x")
    case True
    then have "\<not> lt x y" using assms(1) by (auto dest: asympD)
    with True set Cons show ?thesis by auto
  next
    case False
    then show ?thesis using Cons.prems transpD [OF assms(2)] by auto
  qed
qed simp

lemma isort_sorts: "sorts isort_by"
proof -
  have "mset (foldr (insert_by lt) xs []) = mset xs" for lt and xs :: "'a obj list"
    by (induction xs) (auto simp: insert_by_mset)
  moreover have "sorted_wrt (\<lambda>x y. \<not> lt y x) (foldr (insert_by lt) xs [])"
    if "asymp lt" "transp (\<lambda>x y. \<not> lt y x)" for lt and xs :: "'a obj list"
    by (induction xs) (auto intro: insert_by_sorted that)
  ultimately show ?thesis by (simp add: sorts_def isort_by_def)
qed

section \<open>A small world\<close>

definition sample_wlib :: "(tree, unit) storelib" where
  "sample_wlib = \<lparr>
     MarshalJSON = (\<lambda>_. Inl ''unsupported''), UnmarshalJSON = (\<lambda>_. Inl ''unsupported''),
     boltUpdate = (\<lambda>f db. case f db of Inl e \<Rightarrow> (Some e, db) | Inr db' \<Rightarrow> (None, db')), boltView = (\<lambda>db. None),
     boltCreateBucket = (\<lambda>b db. Inr db), boltHasBucket = (\<lambda>b db. False),
     boltPut = (\<lambda>b k v db. Inr db), boltDelete = (\<lambda>b k db. Inr db), boltGet = (\<lambda>b k db. None),
     boltBuckets = (\<lambda>db. []), boltEntries = (\<lambda>b db. []),
     DecodePatch = (\<lambda>p. Inl ''not a patch''), MergePatch = (\<lambda>old body. Inr body), YAMLToJSON = (\<lambda>y. Inr y),
     labelsParse = (\<lambda>l. Inr \<lparr>lEmpty = False, lMatches = (\<lambda>m. m l \<noteq> None)\<rparr>),
     labelsEverything = \<lparr>lEmpty = True, lMatches = (\<lambda>m. True)\<rparr>,
     fieldsParse = (\<lambda>f. Inl ''unsupported''),
     fieldsEverything = \<lparr>fEmpty = True, fMatches = (\<lambda>m. True), fRequirements = []\<rparr>\<rparr>"

definition sample_rec :: "(tree, unit, FakeDriver, nat) Reconcilers" where
  "sample_rec = \<lparr>
     rAPI = \<lparr>SandboxWarmPoolLabel = ''agents.x-k8s.io/warm-pool-sandbox'', SandboxTemplateRefHashLabel = ''sandbox-template-ref-hash'',
        SandboxLaunchTypeLabel = ''launch-type'', SandboxLaunchTypeWarm = ''warm'', SandboxLaunchTypeCold = ''cold'',
        CreatedByLabel = ''created-by'', SandboxPodNameAnnotation = ''agents.x-k8s.io/pod-name'',
        AssignedSandboxNameAnnotation = ''agents.x-k8s.io/sandbox-name''\<rparr>,
     rLib = sample_wlib, rConv = sample_conv, rCond = sample_cond, rErrText = (\<lambda>_. ''error''), rDriver = fakeDriver,
     mapOrder = (\<lambda>xs. xs), sortSlice = isort_by, race = (\<lambda>_ s. s),
     DefaultServerPort = 0, RuntimeImage = ''runtime'', RuntimeBuildContext = '''', ClusterDomain = '''', NodeName = '''',
     Clock = (\<lambda>_. 100), wall = 100\<rparr>"

definition named :: "string \<Rightarrow> tree \<Rightarrow> tree obj" where
  "named nm tr = empty_obj\<lparr>namespace := ''d'', name := nm, spec := Some tr\<rparr>"

definition sample_empty :: "(tree, unit) store" where
  "sample_empty = foldl (\<lambda>s g. Register g True s)
     (store_New \<lparr>oPersister = None, oHistoryCap = 5, oStartRV = 0\<rparr> 50 (\<lambda>n. ''uid-'' @ Itoa (int n)) (\<lambda>n. n))
     [SandboxGVR, SandboxClaimGVR, WarmPoolGVR, TemplateGVR, PVCGVR]"

definition add_obj :: "GVR \<Rightarrow> tree obj \<Rightarrow> (tree, unit) store \<Rightarrow> (tree, unit) store" where
  "add_obj g ob s = (case Create sample_wlib g ob s of Some (s', _) \<Rightarrow> s' | None \<Rightarrow> s)"

text \<open>A suspended or a running sandbox.\<close>

definition box_world :: "nat \<Rightarrow> (tree, unit, FakeDriver) world" where
  "box_world n = \<lparr>ws = SetDeleteHook (add_obj SandboxGVR ((named ''b'' (TSandbox n))\<lparr>annotations := [''agents.x-k8s.io/pod-name'' \<mapsto> ''b'']\<rparr>) sample_empty), wd = NewFakeDriver\<rparr>"

text \<open>A pool of the given size, its template and a claim on it, of the given numbers.\<close>

definition pool_world :: "int \<Rightarrow> nat \<Rightarrow> (tree, unit, FakeDriver) world" where
  "pool_world n k = \<lparr>ws = SetDeleteHook (add_obj SandboxClaimGVR (named ''c'' (TClaim k))
     (add_obj WarmPoolGVR (named ''p'' (TPool \<lparr>wpReplicas = Some n, wpTemplateRef = ''t''\<rparr>))
       (add_obj TemplateGVR (named ''t'' (TTemplate k)) sample_empty))), wd = NewFakeDriver\<rparr>"

lemma sample_rec_sel [simp]:
  "rConv sample_rec = sample_conv" "rCond sample_rec = sample_cond" "rDriver sample_rec = fakeDriver" "rLib sample_rec = sample_wlib"
  "mapOrder sample_rec = (\<lambda>xs. xs)" "sortSlice sample_rec = isort_by" "race sample_rec = (\<lambda>_ s. s)"
  by (simp_all add: sample_rec_def)

end
