(* ===== verification/SampleFacts.thy ===== *)
theory SampleFacts
  imports SandboxFacts SampleWorld
begin

text \<open>
  The concrete worlds of the witnesses meet what the properties assume of a world: the resources
  are registered, the keys name the objects, and the driver is in a state its contract covers.
\<close>

text \<open>From an evaluated result to the values in it.\<close>

lemma evaluates_Inr: "(case x of Inl _ \<Rightarrow> False | Inr u \<Rightarrow> P u) \<longleftrightarrow> (\<exists>u. x = Inr u \<and> P u)"
  by (cases x) auto

lemma evaluates_Some: "(case x of None \<Rightarrow> False | Some (a, b) \<Rightarrow> P a b) \<longleftrightarrow> (\<exists>a b. x = Some (a, b) \<and> P a b)"
  by (auto split: option.split)

lemma keys_ok_SetDeleteHook [simp]: "keys_ok (SetDeleteHook s) = keys_ok s"
  by (simp add: keys_ok_def SetDeleteHook_def view_def lookup_def)

lemma registered_SetDeleteHook [simp]: "registered (SetDeleteHook s) = registered s"
  by (simp add: registered_def SetDeleteHook_def)

lemma keys_ok_sample_empty: "keys_ok sample_empty"
  by (simp add: keys_ok_def sample_empty_def store_New_def Register_def view_def lookup_def)

lemma registered_sample_empty: "registered sample_empty"
  by (simp add: registered_def loop_gvrs_def sample_empty_def Register_def gvr_defs)

lemma add_obj_ok:
  assumes "keys_ok s \<and> registered s"
  shows "keys_ok (add_obj g ob s) \<and> registered (add_obj g ob s)"
  using assms reach_Create [of sample_wlib g ob s] Create_frame [of sample_wlib g ob s]
  by (auto simp: add_obj_def reach_def registered_def split: option.split)

lemma sample_ready: "ready_world (box_world n)" "ready_world (pool_world k m)"
  by (simp_all add: ready_world_def box_world_def pool_world_def add_obj_ok keys_ok_sample_empty registered_sample_empty)

lemma sample_permutes: "permutes (mapOrder sample_rec)"
  by (simp add: permutes_def)

lemma sample_driver: "container_driver (rDriver sample_rec) fake_good fake_has_volume"
  by (simp add: fake.container_driver_axioms)

text \<open>A driver that runs the container of one sandbox.\<close>

definition sample_cs :: SandboxContainerSpec where
  "sample_cs = \<lparr>csNamespace = ''d'', csSandboxName = ''b'', csUID = ''u'', csImage = ''img'', csPullPolicy = PullIfNotPresent,
     csCommand = [], csArgs = [], csEnv = Map.empty, csWorkingDir = '''', csRuntimePorts = [8888], csServerPort = 8888,
     csMounts = [], csUser = '''', csReadOnlyRoot = False, csResources = \<lparr>rsNanoCPUs = 0, rsMemoryBytes = 0\<rparr>,
     csDNSServers = [], csLabels = Map.empty, csInjectRuntime = False\<rparr>"

definition busy_driver :: FakeDriver where
  "busy_driver = fst (fake_Create sample_cs NewFakeDriver)"

lemma busy_driver_good: "fake_good busy_driver"
  using fake_Create_keeps(1) [OF NewFakeDriver_good, of sample_cs] by (simp add: busy_driver_def)

lemma busy_driver_inspect: "\<exists>info. fake_Inspect ''d'' ''b'' busy_driver = Inr info"
proof -
  obtain f c where c: "fake_Create sample_cs NewFakeDriver = (f, Inr c)"
    using fake_create_total by blast
  then have "fake_Inspect ''d'' ''b'' f = Inr c"
    using fake_Create_keeps(2) [OF c] by (simp add: sample_cs_def)
  with c show ?thesis by (simp add: busy_driver_def)
qed

text \<open>A claim and the sandbox it owns.\<close>

definition claim_owner :: OwnerReference where
  "claim_owner = \<lparr>refAPIVersion = ExtensionsGV, refKind = ''SandboxClaim'', refName = ''c'', refUID = ''uid-0'', refController = Some True, refBlockOwnerDeletion = Some True\<rparr>"

definition owned_world :: "(tree, unit, FakeDriver) world" where
  "owned_world = \<lparr>ws = SetDeleteHook (add_obj SandboxGVR ((named ''c'' (TSandbox 1))\<lparr>ownerReferences := [claim_owner]\<rparr>)
     (add_obj SandboxClaimGVR (named ''c'' (TClaim 0)) sample_empty)), wd = NewFakeDriver\<rparr>"

lemma owned_ready: "ready_world owned_world"
  by (simp add: ready_world_def owned_world_def add_obj_ok keys_ok_sample_empty registered_sample_empty)

text \<open>A library whose patches succeed: objects are written down by their names.\<close>

definition textOf :: "bytes \<Rightarrow> string" where
  "textOf bs = map (\<lambda>b. char_of (unat b)) bs"

lemma textOf_bytesOf: "textOf (bytesOf s) = s"
proof -
  have "unat (of_nat (of_char c) :: 8 word) = of_char c" for c :: char by (simp add: unat_of_nat)
  then show ?thesis by (simp add: textOf_def bytesOf_def comp_def)
qed

definition naming_rec :: "(tree, unit, FakeDriver, nat) Reconcilers" where
  "naming_rec = sample_rec\<lparr>rLib := sample_wlib\<lparr>
     MarshalJSON := (\<lambda>ob. if namespace ob = ''d'' then Inr (bytesOf (name ob)) else Inl ''unsupported''),
     UnmarshalJSON := (\<lambda>j. Inr (empty_obj\<lparr>namespace := ''d'', name := textOf j\<rparr>)),
     MergePatch := (\<lambda>old body. Inr old)\<rparr>\<rparr>"

lemma naming_annotations: "annotation_law (rLib naming_rec)"
  by (auto simp: annotation_law_def naming_rec_def textOf_bytesOf split: if_splits)

lemma naming_races: "races_reach naming_rec"
  by (simp add: races_reach_def naming_rec_def)

text \<open>The sample stores are well-formed, far from the last version.\<close>

lemma add_obj_wf:
  assumes "store_wf s" "unat (rv s) + 1 \<le> 2 ^ 64 - 1"
  shows "store_wf (add_obj g ob s) \<and> unat (rv (add_obj g ob s)) \<le> unat (rv s) + 1"
proof (cases "Create sample_wlib g ob s")
  case None
  then show ?thesis using assms by (simp add: add_obj_def)
next
  case (Some a)
  obtain s' res where a: "a = (s', res)" by fastforce
  then have "\<exists>es. store_step sample_wlib s es s' \<and> length es \<le> 1"
    using Some by (cases res) (auto intro!: exI store_step.op store_op.create store_op.create_error)
  then show ?thesis using store_step_wf [of s sample_wlib _ s'] assms Some a by (fastforce simp: add_obj_def)
qed

lemma sample_empty_wf: "store_wf sample_empty" "rv sample_empty = 0"
  by (simp_all add: store_wf_def keys_ok_def versions_ok_def history_ok_def subs_ok_def sample_empty_def store_New_def Register_def
      view_def lookup_def)

text \<open>A sandbox of the pool \<^verbatim>\<open>p\<close>, and a claim on the pool.\<close>

definition pool_owner :: OwnerReference where
  "pool_owner = \<lparr>refAPIVersion = ExtensionsGV, refKind = ''SandboxWarmPool'', refName = ''p'', refUID = ''pool-uid'', refController = Some True, refBlockOwnerDeletion = Some True\<rparr>"

definition warm_store :: "(tree, unit) store" where
  "warm_store = add_obj SandboxGVR ((named ''b'' (TSandbox 1))\<lparr>ownerReferences := [pool_owner]\<rparr>) sample_empty"

definition claim_obj :: "tree obj" where
  "claim_obj = (named ''c'' (TClaim 0))\<lparr>uid := ''claim-uid''\<rparr>"

lemma warm_store_ok: "store_wf warm_store" "registered warm_store" "unat (rv warm_store) \<le> 1"
  using add_obj_wf [OF sample_empty_wf(1), of SandboxGVR "(named ''b'' (TSandbox 1))\<lparr>ownerReferences := [pool_owner]\<rparr>"]
  by (simp_all add: warm_store_def sample_empty_wf add_obj_ok keys_ok_sample_empty registered_sample_empty)

end
