(* ===== verification/RouterProps.thy ===== *)
theory RouterProps
  imports Router SampleFacts
begin

text \<open>
  What the router guarantees: which requests reach a container, and which host names it accepts.
\<close>

text \<open>C28: a request is proxied only to a loopback port that a running container of the named sandbox publishes
  for the requested port, and only while the sandbox is stored and ready; the sandbox is the one
  named by the request's headers, which pass the DNS label check.\<close>

theorem router_proxies_ready_only:
  assumes "ServeHTTP (Resolve X s drv) r = Proxied t"
  shows "\<exists>u D d info h. Get SandboxGVR (requestNamespace r) (reqHeader r headerID) s = Inr u \<and> sandboxReady X u \<and>
    drv = Some (D, d) \<and> InspectSandbox D (requestNamespace r) (reqHeader r headerID) d = Inr info \<and>
    ciState info = ''running'' \<and> ciPortMap info (requestPort r) = Some h \<and> h \<noteq> 0 \<and>
    t = ''http://127.0.0.1:'' @ Itoa h \<and> validDNSLabel (reqHeader r headerID) \<and> 0 < requestPort r \<and> requestPort r \<le> 65535"
proof -
  have "Resolve X s drv (requestNamespace r) (reqHeader r headerID) (requestPort r) = (t, StateOK)" "validDNSLabel (reqHeader r headerID)"
    using assms by (auto simp: ServeHTTP_def Let_def split: if_splits prod.splits ResolveState.splits)
  moreover have "0 < requestPort r" "requestPort r \<le> 65535" by (auto simp: requestPort_def split: option.split)
  ultimately show ?thesis by (blast elim: Resolve_OK)
qed

lemma box_proxied:
  "case reconcileSandbox sample_rec ''d'' ''b'' (box_world 1) of None \<Rightarrow> False
   | Some (w', res) \<Rightarrow> (case ServeHTTP (Resolve sample_conv (ws w') (Some (fakeDriver, wd w')))
        \<lparr>reqPath = ''/'', reqHeader = (\<lambda>h. if h = headerID then ''b'' else if h = headerNamespace then ''d'' else [])\<rparr> of
        Proxied t \<Rightarrow> True | _ \<Rightarrow> False)"
  by code_simp

theorem router_proxies_ready_only_witness:
  "\<exists>w' res u. reconcileSandbox sample_rec ''d'' ''b'' (box_world 1) = Some (w', res) \<and>
     Get SandboxGVR ''d'' ''b'' (ws w') = Inr u \<and> sandboxReady sample_conv u"
proof -
  let ?q = "\<lparr>reqPath = ''/'', reqHeader = (\<lambda>h. if h = headerID then ''b'' else if h = headerNamespace then ''d'' else [])\<rparr>"
  obtain w' res where rec: "reconcileSandbox sample_rec ''d'' ''b'' (box_world 1) = Some (w', res)"
    and q: "case ServeHTTP (Resolve sample_conv (ws w') (Some (fakeDriver, wd w'))) ?q of Proxied t \<Rightarrow> True | _ \<Rightarrow> False"
    using box_proxied unfolding evaluates_Some by blast
  obtain t where "ServeHTTP (Resolve sample_conv (ws w') (Some (fakeDriver, wd w'))) ?q = Proxied t"
    using q by (auto split: routing.splits)
  from router_proxies_ready_only [OF this] have "\<exists>u. Get SandboxGVR ''d'' ''b'' (ws w') = Inr u \<and> sandboxReady sample_conv u"
    by (auto simp: requestNamespace_def headerID_def headerNamespace_def)
  with rec show ?thesis by blast
qed

section \<open>Host names\<close>

text \<open>The rules of RFC 1123 for a label: 1 to 63 letters, digits and hyphens, with no hyphen at either end.\<close>

definition rfc1123_label :: "string \<Rightarrow> bool" where
  "rfc1123_label s \<longleftrightarrow> s \<noteq> [] \<and> length s \<le> 63 \<and> (\<forall>c \<in> set s. label_char c \<or> c = CHR ''-'') \<and>
     hd s \<noteq> CHR ''-'' \<and> last s \<noteq> CHR ''-''"

lemma label_char_hyphen [simp]: "\<not> label_char CHR ''-''"
  by (simp add: label_char_def less_eq_char_def)

lemma validLoop_chars:
  "validLoop len i s \<longleftrightarrow> (\<forall>c \<in> set s. label_char c \<or> c = CHR ''-'') \<and>
     (\<forall>j < length s. s ! j = CHR ''-'' \<longrightarrow> i + j \<noteq> 0 \<and> i + j \<noteq> len - 1)"
proof (induction s arbitrary: i)
  case (Cons c cs)
  have "(\<forall>j < length (c # cs). P j) \<longleftrightarrow> P 0 \<and> (\<forall>j < length cs. P (Suc j))" for P by (auto simp: less_Suc_eq_0_disj)
  then show ?case using Cons.IH [of "Suc i"] by auto
qed simp


end
