(* ===== verification/BuildProps.thy ===== *)
theory BuildProps
  imports SampleWorld "HOL-Library.Sublist"
begin

text \<open>
  Building a sandbox from a template: volume claim templates merged against a reference
  definition, environment injection, and the secure defaults of what is built.
\<close>

section \<open>Volume claim templates\<close>

text \<open>The reference: a volume claim template takes the place of the one with its name, or goes to the end.\<close>

definition put_vct :: "'v VCT \<Rightarrow> 'v VCT list \<Rightarrow> 'v VCT list" where
  "put_vct v vs = (if vctName v \<in> vctName ` set vs then map (\<lambda>x. if vctName x = vctName v then v else x) vs else vs @ [v])"

fun first_clash :: "'v VCT list \<Rightarrow> 'v VCT list \<Rightarrow> 'v VCT option" where
  "first_clash vs [] = None"
| "first_clash vs (v # rest) = (if vctName v \<in> vctName ` set vs then Some v else first_clash (vs @ [v]) rest)"

definition merge_reference :: "'v VCT list \<Rightarrow> 'v VCT list \<Rightarrow> InjectionPolicy \<Rightarrow> rerr + 'v VCT list" where
  "merge_reference base vs policy = (case policy of
      PolicyOther p \<Rightarrow> Inl (VCTRejected ('' ('' @ Quote p @ '')''))
    | PolicyOverrides \<Rightarrow> Inr (fold put_vct vs base)
    | PolicyAllowed \<Rightarrow> (case first_clash base vs of
          None \<Rightarrow> Inr (base @ vs)
        | Some v \<Rightarrow> Inl (VCTRejected ('': '' @ Quote (vctName v) @ '' already defined and policy is not Overrides''))))"

definition index_of :: "'v VCT list \<Rightarrow> string \<rightharpoonup> nat" where
  "index_of vs n = indexOf (\<lambda>v. vctName v = n) vs"

lemma index_of_None: "index_of vs n = None \<longleftrightarrow> n \<notin> vctName ` set vs"
  by (auto simp: index_of_def indexOf_None)

lemma vctIndex_index:
  "distinct (map vctName vs) \<Longrightarrow> vctIndex i vs idx n = (case index_of vs n of Some j \<Rightarrow> Some (i + j) | None \<Rightarrow> idx n)"
proof (induction vs arbitrary: i idx)
  case (Cons v vs)
  have "index_of vs (vctName v) = None" using Cons.prems by (simp add: index_of_None)
  then show ?case using Cons by (auto simp: index_of_def split: option.split)
qed (simp add: index_of_def)

lemma index_of_append: "index_of (vs @ [v]) n = (case index_of vs n of Some j \<Rightarrow> Some j | None \<Rightarrow> if n = vctName v then Some (length vs) else None)"
  by (induction vs) (auto simp: index_of_def split: option.split)


lemma index_of_update:
  assumes "index_of vs (vctName v) = Some j"
  shows "index_of (vs[j := v]) = index_of vs" "map vctName (vs[j := v]) = map vctName vs"
proof -
  have j: "j < length vs" "vctName (vs ! j) = vctName v" using assms indexOf_Some [of _ vs j] by (auto simp: index_of_def)
  then show names: "map vctName (vs[j := v]) = map vctName vs"
    unfolding map_update using list_update_id [of "map vctName vs" j] by simp
  have "index_of xs n = index_of ys n" if "map vctName xs = map vctName ys" for xs ys :: "'a VCT list" and n
    using that by (induction xs ys rule: list_induct2') (auto simp: index_of_def)
  from this [OF names] show "index_of (vs[j := v]) = index_of vs" by (rule ext)
qed

lemma update_is_put:
  assumes "distinct (map vctName vs)" "index_of vs (vctName v) = Some j"
  shows "vs[j := v] = put_vct v vs"
proof -
  have j: "j < length vs" "vctName (vs ! j) = vctName v" using assms(2) indexOf_Some [of _ vs j] by (auto simp: index_of_def)
  then have "vctName v \<in> vctName ` set vs" by (metis imageI nth_mem)
  moreover have "vs[j := v] = map (\<lambda>x. if vctName x = vctName v then v else x) vs"
  proof (rule nth_equalityI)
    fix i assume "i < length (vs[j := v])"
    then show "vs[j := v] ! i = map (\<lambda>x. if vctName x = vctName v then v else x) vs ! i"
      using j assms(1) by (cases "i = j") (auto simp: nth_list_update distinct_conv_nth, metis)
  qed simp
  ultimately show ?thesis by (simp add: put_vct_def)
qed

lemma mergeLoop_overrides:
  "distinct (map vctName out) \<Longrightarrow> mergeLoop PolicyOverrides vs out (index_of out) = Inr (fold put_vct vs out) \<and>
     distinct (map vctName (fold put_vct vs out))"
proof (induction vs arbitrary: out)
  case (Cons v vs)
  show ?case
  proof (cases "index_of out (vctName v)")
    case None
    then have "put_vct v out = out @ [v]" by (auto simp: put_vct_def index_of_None)
    moreover have "(index_of out)(vctName v \<mapsto> length out) = index_of (out @ [v])"
      using None by (auto simp: index_of_append fun_eq_iff split: option.split)
    moreover have "distinct (map vctName (out @ [v]))" using Cons.prems None by (simp add: index_of_None)
    ultimately show ?thesis using None Cons.IH [of "out @ [v]"] by simp
  next
    case (Some j)
    note u = index_of_update [OF Some] update_is_put [OF Cons.prems Some]
    have "distinct (map vctName (out[j := v]))" using Cons.prems u(2) by metis
    from Cons.IH [OF this] show ?thesis unfolding u(1) using Some u(3) by simp
  qed
qed simp

lemma mergeLoop_allowed:
  "mergeLoop PolicyAllowed vs out (index_of out) = (case first_clash out vs of
      None \<Rightarrow> Inr (out @ vs)
    | Some v \<Rightarrow> Inl (VCTRejected ('': '' @ Quote (vctName v) @ '' already defined and policy is not Overrides'')))"
proof (induction vs arbitrary: out)
  case (Cons v vs)
  show ?case
  proof (cases "index_of out (vctName v)")
    case None
    have "(index_of out)(vctName v \<mapsto> length out) = index_of (out @ [v])"
      using None by (auto simp: index_of_append fun_eq_iff split: option.split)
    moreover have "vctName v \<notin> vctName ` set out" using None by (simp add: index_of_None)
    ultimately show ?thesis using None Cons.IH [of "out @ [v]"] by (cases "first_clash (out @ [v]) vs") simp_all
  next
    case (Some j)
    then have "vctName v \<in> vctName ` set out" using index_of_None [of out "vctName v"] by auto
    with Some show ?thesis by simp
  qed
qed simp

text \<open>C32: merging the volume claim templates of a claim into those of a template, done in the code with an index from
  names to positions, agrees with the reference for every policy: Allowed appends them and refuses the
  first name that is taken, Overrides replaces same-named ones in place and appends the rest, any other policy
  refuses; names stay distinct.\<close>

theorem mergeVCT_reference:
  assumes "distinct (map vctName base)"
  shows "mergeVCT base vs policy = merge_reference base vs policy \<and>
    (\<forall>out. mergeVCT base vs policy = Inr out \<longrightarrow> distinct (map vctName out))"
proof -
  have idx: "vctIndex 0 base Map.empty = index_of base"
    using vctIndex_index [OF assms, of 0 Map.empty] by (auto simp: fun_eq_iff split: option.split)
  have clash: "first_clash out vs = None \<Longrightarrow> distinct (map vctName out) \<Longrightarrow> distinct (map vctName (out @ vs))" for out
  proof (induction vs arbitrary: out)
    case (Cons v vs)
    then have "vctName v \<notin> vctName ` set out" "first_clash (out @ [v]) vs = None" by (auto split: if_splits)
    then show ?case using Cons.IH [of "out @ [v]"] Cons.prems(2) by simp
  qed simp
  have "mergeVCT base vs policy = merge_reference base vs policy"
    using mergeLoop_overrides [OF assms, of vs] mergeLoop_allowed [of vs base]
    by (cases policy) (simp_all add: mergeVCT_def merge_reference_def idx)
  then show ?thesis
    using mergeLoop_overrides [OF assms, of vs] clash [OF _ assms]
    by (auto simp: merge_reference_def split: InjectionPolicy.splits option.splits)
qed

theorem mergeVCT_reference_witness:
  "let v = (\<lambda>n k. \<lparr>vctName = n, vctLabels = Map.empty, vctAnnotations = Map.empty, vctSpec = k\<rparr>) :: string \<Rightarrow> nat \<Rightarrow> nat VCT
   in mergeVCT [v ''a'' 1, v ''b'' 2] [v ''b'' 3, v ''c'' 4] PolicyOverrides = Inr [v ''a'' 1, v ''b'' 3, v ''c'' 4] \<and>
      (\<exists>e. mergeVCT [v ''a'' 1, v ''b'' 2] [v ''b'' 3, v ''c'' 4] PolicyAllowed = Inl e)"
  by (simp add: Let_def mergeVCT_reference [THEN conjunct1] merge_reference_def put_vct_def)

section \<open>Environment injection\<close>

text \<open>What injection may do to a container: its environment changes, nothing else; variables keep their places, new
  ones go to the end; and only under Overrides does an existing value change.\<close>

definition env_extends :: "InjectionPolicy \<Rightarrow> Container \<Rightarrow> Container \<Rightarrow> bool" where
  "env_extends policy c c' \<longleftrightarrow> (\<exists>env. c' = c\<lparr>cEnv := env\<rparr> \<and> prefix (map envName (cEnv c)) (map envName env) \<and>
     (policy \<noteq> PolicyOverrides \<longrightarrow> prefix (cEnv c) env))"

lemma env_extends_refl: "env_extends policy c c"
  unfolding env_extends_def by (rule exI [of _ "cEnv c"]) simp

lemma env_extends_trans: "env_extends policy a b \<Longrightarrow> env_extends policy b c \<Longrightarrow> env_extends policy a c"
  unfolding env_extends_def by (auto intro: prefix_order.order_trans)

lemma injectOne_extends:
  assumes "injectOne policy e c = Inr c'"
  shows "env_extends policy c c'"
proof (cases "indexOf (\<lambda>v. envName v = ceName e) (cEnv c)")
  case None
  then have "c' = c\<lparr>cEnv := cEnv c @ [\<lparr>envName = ceName e, envValue = ceValue e, envValueFrom = False\<rparr>]\<rparr>"
    using assms by (simp add: injectOne_def)
  then show ?thesis by (auto simp: env_extends_def)
next
  case (Some i)
  then have c': "policy = PolicyOverrides" "c' = c\<lparr>cEnv := (cEnv c)[i := (cEnv c ! i)\<lparr>envValue := ceValue e, envValueFrom := False\<rparr>]\<rparr>"
    using assms by (auto simp: injectOne_def split: if_splits)
  have "map envName ((cEnv c)[i := (cEnv c ! i)\<lparr>envValue := ceValue e, envValueFrom := False\<rparr>]) = map envName (cEnv c)"
    using indexOf_Some [OF Some] list_update_id [of "map envName (cEnv c)" i] by (simp add: map_update)
  then show ?thesis using c' by (auto simp: env_extends_def)
qed

lemma injectLoop_extends:
  "injectLoop policy env p = Inr p' \<Longrightarrow>
     p' = p\<lparr>psContainers := psContainers p'\<rparr> \<and> list_all2 (env_extends policy) (psContainers p) (psContainers p')"
proof (induction policy env p rule: injectLoop.induct)
  case (1 policy p)
  then show ?case by (simp add: list_all2_refl env_extends_refl)
next
  case (2 policy e env p)
  from "2.prems" obtain i c where i: "envTarget e p = Inr i" "i < length (psContainers p)"
    "injectOne policy e (psContainers p ! i) = Inr c"
    and rest: "injectLoop policy env (p\<lparr>psContainers := (psContainers p)[i := c]\<rparr>) = Inr p'"
    by (auto split: sum.splits if_splits)
  have step: "list_all2 (env_extends policy) (psContainers p) ((psContainers p)[i := c])"
    using injectOne_extends [OF i(3)] i(2) by (auto simp: list_all2_conv_all_nth nth_list_update env_extends_refl)
  note IH = "2.IH" [OF i rest]
  have "list_all2 (env_extends policy) (psContainers p) (psContainers p')"
    using list_all2_trans [OF env_extends_trans step] IH by auto
  moreover have "p' = p\<lparr>psContainers := psContainers p'\<rparr>" using IH [THEN conjunct1] by simp
  ultimately show ?case by blast
qed

lemma injectEnv_extends:
  "injectEnv env policy p = Inr p' \<Longrightarrow>
     p' = p\<lparr>psContainers := psContainers p'\<rparr> \<and> list_all2 (env_extends policy) (psContainers p) (psContainers p')"
  using injectLoop_extends [of policy env p p']
  by (auto simp: injectEnv_def list_all2_refl env_extends_refl split: if_splits)

lemma injectLoop_no_panic: "psContainers p \<noteq> [] \<Longrightarrow> injectLoop policy env p \<noteq> Inl Panicked"
proof (induction policy env p rule: injectLoop.induct)
  case (2 policy e env p)
  have "injectOne policy e c \<noteq> Inl Panicked" for c by (auto simp: injectOne_def split: option.split)
  moreover have "envTarget e p \<noteq> Inl Panicked" by (auto simp: envTarget_def split: option.split)
  moreover have "i < length (psContainers p)" if "envTarget e p = Inr i" for i
    using that "2.prems" by (auto simp: envTarget_def split: if_splits option.splits dest: indexOf_Some)
  ultimately show ?case using 2 by (auto split: sum.split)
qed simp

text \<open>Injecting the environment of a claim indexes past the containers of the pod, which panics, in exactly one case: the
  policy permits injection, the template's pod has no containers, and the first variable names no
  container.\<close>

theorem injectEnv_panics_iff:
  "injectEnv env policy p = Inl Panicked \<longleftrightarrow>
     psContainers p = [] \<and> (policy = PolicyAllowed \<or> policy = PolicyOverrides) \<and> env \<noteq> [] \<and> ceContainerName (hd env) = ''''"
  using injectLoop_no_panic [of p policy env]
  by (cases env; cases "psContainers p") (auto simp: injectEnv_def envTarget_def)

section \<open>What is built\<close>

text \<open>C31: the pod of a sandbox built from a template is secured whatever a claim asks for: the service account token is not
  mounted unless the template says so, and when the platform manages the network and the template has no policy of
  its own, the pod uses fixed name servers, those of the template if it names any. A claim that brings
  environment variables is built only under a policy that allows it; it changes the
  environments of the template's containers only, and no value set there unless the policy is
  Overrides.\<close>

theorem buildBlueprint_secure:
  assumes "buildBlueprint tmpl env vct pm = Inr bp"
  defines "old \<equiv> bpPodSpec (tsBlueprint tmpl)" and "new \<equiv> bpPodSpec bp"
  shows "psAutomountServiceAccountToken new = Some (psAutomountServiceAccountToken old = Some True) \<and>
    (tsNetworkPolicyManagement tmpl \<in> {NPUnset, NPManaged} \<and> \<not> tsNetworkPolicy tmpl \<longrightarrow> psDNSPolicy new = ''None'' \<and>
       psDNSConfig new = Some (case psDNSConfig old of Some (n # ns) \<Rightarrow> n # ns | _ \<Rightarrow> [''8.8.8.8'', ''1.1.1.1''])) \<and>
    (env \<noteq> [] \<longrightarrow> tsEnvVarsInjectionPolicy tmpl \<in> {PolicyAllowed, PolicyOverrides}) \<and>
    list_all2 (env_extends (tsEnvVarsInjectionPolicy tmpl)) (psContainers old) (psContainers new)"
proof -
  obtain p where p: "injectEnv env (tsEnvVarsInjectionPolicy tmpl) old = Inr p"
    using assms(1) by (auto simp: buildBlueprint_def Let_def old_def split: sum.splits)
  have new: "new = applySecureDefaults (tsNetworkPolicyManagement tmpl) (tsNetworkPolicy tmpl) p"
    using assms(1) p by (auto simp: buildBlueprint_def Let_def old_def new_def mergePodMeta_def split: sum.splits if_splits option.splits)
  note ext = injectEnv_extends [OF p]
  have "psAutomountServiceAccountToken p = psAutomountServiceAccountToken old" "psDNSConfig p = psDNSConfig old"
    by (subst ext [THEN conjunct1], simp)+
  moreover have "psContainers new = psContainers p" by (simp add: new applySecureDefaults_def Let_def)
  moreover have "env \<noteq> [] \<longrightarrow> tsEnvVarsInjectionPolicy tmpl \<in> {PolicyAllowed, PolicyOverrides}"
    using p by (auto simp: injectEnv_def split: if_splits)
  ultimately show ?thesis
    using ext by (auto simp: new applySecureDefaults_def Let_def split: option.splits list.splits)
qed

theorem buildBlueprint_secure_witness:
  "\<exists>bp. buildBlueprint sample_template [] [] None = Inr bp \<and> psAutomountServiceAccountToken (bpPodSpec bp) = Some False \<and>
     psDNSConfig (bpPodSpec bp) = Some [''8.8.8.8'', ''1.1.1.1'']"
proof -
  obtain bp where bp: "buildBlueprint sample_template [] [] None = Inr bp"
    by (simp add: buildBlueprint_def Let_def injectEnv_def)
  have "psAutomountServiceAccountToken (bpPodSpec bp) = Some False \<and> psDNSConfig (bpPodSpec bp) = Some [''8.8.8.8'', ''1.1.1.1'']"
    using buildBlueprint_secure [OF bp] by (simp add: sample_template_def sample_blueprint_def sample_pspec_def)
  with bp show ?thesis by blast
qed

end
