(* ===== verification/SandboxProps.thy ===== *)
theory SandboxProps
  imports SampleFacts
begin

text \<open>
  What a reconcile of a sandbox guarantees, and what the delete cascade removes.
\<close>

section \<open>Sandboxes\<close>

text \<open>The object a reconcile finds, at the key it is stored under.\<close>

lemma found_at:
  assumes "ready_world w" "g \<in> loop_gvrs" "Get g ns nm (ws w) = Inr u"
  shows "view (ws w) (at g ns nm) = Some u" "at g ns nm = at g (namespace u) (name u)"
proof -
  show v: "view (ws w) (at g ns nm) = Some u" using assms by (simp add: ready_world_def Get_Inr)
  show "at g ns nm = at g (namespace u) (name u)"
    using stored_at [of "ws w" g "ns @ ''/'' @ nm" u] v assms(1,2) by (simp add: ready_world_def at_def)
qed

text \<open>The registered resources do not change.\<close>

lemma writeStatus_resources [simp]: "resources (ws (fst (writeStatus r g u m w))) = resources (ws w)"
proof -
  have "resources s = resources (ws w)" if "Update L g ob st (ws w) = (s, res)" for L ob st s res
    using that by (cases res) (auto dest: Update_err elim!: Update_okE dest!: commitUpdate_facts(1) simp: commits_def)
  then show ?thesis by (auto simp: writeStatus_def split: sum.split prod.split)
qed

lemma status_resources [simp]:
  "resources (ws (fst (writeSandboxStatus r u st w))) = resources (ws w)"
  "resources (ws (fst (failReady r u st msg t w))) = resources (ws w)"
  "resources (ws (fst (reconcileSuspended r u sp st w))) = resources (ws w)"
  by (simp_all add: writeSandboxStatus_def failReady_def reconcileSuspended_def Let_def case_prod_beta split: sum.split)

lemma StoreDelete_resources:
  "permutes (mapOrder r) \<Longrightarrow> ready_world w \<Longrightarrow> g \<in> loop_gvrs \<Longrightarrow> resources (ws (fst (StoreDelete r g ns nm w))) = resources (ws w)"
  using cascade_shrinks [OF cascade_StoreDelete(1), of r w g ns nm] by (simp add: shrinks_def)

lemma reportRunning_resources [simp]: "resources (ws (fst (reportRunning r u sp st p info w))) = resources (ws w)"
proof -
  have "resources (ws (ensurePodNameAnnotation r u n w)) = resources (ws w)" for n
    by (simp add: ensurePodNameAnnotation_def Patch_frame [OF prod.collapse [symmetric], THEN conjunct1])
  then show ?thesis by (simp add: reportRunning_def Let_def case_prod_beta)
qed

lemma reconcileRunning_resources:
  assumes "reconcileRunning r u sp st w = Some (w', res)" "registered (ws w)"
  shows "resources (ws w') = resources (ws w)"
proof -
  have p: "resources (ws x) = resources (ws w)" if "prepared r u sp w x" for x
    using that ensureVCTs_frame [OF _ assms(2)] unfolding prepared_def by metis
  show ?thesis
    using assms(1)
  proof (cases rule: reconcileRunning_cases)
    case (missing x claim e)
    then show ?thesis using p status_resources(1) by (metis fst_conv)
  next
    case (report p' w1 w2 w3 x info)
    then show ?thesis using p reportRunning_resources by (metis fst_conv)
  qed (simp_all add: p)
qed

text \<open>The ways through \<open>reconcileSandbox\<close>.\<close>

definition expired :: "('j, 'db, 'd, 'v) Reconcilers \<Rightarrow> 'v SandboxSpec \<Rightarrow> bool" where
  "expired r sp \<longleftrightarrow> (case sbShutdownTime sp of None \<Rightarrow> False | Some ex \<Rightarrow> \<not> Clock r 0 < ex)"

lemma reconcileSandbox_decoded:
  assumes "Get SandboxGVR ns nm (ws w) = Inr u" "decodeSandbox (rConv r) u = Inr (sp, st)"
  shows "reconcileSandbox r ns nm w =
    (if orphaned (ws w) u
     then (case StoreDelete r SandboxGVR ns nm w of
             (w1, Inl err) \<Rightarrow> (if IsNotFound err then Some (w1, Inr no_requeue) else Some (w1, Inl (StoreErr err)))
           | (w1, Inr _) \<Rightarrow> Some (w1, Inr no_requeue))
     else if expired r sp then Some (handleSandboxExpiry r u sp st w)
     else if sbOperatingMode sp = ModeSuspended then Some (reconcileSuspended r u sp st w)
     else reconcileRunning r u sp st w)"
  unfolding reconcileSandbox_def expired_def by (simp only: assms sum.case prod.case)

lemma reconcileSandbox_cases:
  assumes rec: "reconcileSandbox r ns nm w = Some (w', res)"
  obtains (unchanged) "w' = w" "\<And>x. res = Inr x \<Longrightarrow> \<exists>e. Get SandboxGVR ns nm (ws w) = Inl e"
  | (orphan) u where "Get SandboxGVR ns nm (ws w) = Inr u" "orphaned (ws w) u" "w' = fst (StoreDelete r SandboxGVR ns nm w)"
  | (expiry) u sp st where "Get SandboxGVR ns nm (ws w) = Inr u" "expired r sp" "handleSandboxExpiry r u sp st w = (w', res)"
  | (suspended) u sp st where "Get SandboxGVR ns nm (ws w) = Inr u" "sbOperatingMode sp = ModeSuspended" "reconcileSuspended r u sp st w = (w', res)"
  | (running) u sp st where "Get SandboxGVR ns nm (ws w) = Inr u" "sbOperatingMode sp \<noteq> ModeSuspended" "reconcileRunning r u sp st w = Some (w', res)"
proof (cases "Get SandboxGVR ns nm (ws w)")
  case (Inl e)
  then show ?thesis using rec unchanged by (auto simp: reconcileSandbox_def split: if_splits)
next
  case (Inr u)
  show ?thesis
  proof (cases "decodeSandbox (rConv r) u")
    case (Inl e)
    then show ?thesis using rec Inr unchanged by (auto simp: reconcileSandbox_def)
  next
    case (Inr d)
    obtain sp st where d: "d = (sp, st)" by fastforce
    obtain w1 x where del: "StoreDelete r SandboxGVR ns nm w = (w1, x)" by fastforce
    note eq = reconcileSandbox_decoded [OF \<open>Get SandboxGVR ns nm (ws w) = Inr u\<close> Inr [unfolded d]]
    show ?thesis
      using rec orphan [OF \<open>Get SandboxGVR ns nm (ws w) = Inr u\<close>] expiry [OF \<open>Get SandboxGVR ns nm (ws w) = Inr u\<close>]
        suspended [OF \<open>Get SandboxGVR ns nm (ws w) = Inr u\<close>] running [OF \<open>Get SandboxGVR ns nm (ws w) = Inr u\<close>]
      unfolding eq del by (cases x) (simp_all split: if_splits)
  qed
qed

lemma reconcileSandbox_registered:
  assumes ord: "permutes (mapOrder r)" and w: "ready_world w" and rec: "reconcileSandbox r ns nm w = Some (w', res)"
  shows "registered (ws w')"
proof -
  have reg: "registered (ws w)" using w by (simp add: ready_world_def)
  have del: "resources (ws (fst (StoreDelete r SandboxGVR a b x))) = resources (ws w)" if "ws x = ws w" for a b x
    using StoreDelete_resources [OF ord, of x] that w by (simp add: ready_world_def)
  have ex: "resources (ws (fst (handleSandboxExpiry r u sp st w))) = resources (ws w)" for u sp st
    by (auto simp: handleSandboxExpiry_def Let_def case_prod_beta del split: sum.split)
  have "resources (ws w') = resources (ws w)"
    using rec
  proof (cases rule: reconcileSandbox_cases)
    case (suspended u sp st)
    then show ?thesis using status_resources(3) [of r u sp st w] by simp
  next
    case (expiry u sp st)
    then show ?thesis using ex [of u sp st] by simp
  qed (simp_all add: del reconcileRunning_resources [OF _ reg])
  with reg show ?thesis by (simp add: registered_def)
qed


lemma box_found: "case Get SandboxGVR ''d'' ''b'' (ws (box_world 1)) of Inr u \<Rightarrow> namespace u = ''d'' \<and> name u = ''b'' | _ \<Rightarrow> False"
  by code_simp

lemma box_ready:
  "case reconcileSandbox sample_rec ''d'' ''b'' (box_world 1) of
     Some (w', Inr res) \<Rightarrow> (case Get SandboxGVR ''d'' ''b'' (ws w') of Inr u' \<Rightarrow> isSandboxReady sample_rec u' | _ \<Rightarrow> False) | _ \<Rightarrow> False"
  by code_simp


text \<open>The conditions in the status a reconcile wrote are the conditions it computed.\<close>

lemma reports_present:
  assumes "status_laws (rConv r)" "cond_laws (rCond r)" "reports r ob st"
  shows "\<exists>st'. decSandboxStatus (rConv r) (status ob) = Inr st' \<and>
    (\<forall>t v. IsStatusConditionPresentAndEqual (rCond r) (stConditions st') t v = IsStatusConditionPresentAndEqual (rCond r) (stConditions st) t v)"
proof -
  obtain tree st' where t: "encSandboxStatus (rConv r) st = Inr tree" "decSandboxStatus (rConv r) (Some tree) = Inr st'"
    "untimed (stConditions st') = untimed (stConditions st)" "status ob = Some tree"
    using assms(1,3) unfolding status_laws_def reports_def by (metis sum.inject(2))
  then show ?thesis using present_untimed [OF assms(2) t(3)] by simp
qed

lemma suspendedConds_present:
  assumes "cond_laws (rCond r)"
  shows "IsStatusConditionPresentAndEqual (rCond r) (suspendedConds r gone gen cs) CondReady v \<longleftrightarrow> v = ''False''"
    "IsStatusConditionPresentAndEqual (rCond r) (suspendedConds r gone gen cs) CondSuspended v \<longleftrightarrow> v = (if gone then ''True'' else ''False'')"
  by (simp_all add: suspendedConds_def Let_def setCond_def cond_types(1) [symmetric] cond_set [OF assms] cond_remove [OF assms])

text \<open>C29: a reconcile of a suspended sandbox succeeds, reports Ready false, and reports Suspended exactly when the driver
  found its container or knows that there is none, whether or not the removal of a container it found
  succeeded; when the removal succeeded, the driver shows no container afterwards. The next
  reconcile is due at the shutdown time.\<close>

theorem suspend_stops_container:
  assumes laws: "status_laws (rConv r)" "cond_laws (rCond r)"
    and drv: "container_driver (rDriver r) good hv" "good (wd w)" and w: "ready_world w"
    and u: "Get SandboxGVR ns nm (ws w) = Inr u" "decodeSandbox (rConv r) u = Inr (sp, st)"
    and mode: "\<not> orphaned (ws w) u" "\<not> expired r sp" "sbOperatingMode sp = ModeSuspended"
  shows "\<exists>w' u' st'. reconcileSandbox r ns nm w = Some (w', Inr (expiryRequeue r sp)) \<and> Get SandboxGVR ns nm (ws w') = Inr u' \<and>
    decSandboxStatus (rConv r) (status u') = Inr st' \<and>
    IsStatusConditionPresentAndEqual (rCond r) (stConditions st') CondReady ''False'' \<and>
    (IsStatusConditionTrue (rCond r) (stConditions st') CondSuspended \<longleftrightarrow>
       (case InspectSandbox (rDriver r) (namespace u) (name u) (wd w) of Inr _ \<Rightarrow> True | Inl e \<Rightarrow> e = ErrNotFound)) \<and>
    (case InspectSandbox (rDriver r) (namespace u) (name u) (wd w) of
       Inr info \<Rightarrow> snd (RemoveContainer (rDriver r) (ciID info) (fst (StopContainer (rDriver r) (ciID info) (wd w)))) = None \<longrightarrow>
         InspectSandbox (rDriver r) (namespace u) (name u) (wd w') = Inl ErrNotFound
     | Inl _ \<Rightarrow> wd w' = wd w)"
proof -
  note f = found_at [OF w _ u(1), simplified]
  let ?I = "InspectSandbox (rDriver r) (namespace u) (name u)"
  let ?gone = "case ?I (wd w) of Inr _ \<Rightarrow> True | Inl e \<Rightarrow> e = ErrNotFound"
  let ?w1 = "case ?I (wd w) of Inr info \<Rightarrow> w\<lparr>wd := fst (RemoveContainer (rDriver r) (ciID info) (fst (StopContainer (rDriver r) (ciID info) (wd w))))\<rparr> | Inl _ \<Rightarrow> w"
  let ?st = "conditions_only (suspendedConds r ?gone (generation u) (stConditions st))"
  obtain w' e where wr: "writeSandboxStatus r u ?st ?w1 = (w', e)" by fastforce
  have w1: "ws ?w1 = ws w" by (simp split: sum.split)
  then have "registered (ws ?w1)" "view (ws ?w1) (at SandboxGVR (namespace u) (name u)) = Some u"
    using w f by (simp_all add: ready_world_def)
  note wrote = writeSandboxStatus_reports [OF laws(1) this wr]
  obtain u' where u': "view (ws w') (at SandboxGVR (namespace u) (name u)) = Some u'" "reports r u' ?st" using wrote(1) by blast
  obtain st' where st': "decSandboxStatus (rConv r) (status u') = Inr st'"
    "\<And>t v. IsStatusConditionPresentAndEqual (rCond r) (stConditions st') t v = IsStatusConditionPresentAndEqual (rCond r) (suspendedConds r ?gone (generation u) (stConditions st)) t v"
    using reports_present [OF laws u'(2)] by auto
  have rec: "reconcileSandbox r ns nm w = Some (w', Inr (expiryRequeue r sp))"
    using wr wrote(2) mode
    by (simp add: reconcileSandbox_decoded [OF u] reconcileSuspended_def Let_def result_of_def case_prod_beta split: sum.splits)
  moreover have "Get SandboxGVR ns nm (ws w') = Inr u'"
    using u'(1) f(2) w status_resources(1) [of r u ?st ?w1] wr w1 Get_Inr [of "ws w'" SandboxGVR ns nm u'] by (simp add: ready_world_def registered_def)
  moreover have "?I (wd w') = Inl ErrNotFound"
    if info: "?I (wd w) = Inr info" "snd (RemoveContainer (rDriver r) (ciID info) (fst (StopContainer (rDriver r) (ciID info) (wd w)))) = None" for info
  proof -
    obtain d1 e1 d2 where d: "StopContainer (rDriver r) (ciID info) (wd w) = (d1, e1)" "RemoveContainer (rDriver r) (ciID info) d1 = (d2, None)"
      using info(2) by (metis fst_conv prod.collapse)
    have "wd w' = d2" using wrote(3) info(1) d by simp
    then show ?thesis using container_driver.inspect_stopped_gone [OF drv info(1) d] by simp
  qed
  moreover have "wd w' = wd w" if "?I (wd w) = Inl err" for err using wrote(3) that by simp
  moreover have "IsStatusConditionTrue (rCond r) (stConditions st') CondSuspended \<longleftrightarrow> ?gone"
    "IsStatusConditionPresentAndEqual (rCond r) (stConditions st') CondReady ''False''"
    by (simp_all only: IsStatusConditionTrue_def st'(2) suspendedConds_present [OF laws(2)]) simp
  ultimately show ?thesis
    using st'(1) by (intro exI conjI) (assumption+, simp split: sum.split)
qed

lemma box_suspended:
  "case Get SandboxGVR ''d'' ''b'' (ws (box_world 0)) of Inl _ \<Rightarrow> False
   | Inr u \<Rightarrow> namespace u = ''d'' \<and> name u = ''b'' \<and> \<not> orphaned (ws (box_world 0)) u \<and>
      (case decodeSandbox sample_conv u of Inl _ \<Rightarrow> False
       | Inr d \<Rightarrow> \<not> expired sample_rec (fst d) \<and> sbOperatingMode (fst d) = ModeSuspended)"
  by code_simp

theorem suspend_stops_container_witness:
  "\<exists>info w' res. InspectSandbox fakeDriver ''d'' ''b'' busy_driver = Inr info \<and>
     reconcileSandbox sample_rec ''d'' ''b'' ((box_world 0)\<lparr>wd := busy_driver\<rparr>) = Some (w', Inr res) \<and>
     InspectSandbox fakeDriver ''d'' ''b'' (wd w') = Inl ErrNotFound"
proof -
  let ?w = "(box_world 0)\<lparr>wd := busy_driver\<rparr>"
  obtain u d where u: "Get SandboxGVR ''d'' ''b'' (ws ?w) = Inr u" "namespace u = ''d''" "name u = ''b''" "\<not> orphaned (ws ?w) u"
    "decodeSandbox (rConv sample_rec) u = Inr d" "\<not> expired sample_rec (fst d)" "sbOperatingMode (fst d) = ModeSuspended"
    using box_suspended unfolding evaluates_Inr by auto
  obtain info where info: "fake_Inspect ''d'' ''b'' busy_driver = Inr info" using busy_driver_inspect by blast
  have "ready_world ?w" "fake_good (wd ?w)" by (simp_all add: sample_ready busy_driver_good)
  from suspend_stops_container [OF _ _ sample_driver this(2,1) u(1) _ u(4,6,7), of "snd d"] u info show ?thesis
    by (auto simp: sample_status_laws sample_cond_laws fake_Remove_def)
qed

section \<open>The delete cascade\<close>

text \<open>C30: the recursion of the delete hook ends after three levels: more levels change nothing, and the delete of the
  store satisfies the recursive equation of the code, in which the hook deletes through the
  store again.\<close>

theorem delete_cascade_terminates:
  "deleteLevel (n + 3) r = StoreDelete r \<and>
   StoreDelete r g ns nm w = deleteWith (OnDelete (StoreDelete r) r) r g ns nm w"
  by (intro conjI) (rule deleteLevel_stable, simp, subst StoreDelete_unfold, rule refl)

text \<open>C4: a delete removes its target and, beyond it, only objects owned by an object removed in the same cascade: by a
  controller reference to its uid, or, for a sandbox of a warm pool, by a reference of kind
  SandboxWarmPool to the pool's name. Every other object stays exactly as it was, and the result
  is that of the store's own delete.\<close>

theorem cascade_only_owned:
  assumes ord: "permutes (mapOrder r)" and w: "ready_world w" and g: "g \<in> loop_gvrs"
    and del: "StoreDelete r g ns nm w = (w', res)"
  shows "view (ws w') (at g ns nm) = None \<and> res = snd (Delete (rLib r) g ns nm (ws w)) \<and>
    (view (ws w') x = view (ws w) x \<or> (view (ws w') x = None \<and> (x = at g ns nm \<or> (\<exists>ob y ow.
      view (ws w) x = Some ob \<and> view (ws w) y = Some ow \<and> view (ws w') y = None \<and>
      (controllerOwnerUID ob = uid ow \<or> (fst y = WarmPoolGVR \<and> fst x = SandboxGVR \<and> ownedBy ob ''SandboxWarmPool'' (name ow)))))))"
proof (intro conjI)
  have c: "cascade {at g ns nm} w w'" using cascade_StoreDelete(1) [OF ord w g, of ns nm] del by simp
  show "view (ws w') (at g ns nm) = None" using StoreDelete_gone [OF ord w g, of ns nm] del by simp
  show "res = snd (Delete (rLib r) g ns nm (ws w))" using StoreDelete_result [of r g ns nm w] del by simp
  show "view (ws w') x = view (ws w) x \<or> (view (ws w') x = None \<and> (x = at g ns nm \<or> (\<exists>ob y ow.
      view (ws w) x = Some ob \<and> view (ws w) y = Some ow \<and> view (ws w') y = None \<and>
      (controllerOwnerUID ob = uid ow \<or> (fst y = WarmPoolGVR \<and> fst x = SandboxGVR \<and> ownedBy ob ''SandboxWarmPool'' (name ow))))))"
  proof (cases "view (ws w) x")
    case None
    then show ?thesis using shrinks_gone [OF cascade_shrinks [OF c]] by simp
  next
    case (Some ob)
    show ?thesis
    proof (cases "view (ws w') x")
      case None
      with Some have "removes w w' x ob" by (simp add: removes_def)
      with c Some None show ?thesis unfolding cascade_def removes_def owns_def by blast
    qed (use shrinks_view [OF cascade_shrinks [OF c]] Some in simp)
  qed
qed

lemma owned_world_cascade:
  "view (ws owned_world) (at SandboxGVR ''d'' ''c'') \<noteq> None \<and>
   view (ws (fst (StoreDelete sample_rec SandboxClaimGVR ''d'' ''c'' owned_world))) (at SandboxGVR ''d'' ''c'') = None"
  by code_simp

theorem cascade_only_owned_witness:
  "\<exists>ob y ow w' res. StoreDelete sample_rec SandboxClaimGVR ''d'' ''c'' owned_world = (w', res) \<and>
     view (ws owned_world) (at SandboxGVR ''d'' ''c'') = Some ob \<and> view (ws w') (at SandboxGVR ''d'' ''c'') = None \<and>
     view (ws owned_world) y = Some ow \<and> view (ws w') y = None \<and>
     (controllerOwnerUID ob = uid ow \<or> ownedBy ob ''SandboxWarmPool'' (name ow))"
proof -
  obtain w' res where del: "StoreDelete sample_rec SandboxClaimGVR ''d'' ''c'' owned_world = (w', res)" by fastforce
  have "at SandboxGVR ''d'' ''c'' \<noteq> at SandboxClaimGVR ''d'' ''c''" by (simp add: at_def)
  then show ?thesis
    using cascade_only_owned [OF sample_permutes owned_ready _ del, of "at SandboxGVR ''d'' ''c''"] owned_world_cascade
    unfolding del by (metis fst_conv loop_gvrs_simps(2))
qed

end
