(* ===== verification/ControlProps.thy ===== *)
theory ControlProps
  imports SandboxProps
begin

text \<open>
  The control plane as a whole: the loops, the clients of the store and the container runtime take
  turns on one world.
\<close>

inductive control_step :: "('j, 'db, 'd, 'v) Reconcilers \<Rightarrow> ('j, 'db, 'd) world \<Rightarrow> ('j, 'db, 'd) world \<Rightarrow> bool" for r where
  sandbox: "reconcileSandbox r ns nm w = Some (w', res) \<Longrightarrow> control_step r w w'"
| claim: "reconcileClaim r ns nm w = Some (w', res) \<Longrightarrow> control_step r w w'"
| pool: "reconcileWarmPool r ns nm w = Some (w', res) \<Longrightarrow> control_step r w w'"
| pvc: "reconcilePVC r ns nm w = (w', res) \<Longrightarrow> control_step r w w'"
| cascade: "StoreDelete r g ns nm w = (w', res) \<Longrightarrow> control_step r w w'"
| client: "store_op (rLib r) (ws w) es s \<Longrightarrow> control_step r w (w\<lparr>ws := s\<rparr>)"
| runtime: "control_step r w (w\<lparr>wd := d\<rparr>)"

inductive_cases control_stepE: "control_step r w w'"

lemma control_step_wreach:
  assumes "annotation_law (rLib r)" "races_reach r" "control_step r w w'"
  shows "wreach r w w'"
  using assms(3)
proof (cases rule: control_step.cases)
  case (pvc ns nm res)
  then show ?thesis using wreach_reconcilePVC [of r w ns nm] by simp
next
  case (cascade g ns nm res)
  then show ?thesis using wreach_StoreDelete [of r w g ns nm] by simp
next
  case (client es s)
  then show ?thesis by (auto intro: wreach_store reach_op)
qed (use assms wreach_reconcileSandbox wreach_reconcileClaim wreach_reconcileWarmPool in auto)

text \<open>Every run of the control plane, in which the reconcile loops, deletes with their cascades, other clients and the
  container runtime take turns in any order, is a run of the object store: what holds of every
  run of the store holds of the control plane, and objects stay at the keys that name
  them.\<close>

theorem control_refines_store:
  assumes "annotation_law (rLib r)" "races_reach r" "(control_step r)\<^sup>*\<^sup>* w w'" "keys_ok (ws w)"
  shows "keys_ok (ws w') \<and> (\<exists>log. run (store_step (rLib r)) (ws w) log (ws w'))"
proof -
  have "wreach r w w'"
    using assms(3) by (induction rule: rtranclp.induct) (auto intro: wreach_trans control_step_wreach assms(1,2))
  with assms(4) show ?thesis by (simp add: wreach_def reach_def)
qed

theorem control_refines_store_witness:
  "\<exists>w' log. control_step naming_rec (box_world 0) w' \<and> control_step naming_rec w' (w'\<lparr>wd := busy_driver\<rparr>) \<and>
     run (store_step (rLib naming_rec)) (ws (box_world 0)) log (ws w')"
proof -
  obtain w' res where "reconcileSandbox naming_rec ''d'' ''b'' (box_world 0) = Some (w', res)"
    using reconcileSandbox_some by fastforce
  then have st: "control_step naming_rec (box_world 0) w'" by (rule control_step.sandbox)
  moreover have "control_step naming_rec w' (w'\<lparr>wd := busy_driver\<rparr>)" by (rule control_step.runtime)
  moreover have "keys_ok (ws (box_world 0))" using sample_ready(1) by (simp add: ready_world_def)
  moreover have "(control_step naming_rec)\<^sup>*\<^sup>* (box_world 0) w'" using st by (rule r_into_rtranclp)
  then have "(control_step naming_rec)\<^sup>*\<^sup>* (box_world 0) (w'\<lparr>wd := busy_driver\<rparr>)"
    by (rule rtranclp.rtrancl_into_rtrancl) (rule control_step.runtime)
  ultimately have "\<exists>log. run (store_step (rLib naming_rec)) (ws (box_world 0)) log (ws (w'\<lparr>wd := busy_driver\<rparr>))"
    using control_refines_store [OF naming_annotations naming_races, of "box_world 0" "w'\<lparr>wd := busy_driver\<rparr>"] by auto
  with st show ?thesis by (auto intro: control_step.runtime)
qed

text \<open>The sandbox and the claim loops return on every world: the only loop of the store that may not end, the search
  for a generated name, is not reached by them.\<close>

theorem reconcile_returns:
  "\<exists>w1 res1 w2 res2. reconcileSandbox r ns nm w = Some (w1, res1) \<and> reconcileClaim r ns nm w = Some (w2, res2)"
  using reconcileSandbox_some [of r ns nm w] reconcileClaim_some [of r ns nm w] by auto

end
