(* ===== verification/ClaimFacts.thy ===== *)
theory ClaimFacts
  imports SandboxFacts
begin

text \<open>
  Claims: what adoption takes, under interference of other clients, and which sandbox a claim is
  bound to.
\<close>

section \<open>A version names one state of an object\<close>

lemma run_same_version:
  assumes r: "run (store_step L) s log t" "store_wf s" "unat (rv s) + length log \<le> 2 ^ 64 - 1"
    and x: "view s x = Some ob" "view t x = Some ob'" "resourceVersion ob' = resourceVersion ob"
  shows "ob' = ob"
proof -
  have "\<forall>y o'. view t y = Some o' \<longrightarrow> view s y = Some o' \<or> (\<exists>n > rv s. resourceVersion o' = FormatUint n)"
    using r
  proof (induction rule: st.run_induct_bounded)
    case (step log t es u)
    from store_step_cases [OF step.hyps(5)] step.hyps(2)
    consider (silent) "silent t u" | (event) ev where "es = [ev]" "commits t ev u" "view u = apply_event t ev (view t)" by auto
    then show ?case
    proof cases
      case silent
      then show ?thesis using step.IH by (simp add: silent_view)
    next
      case event
      have "rv s \<le> rv t" using step.hyps(3) by (simp add: word_le_nat_alt)
      moreover have "rv t \<noteq> - 1" using step.hyps(4) event(1) by (intro unat_bound_not_max [of _ 0]) simp
      ultimately have "rv s < rv t + 1" by (rule next_version_fresh)
      then have "\<exists>n > rv s. resourceVersion (evObject ev) = FormatUint n" using event(2) by (auto simp: commits_def)
      moreover have "view t y = Some o' \<or> o' = evObject ev" if "view u y = Some o'" for y o'
        using that unfolding event(3) apply_event_def by (auto split: if_splits)
      ultimately show ?thesis using step.IH by metis
    qed
  qed simp
  moreover obtain n where "n \<le> rv s" "resourceVersion ob = FormatUint n"
    using r(2) x(1) unfolding store_wf_def versions_ok_def by blast
  ultimately show ?thesis using x by fastforce
qed

section \<open>Adoption\<close>

text \<open>Other clients do at most \<open>k\<close> writes between the read and the write of one attempt.\<close>

definition calm :: "('j, 'db, 'd, 'v) Reconcilers \<Rightarrow> nat \<Rightarrow> bool" where
  "calm r k \<longleftrightarrow> (\<forall>i s. store_wf s \<longrightarrow> (\<exists>log. run (store_step (rLib r)) s log (race r i s) \<and> length log \<le> k))"

text \<open>The sandbox taken, the store it was taken from, and the store after.\<close>

definition taken :: "('j, 'db, 'd, 'v) Reconcilers \<Rightarrow> 'j obj \<Rightarrow> string \<Rightarrow> ('j, 'db) store \<Rightarrow> ('j, 'db) store \<Rightarrow> 'j obj \<Rightarrow> 'j obj \<Rightarrow> bool" where
  "taken r u pool s0 s' old sb \<longleftrightarrow> (\<exists>k. view s0 (SandboxGVR, k) = Some old \<and> view s' = (view s0)((SandboxGVR, k) \<mapsto> sb)) \<and>
     ownedBy old ''SandboxWarmPool'' pool \<and>
     sb = (adoptedForm r u old)\<lparr>resourceVersion := FormatUint (rv s0 + 1)\<rparr>"

lemma mergeForUpdate_same:
  "spec a = spec old \<Longrightarrow> uid a = uid old \<Longrightarrow> creationTimestamp a = creationTimestamp old \<Longrightarrow> status a = status old \<Longrightarrow>
   generation a = generation old \<Longrightarrow> mergeForUpdate old a False = a"
  by (simp add: mergeForUpdate_def)

lemma adopt_update:
  assumes s: "store_wf s" "registered s" and pick: "Get SandboxGVR ns nm s = Inr pick" "ownedBy pick ''SandboxWarmPool'' pool"
    and s0: "run (store_step L) s log s0" "unat (rv s) + length log \<le> 2 ^ 64 - 1" "registered s0"
    and up: "Update L SandboxGVR (adoptedForm r u pick) False s0 = (s', Inr sb)"
  shows "taken r u pool s0 s' pick sb"
proof -
  let ?x = "at SandboxGVR (namespace pick) (name pick)"
  have v: "view s ?x = Some pick"
    using Get_Inr [OF s(2), of SandboxGVR ns nm pick] stored_at [of s SandboxGVR "ns @ ''/'' @ nm" pick] s pick(1) by (simp add: at_def)
  obtain n where n: "resourceVersion pick = FormatUint n"
    using s(1) v unfolding store_wf_def versions_ok_def by blast
  from up obtain rm old where rm: "resources s0 SandboxGVR = Some rm"
    "lookup s0 SandboxGVR (key (rmNamespaced rm) (eff_ns rm (namespace pick)) (name pick)) = Some old"
    "\<not> stale (adoptedForm r u pick) old"
    "commitUpdate L SandboxGVR (key (rmNamespaced rm) (eff_ns rm (namespace pick)) (name pick)) old (adoptedForm r u pick) False s0 = (s', sb)"
    by (rule Update_okE) (simp add: adoptedForm_def)
  have x: "(SandboxGVR, key (rmNamespaced rm) (eff_ns rm (namespace pick)) (name pick)) = ?x"
    using rm(1) s0(3) by (simp add: registered_def loop_gvrs_def at_def key_def eff_ns_def)
  then have "view s0 ?x = Some old" using rm(2) by (simp add: view_def at_def)
  moreover have "resourceVersion old = resourceVersion pick" using rm(3) n by (simp add: stale_def adoptedForm_def)
  ultimately have old: "old = pick" using run_same_version [OF s0(1) s(1) s0(2) v] by simp
  have "sb = (adoptedForm r u pick)\<lparr>resourceVersion := FormatUint (rv s0 + 1)\<rparr>"
    using commitUpdate_facts(3) [OF rm(4)] by (simp add: old mergeForUpdate_same adoptedForm_def)
  then show ?thesis
    using commitUpdate_facts(2) [OF rm(4)] x \<open>view s0 ?x = Some old\<close> old pick(2) by (auto simp: taken_def at_def)
qed

lemma adoptLoop_takes:
  assumes "calm r k"
  shows "adoptLoop i n r u pool nm s = (s', Some sb) \<Longrightarrow> store_wf s \<Longrightarrow> registered s \<Longrightarrow> unat (rv s) + n * (k + 1) \<le> 2 ^ 64 - 1 \<Longrightarrow>
    \<exists>s0 old log. run (store_step (rLib r)) s log s0 \<and> taken r u pool s0 s' old sb"
proof (induction n arbitrary: i s)
  case (Suc n)
  obtain pick where pick: "Get SandboxGVR (namespace u) nm s = Inr pick" "ownedBy pick ''SandboxWarmPool'' pool"
    using Suc.prems(1) by (auto split: sum.splits if_splits)
  obtain log where log: "run (store_step (rLib r)) s log (race r i s)" "length log \<le> k"
    using assms Suc.prems(2) unfolding calm_def by blast
  have b: "unat (rv s) + length log \<le> 2 ^ 64 - 1" using Suc.prems(4) log(2) by simp
  have wf: "store_wf (race r i s)" "unat (rv (race r i s)) = unat (rv s) + length log"
    using st.run_keeps [OF log(1) Suc.prems(2) b] by simp_all
  have reg: "registered (race r i s)"
    using run_resources [OF log(1) Suc.prems(2) b] Suc.prems(3) by (simp add: registered_def)
  obtain s1 res where up: "Update (rLib r) SandboxGVR (adoptedForm r u pick) False (race r i s) = (s1, res)" by fastforce
  show ?case
  proof (cases res)
    case (Inr m)
    then have "s1 = s'" "m = sb" using Suc.prems(1) pick up by simp_all
    then show ?thesis
      using adopt_update [OF Suc.prems(2,3) pick log(1) b reg] up Inr log(1) by blast
  next
    case (Inl e)
    then have s1: "s1 = race r i s" using up Update_err by blast
    have "adoptLoop (Suc i) n r u pool nm (race r i s) = (s', Some sb)"
      using Suc.prems(1) pick up Inl s1 by (simp split: if_splits)
    moreover have "unat (rv (race r i s)) + n * (k + 1) \<le> 2 ^ 64 - 1" using wf(2) log(2) Suc.prems(4) by simp
    ultimately obtain s0 old log' where "run (store_step (rLib r)) (race r i s) log' s0" "taken r u pool s0 s' old sb"
      using Suc.IH [OF _ wf(1) reg] by blast
    then show ?thesis using run_trans [OF _ log(1)] by metis
  qed
qed simp

lemma adoptWarmSandbox_takes:
  assumes "calm r k" "adoptWarmSandbox r u pool s = (s', Some sb)" "store_wf s" "registered s" "unat (rv s) + 5 * (k + 1) \<le> 2 ^ 64 - 1"
  shows "\<exists>s0 old log. run (store_step (rLib r)) s log s0 \<and> taken r u pool s0 s' old sb"
  using adoptLoop_takes [OF assms(1) _ assms(3-5)] assms(2)
  by (auto simp: adoptWarmSandbox_def Let_def simp del: adoptLoop.simps split: if_splits)

lemma taken_owner:
  assumes "taken r u pool s0 s' old sb"
  shows "controllerOwnerUID sb = uid u" "\<not> ownedBy sb ''SandboxWarmPool'' p" "uid sb = uid old" "spec sb = spec old" "status sb = status old"
  using assms by (auto simp: taken_def adoptedForm_def controllerOwnerUID_def controllerRef_def is_controller_def ownedBy_def)

section \<open>Binding\<close>

lemma Create_stored:
  assumes "Create L g ob s = Some (s', Inr ob')"
  shows "\<exists>k. view s' (g, k) = Some ob'" "ownerReferences ob' = ownerReferences ob"
proof -
  from assms obtain rm ob1 i where rm: "resources s g = Some rm"
    and c: "createNamed L g rm ob1 (s\<lparr>randCount := i\<rparr>) = (s', Inr ob')" "ob1 = ob\<lparr>namespace := namespace ob1, name := name ob1\<rparr>"
    by (rule Create_okE)
  note ok = createNamed_ok [OF c(1)]
  show "\<exists>k. view s' (g, k) = Some ob'" using ok(3) rm by auto
  obtain s1 where "stampNew ob1 (s\<lparr>randCount := i\<rparr>) = (s1, ob')" using ok(6) rm by auto
  then have "ownerReferences ob' = ownerReferences ob1" by (auto simp: stampNew_def Let_def split: if_splits prod.splits)
  moreover have "ownerReferences ob1 = ownerReferences ob" by (subst c(2)) simp
  ultimately show "ownerReferences ob' = ownerReferences ob" by simp
qed

text \<open>The sandbox a claim is bound to is stored, and the claim controls it.\<close>

definition bound :: "'j obj \<Rightarrow> 'j obj \<Rightarrow> ('j, 'db) store \<Rightarrow> bool" where
  "bound u sb s \<longleftrightarrow> (\<exists>k. view s (SandboxGVR, k) = Some sb) \<and> controllerOwnerUID sb = uid u"

lemma Get_bound: "Get SandboxGVR ns nm s = Inr sb \<Longrightarrow> controllerOwnerUID sb = uid u \<Longrightarrow> bound u sb s"
  by (auto simp: bound_def Get_def view_def split: sum.splits option.splits)

lemma existingBinding_bound: "existingBinding u st s = Some sb \<Longrightarrow> bound u sb s"
  by (auto simp: existingBinding_def split: if_splits sum.splits intro: Get_bound)

lemma controllerRef_owner: "ownerReferences sb = [controllerRef u gv knd] \<Longrightarrow> controllerOwnerUID sb = uid u"
  by (simp add: controllerOwnerUID_def controllerRef_def is_controller_def)

lemma coldCreate_bound:
  assumes "coldCreate r u sp tmpl s = Some (s', Inr sb)"
  shows "bound u sb s'"
proof -
  obtain ob where ob: "buildSandbox (rConv r) tmpl (namespace u) (name u) '''' (Some u) ''SandboxClaim'' (coldLabels r u)
      (clEnv sp) (clVolumeClaimTemplates sp) (Some (clAdditionalPodMetadata sp)) = Inr ob"
    using assms by (auto simp: coldCreate_def split: sum.splits)
  obtain s1 res where cr: "Create (rLib r) SandboxGVR ob s = Some (s1, res)"
    using assms ob by (auto simp: coldCreate_def split: option.splits)
  show ?thesis
  proof (cases res)
    case (Inr ob')
    then have "s1 = s'" "ob' = sb" using assms ob cr by (simp_all add: coldCreate_def)
    moreover have "ownerReferences ob' = [controllerRef u ExtensionsGV ''SandboxClaim'']"
      using Create_stored(2) [of "rLib r" SandboxGVR ob s s1 ob'] cr Inr buildSandbox_fields(6) [OF ob] by simp
    ultimately show ?thesis
      using Create_stored(1) [of "rLib r" SandboxGVR ob s s1 ob'] cr Inr controllerRef_owner by (auto simp: bound_def)
  next
    case (Inl e)
    then show ?thesis
      using assms ob cr by (auto simp: coldCreate_def split: if_splits sum.splits intro: Get_bound)
  qed
qed

lemma getOrCreateSandbox_bound:
  assumes "calm r k" "store_wf s" "registered s" "unat (rv s) + 5 * (k + 1) \<le> 2 ^ 64 - 1"
    and g: "getOrCreateSandbox r u sp st tmpl pool s = Some (s', Inr (sb, adopted))"
  shows "bound u sb s'"
proof (cases "existingBinding u st s")
  case (Some b)
  then show ?thesis using g existingBinding_bound by (auto simp: getOrCreateSandbox_def)
next
  case None
  obtain s1 a where a: "(if \<not> (length (clEnv sp) > 0 \<or> length (clVolumeClaimTemplates sp) > 0) then adoptWarmSandbox r u pool s else (s, None)) = (s1, a)"
    by fastforce
  show ?thesis
  proof (cases a)
    case (Some b)
    then have "adoptWarmSandbox r u pool s = (s', Some sb)"
      using a g None by (auto simp: getOrCreateSandbox_def Let_def split: if_splits)
    then show ?thesis
      using adoptWarmSandbox_takes [OF assms(1) _ assms(2-4)] taken_owner(1) by (fastforce simp: bound_def taken_def)
  next
    case None
    then have "coldCreate r u sp tmpl s1 = Some (s', Inr sb)"
      using g a \<open>existingBinding u st s = None\<close>
      unfolding getOrCreateSandbox_def Let_def by (simp split: option.splits prod.splits sum.splits)
    then show ?thesis by (rule coldCreate_bound)
  qed
qed

end
