(* ===== verification/PoolFacts.thy ===== *)
theory PoolFacts
  imports ClaimFacts
begin

text \<open>
  The members of a warm pool: how the adjusting step of the pool's loop changes their number.
\<close>

section \<open>Members\<close>

definition member :: "string \<Rightarrow> string \<Rightarrow> 'j obj \<Rightarrow> bool" where
  "member ns nm ob \<longleftrightarrow> namespace ob = ns \<and> ownedBy ob ''SandboxWarmPool'' nm"

definition members :: "('j, 'db) store \<Rightarrow> string \<Rightarrow> string \<Rightarrow> string set" where
  "members s ns nm = {k. \<exists>ob. view s (SandboxGVR, k) = Some ob \<and> member ns nm ob}"

lemma members_finite [simp]: "finite (members s ns nm)"
proof -
  have "members s ns nm \<subseteq> fst ` set (data s SandboxGVR)"
    by (force simp: members_def view_def lookup_def dest: map_of_SomeD)
  then show ?thesis by (rule finite_subset) simp
qed

lemma members_cong: "(\<And>k. view s' (SandboxGVR, k) = view s (SandboxGVR, k)) \<Longrightarrow> members s' ns nm = members s ns nm"
  by (simp add: members_def)

lemma members_put:
  assumes "view s' = (view s)((SandboxGVR, k) \<mapsto> ob)" "view s (SandboxGVR, k) = None" "member ns nm ob"
  shows "card (members s' ns nm) = Suc (card (members s ns nm))"
proof -
  have "members s' ns nm = insert k (members s ns nm)" using assms(1,3) by (auto simp: members_def)
  moreover have "k \<notin> members s ns nm" using assms(2) by (simp add: members_def)
  ultimately show ?thesis by simp
qed

text \<open>The list a reconcile counts holds every member once.\<close>

lemma listed_members:
  assumes "keys_ok s" "registered s" "permutes ord" "ns \<noteq> ''''" "StoreList ord SandboxGVR ns no_selectors s = Inr lst"
  shows "length (poolMembers nm (lrItems lst)) = card (members s ns nm)"
    "distinct (map name (poolMembers nm (lrItems lst)))"
    "\<And>sb. sb \<in> set (poolMembers nm (lrItems lst)) \<Longrightarrow> member ns nm sb \<and> view s (at SandboxGVR ns (name sb)) = Some sb"
proof -
  let ?xs = "filter (\<lambda>x. member ns nm (snd x)) (ord (data s SandboxGVR))"
  have rm: "meta s SandboxGVR = Inr \<lparr>rmNamespaced = True, rmGroupRes = GVR_GroupResource SandboxGVR\<rparr>"
    using registered_meta [OF assms(2)] by simp
  have "Selectors_Matches no_selectors ob" for ob :: "'a obj" by (simp add: Selectors_Matches_def no_selectors_def)
  then have items: "poolMembers nm (lrItems lst) = map snd ?xs"
    using assms(4,5) unfolding StoreList_def rm
    by (auto simp: poolMembers_def in_namespace_def member_def filter_map comp_def conj_commute cong: filter_cong)
  have ms: "mset (ord (data s SandboxGVR)) = mset (data s SandboxGVR)" using assms(3) by (simp add: permutes_def)
  then have "mset (map fst (ord (data s SandboxGVR))) = mset (map fst (data s SandboxGVR))" by simp
  then have d: "distinct (map fst (ord (data s SandboxGVR)))"
    using assms(1) by (metis keys_ok_def mset_eq_imp_distinct_iff)
  have set: "set (ord (data s SandboxGVR)) = set (data s SandboxGVR)" using ms by (metis set_mset_mset)
  have v: "view s (SandboxGVR, k) = Some ob \<longleftrightarrow> (k, ob) \<in> set (ord (data s SandboxGVR))" for k ob
    using d set assms(1) by (auto simp: view_def lookup_def keys_ok_def map_of_is_SomeI dest: map_of_SomeD)
  have "members s ns nm = fst ` set ?xs" unfolding members_def v by force
  moreover have "card (fst ` set ?xs) = length ?xs"
    using d by (metis distinct_card distinct_map_filter length_map list.set_map)
  ultimately show "length (poolMembers nm (lrItems lst)) = card (members s ns nm)" by (simp add: items)
  have at: "(SandboxGVR, k) = at SandboxGVR ns (name ob)" if "(k, ob) \<in> set ?xs" for k ob
    using that v stored_at [OF assms(1,2), of SandboxGVR k ob] by (auto simp: member_def)
  then have "map fst ?xs = map (\<lambda>x. ns @ ''/'' @ name (snd x)) ?xs" by (auto simp: at_def)
  moreover have "distinct (map fst ?xs)" using d by (rule distinct_map_filter)
  ultimately have "distinct (map (\<lambda>x. ns @ ''/'' @ name (snd x)) ?xs)" by metis
  then have "distinct (map (\<lambda>n. ns @ ''/'' @ n) (map name (map snd ?xs)))" by (simp add: comp_def)
  then show "distinct (map name (poolMembers nm (lrItems lst)))" unfolding items by (rule distinct_map [THEN iffD1, THEN conjunct1])
  show "member ns nm sb \<and> view s (at SandboxGVR ns (name sb)) = Some sb" if "sb \<in> set (poolMembers nm (lrItems lst))" for sb
  proof -
    have "sb \<in> snd ` set ?xs" using that unfolding items by simp
    then obtain x where "x \<in> set ?xs" "sb = snd x" by blast
    then have k: "(fst x, sb) \<in> set ?xs" by simp
    then show ?thesis using at [OF k] v [of "fst x" sb] by simp
  qed
qed

section \<open>Creating members\<close>

lemma Create_member:
  assumes "keys_ok s" "registered s" "Create L SandboxGVR ob s = Some (s', Inr ob')" "member ns nm ob"
  shows "card (members s' ns nm) = Suc (card (members s ns nm))" "keys_ok s'" "registered s'"
proof -
  from assms(3) obtain rm ob1 i where rm: "resources s SandboxGVR = Some rm" "namespace ob1 = eff_ns rm (namespace ob)"
    and c: "createNamed L SandboxGVR rm ob1 (s\<lparr>randCount := i\<rparr>) = (s', Inr ob')"
    by (rule Create_okE)
  have ns: "eff_ns rm (namespace ob) = namespace ob" using rm(1) assms(2) by (simp add: registered_def loop_gvrs_def eff_ns_def)
  have v: "view (s\<lparr>randCount := i\<rparr>) = view s" by (simp add: view_def lookup_def fun_eq_iff)
  let ?k = "key (rmNamespaced rm) (namespace ob1) (name ob1)"
  note ok = createNamed_ok [OF c, simplified, OF rm(1)]
  have "member ns nm ob'" using Create_stored(2) [OF assms(3)] ok(4) rm(2) ns assms(4) by (simp add: member_def ownedBy_def)
  moreover have "view s (SandboxGVR, ?k) = None" using ok(2) by (simp add: view_def lookup_def)
  ultimately show "card (members s' ns nm) = Suc (card (members s ns nm))" using members_put ok(3) v by metis
  show "keys_ok s'" using reach_Create [OF assms(3)] assms(1) by (simp add: reach_def)
  show "registered s'" using Create_frame [OF assms(3)] assms(2) by (simp add: registered_def)
qed

lemma createWarm_members:
  assumes build: "buildSandbox (rConv r) tmpl ns '''' (nm @ ''-'') (Some u) ''SandboxWarmPool'' (warmLabels r nm tn) [] [] None = Inr sb"
    and u: "name u = nm"
  shows "createWarm n r u tmpl tn ns nm s = Some (s', None) \<Longrightarrow> keys_ok s \<Longrightarrow> registered s \<Longrightarrow>
    card (members s' ns nm) = card (members s ns nm) + n \<and> registered s'"
proof (induction n arbitrary: s)
  case (Suc n)
  from Suc.prems(1) obtain s1 ob where c: "Create (rLib r) SandboxGVR sb s = Some (s1, Inr ob)"
    and rest: "createWarm n r u tmpl tn ns nm s1 = Some (s', None)"
    by (auto simp: build split: option.splits sum.splits)
  have "member ns nm sb"
    using buildSandbox_fields(1,6) [OF build] u by (simp add: member_def ownedBy_def controllerRef_def)
  from Create_member [OF Suc.prems(2,3) c this] show ?case using Suc.IH [OF rest] by simp
qed simp

section \<open>Deleting members\<close>

lemma Delete_other:
  assumes "Delete L g ns nm s = (s', res)" "fst x \<noteq> g"
  shows "view s' x = view s x"
  using assms by (cases res) (auto dest: Delete_err elim!: Delete_okE)

lemma StoreDelete_pvc:
  assumes "fst x \<noteq> PVCGVR"
  shows "view (ws (fst (StoreDelete r PVCGVR ns nm w))) x = view (ws w) x"
proof -
  obtain s res where d: "Delete (rLib r) PVCGVR ns nm (ws w) = (s, res)" by fastforce
  have "view s x = view (ws w) x" using Delete_other [OF d assms] .
  then show ?thesis
    by (subst StoreDelete_unfold) (auto simp: deleteWith_def d OnDelete_def cleanupPVCVolume_def split: sum.split)
qed

lemma cleanupVCTs_other:
  "fst x \<noteq> PVCGVR \<Longrightarrow> view (ws (cleanupVCTs (StoreDelete r) r ob vcts w)) x = view (ws w) x"
  by (induction vcts arbitrary: w) (auto simp: Let_def StoreDelete_pvc split: sum.split)

lemma StoreDelete_sandbox:
  assumes "fst x \<noteq> PVCGVR" "registered (ws w)"
  shows "view (ws (fst (StoreDelete r SandboxGVR ns nm w))) x = (if x = at SandboxGVR ns nm then None else view (ws w) x)"
proof -
  obtain s res where d: "Delete (rLib r) SandboxGVR ns nm (ws w) = (s, res)" by fastforce
  have rm: "resources (ws w) SandboxGVR = Some \<lparr>rmNamespaced = True, rmGroupRes = GVR_GroupResource SandboxGVR\<rparr>"
    using assms(2) by (simp add: registered_def)
  have v: "view s x = (if x = at SandboxGVR ns nm then None else view (ws w) x)"
  proof (cases res)
    case (Inr ob)
    with d rm show ?thesis by (auto elim!: Delete_okE simp: at_def key_def eff_ns_def)
  next
    case (Inl e)
    then have "s = ws w" "view (ws w) (at SandboxGVR ns nm) = None"
      using d rm Delete_err [of "rLib r" SandboxGVR ns nm "ws w"] registered_meta [OF assms(2), of SandboxGVR]
      by (auto simp: Delete_def Let_def at_def key_def view_def simp del: meta_Inr split: option.splits)
    then show ?thesis by auto
  qed
  have "view (ws (OnDelete (StoreDelete r) r SandboxGVR ob w')) x = view (ws w') x" for ob w'
    using assms(1) by (auto simp: OnDelete_def cleanupSandboxResources_def Let_def cleanupVCTs_other split: sum.split)
  with v show ?thesis by (subst StoreDelete_unfold) (auto simp: deleteWith_def d split: sum.split)
qed

lemma deleteExcess_members:
  assumes "distinct (map name sbs)" "\<And>sb. sb \<in> set sbs \<Longrightarrow> member ns nm sb \<and> view (ws w) (at SandboxGVR ns (name sb)) = Some sb"
    and "ready_world w" "permutes (mapOrder r)"
  shows "card (members (ws (deleteExcess r ns sbs w)) ns nm) + length sbs = card (members (ws w) ns nm) \<and>
    registered (ws (deleteExcess r ns sbs w))"
  using assms(1-3)
proof (induction sbs arbitrary: w)
  case Nil
  then show ?case by (simp add: ready_world_def)
next
  case (Cons sb sbs)
  let ?w = "fst (StoreDelete r SandboxGVR ns (name sb) w)"
  let ?k = "ns @ ''/'' @ name sb"
  have reg: "registered (ws w)" using Cons.prems by (simp add: ready_world_def)
  have v: "view (ws ?w) (SandboxGVR, k) = (if k = ?k then None else view (ws w) (SandboxGVR, k))" for k
    using StoreDelete_sandbox [OF _ reg, of "(SandboxGVR, k)" r ns "name sb"] by (simp add: at_def)
  have "members (ws w) ns nm = insert ?k (members (ws ?w) ns nm)"
    using Cons.prems(2) [of sb] v by (auto simp: members_def at_def)
  moreover have "?k \<notin> members (ws ?w) ns nm" by (simp add: members_def v)
  ultimately have card: "card (members (ws w) ns nm) = Suc (card (members (ws ?w) ns nm))" by simp
  have "view (ws ?w) (at SandboxGVR ns (name sb')) = Some sb'" if "sb' \<in> set sbs" for sb'
  proof -
    have "name sb' \<noteq> name sb" using Cons.prems(1) that by (metis distinct.simps(2) image_eqI list.map(2) list.set_map)
    then show ?thesis using Cons.prems(2) [of sb'] that v [of "ns @ ''/'' @ name sb'"] by (simp add: at_def)
  qed
  moreover have "ready_world ?w" using cascade_StoreDelete(2) [OF assms(4) Cons.prems(3)] by simp
  ultimately show ?case using Cons.IH [of ?w] Cons.prems card by simp
qed

section \<open>The adjusting step\<close>

lemma adjustPool_members:
  assumes adj: "adjustPool r u (Some tmpl) tn ns nm desired (poolMembers nm (lrItems lst)) w = Some (w', None)"
    and w: "ready_world w" "permutes (mapOrder r)" "sorts (sortSlice r)"
    and lst: "ns \<noteq> ''''" "StoreList (mapOrder r) SandboxGVR ns no_selectors (ws w) = Inr lst"
    and build: "buildSandbox (rConv r) tmpl ns '''' (nm @ ''-'') (Some u) ''SandboxWarmPool'' (warmLabels r nm tn) [] [] None = Inr sb"
    and u: "name u = nm"
  shows "int (card (members (ws w') ns nm)) = desired" "registered (ws w')"
proof -
  have ok: "keys_ok (ws w)" "registered (ws w)" using w(1) by (simp_all add: ready_world_def)
  let ?mine = "poolMembers nm (lrItems lst)"
  note m = listed_members [OF ok w(2) lst, where nm = nm]
  consider (create) s where "int (length ?mine) < desired" "w' = w\<lparr>ws := s\<rparr>"
      "createWarm (nat (desired - int (length ?mine))) r u tmpl tn ns nm (ws w) = Some (s, None)"
    | (delete) "0 \<le> desired" "desired < int (length ?mine)"
      "w' = deleteExcess r ns (take (nat (int (length ?mine) - desired)) (sortSlice r (excessOrder r) ?mine)) w"
    | (same) "int (length ?mine) = desired" "w' = w"
    using adj by (auto simp: adjustPool_def split: if_splits option.splits)
  then have "int (card (members (ws w') ns nm)) = desired \<and> registered (ws w')"
  proof cases
    case create
    then show ?thesis using createWarm_members [OF build u create(3) ok] m(1) by simp
  next
    case delete
    let ?sorted = "sortSlice r (excessOrder r) ?mine"
    let ?gone = "take (nat (int (length ?mine) - desired)) ?sorted"
    have ms: "mset ?sorted = mset ?mine" using w(3) by (simp add: sorts_def)
    have "distinct (map name ?sorted)" using m(2) ms by (metis mset_eq_imp_distinct_iff mset_map)
    then have "distinct (map name ?gone)" by (simp add: take_map [symmetric] distinct_take)
    moreover have "set ?gone \<subseteq> set ?mine" using ms by (metis set_mset_mset set_take_subset)
    then have "member ns nm sb \<and> view (ws w) (at SandboxGVR ns (name sb)) = Some sb" if "sb \<in> set ?gone" for sb
      using m(3) that by blast
    moreover have "length ?sorted = length ?mine" using ms by (metis size_mset)
    then have "length ?gone = nat (int (length ?mine) - desired)" using delete(1) by simp
    ultimately have c: "card (members (ws w') ns nm) + length ?gone = card (members (ws w) ns nm) \<and> registered (ws w')"
      unfolding delete(3) by (intro deleteExcess_members [OF _ _ w(1,2)])
    have "int (length ?gone) = int (card (members (ws w) ns nm)) - desired"
      using \<open>length ?gone = nat (int (length ?mine) - desired)\<close> delete(2) unfolding m(1) by linarith
    then show ?thesis using c by linarith
  next
    case same
    then show ?thesis using m(1) ok(2) by simp
  qed
  then show "int (card (members (ws w') ns nm)) = desired" "registered (ws w')" by simp_all
qed

lemma deleteExcess_other:
  "fst x \<noteq> PVCGVR \<Longrightarrow> fst x \<noteq> SandboxGVR \<Longrightarrow> permutes (mapOrder r) \<Longrightarrow> ready_world w \<Longrightarrow>
     view (ws (deleteExcess r ns sbs w)) x = view (ws w) x"
proof (induction sbs arbitrary: w)
  case (Cons sb sbs)
  have "x \<noteq> at SandboxGVR ns (name sb)" using Cons.prems(2) by (auto simp: at_def)
  then have "view (ws (fst (StoreDelete r SandboxGVR ns (name sb) w))) x = view (ws w) x"
    using StoreDelete_sandbox [OF Cons.prems(1), of w r ns "name sb"] Cons.prems(4) by (simp add: ready_world_def)
  moreover have "ready_world (fst (StoreDelete r SandboxGVR ns (name sb) w))"
    using cascade_StoreDelete(2) [OF Cons.prems(3,4)] by simp
  ultimately show ?case using Cons by simp
qed simp

text \<open>The loop of the pool once its pool and its members are read.\<close>

lemma reconcileWarmPool_adjusts:
  assumes "Get WarmPoolGVR ns nm (ws w) = Inr u" "decWarmPool (rConv r) (spec u) (status u) = Inr pool"
    and "StoreList (mapOrder r) SandboxGVR ns no_selectors (ws w) = Inr lst"
    and "adjustPool r u (poolTemplate (rConv r) ns (wpTemplateRef pool) (ws w)) (wpTemplateRef pool) ns nm (poolDesired pool)
      (poolMembers nm (lrItems lst)) w = Some (w1, e)"
  shows "\<exists>st. reconcileWarmPool r ns nm w = (case e of
      Some err \<Rightarrow> Some (w1, Inl err)
    | None \<Rightarrow> (case writeWarmPoolStatus r u st w1 of (w2, e') \<Rightarrow> Some (w2, result_of no_requeue e')))"
  unfolding reconcileWarmPool_def Let_def by (simp add: assms split: option.split) blast

lemma StoreList_registered: "registered s \<Longrightarrow> g \<in> loop_gvrs \<Longrightarrow> \<exists>lst. StoreList ord g ns sel s = Inr lst"
  by (simp add: StoreList_def registered_meta del: meta_Inr)

end
