(* ===== verification/ClaimProps.thy ===== *)
theory ClaimProps
  imports PoolFacts SampleFacts
begin

text \<open>
  What claims and warm pools guarantee.
\<close>

section \<open>Claims\<close>

lemma sample_calm: "calm sample_rec 0"
  by (auto simp: calm_def intro: exI [of _ "[]"] run.run_refl)

text \<open>C5: adoption takes a sandbox out of its pool in one step, whatever other clients write between the read and the
  write of each attempt: the very object that the pool owned in the store just before is
  replaced by one that the claim controls and no pool owns, with the same identity, spec and status, and nothing
  else changes. So a sandbox adopted once is not adopted again while its owner references
  stay.\<close>

theorem adoption_exclusive:
  assumes "calm r k" "adoptWarmSandbox r u pool s = (s', Some sb)" "store_wf s" "registered s"
    and "unat (rv s) + 5 * (k + 1) \<le> 2 ^ 64 - 1"
  shows "\<exists>s0 log key old. run (store_step (rLib r)) s log s0 \<and> view s0 (SandboxGVR, key) = Some old \<and>
    ownedBy old ''SandboxWarmPool'' pool \<and> view s' = (view s0)((SandboxGVR, key) \<mapsto> sb) \<and>
    controllerOwnerUID sb = uid u \<and> (\<forall>p. \<not> ownedBy sb ''SandboxWarmPool'' p) \<and>
    uid sb = uid old \<and> spec sb = spec old \<and> status sb = status old"
proof -
  obtain s0 old log where "run (store_step (rLib r)) s log s0" and t: "taken r u pool s0 s' old sb"
    using adoptWarmSandbox_takes [OF assms] by blast
  moreover obtain key where "view s0 (SandboxGVR, key) = Some old" "view s' = (view s0)((SandboxGVR, key) \<mapsto> sb)"
    using t by (auto simp: taken_def)
  ultimately show ?thesis using taken_owner [OF t] t unfolding taken_def by blast
qed

lemma warm_adopted: "snd (adoptWarmSandbox sample_rec claim_obj ''p'' warm_store) \<noteq> None"
  by code_simp

theorem adoption_exclusive_witness:
  "\<exists>s' sb. adoptWarmSandbox sample_rec claim_obj ''p'' warm_store = (s', Some sb) \<and> controllerOwnerUID sb = uid claim_obj \<and>
     (\<forall>p. \<not> ownedBy sb ''SandboxWarmPool'' p)"
proof -
  obtain s' sb where a: "adoptWarmSandbox sample_rec claim_obj ''p'' warm_store = (s', Some sb)"
    using warm_adopted by (metis option.exhaust prod.collapse)
  with adoption_exclusive [OF sample_calm a warm_store_ok(1,2)] warm_store_ok(3) show ?thesis by fastforce
qed

text \<open>C17: whenever a claim gets a sandbox, by the binding its status records, by adopting one of its pool, by creating one or by
  finding the one it created before, that sandbox is stored and controlled by the claim. A sandbox that
  another owner controls is never bound, whatever its name.\<close>

theorem claim_binds_own_sandbox:
  assumes "getOrCreateSandbox r u sp st tmpl pool s = Some (s', Inr (sb, adopted))" "calm r k" "store_wf s" "registered s"
    and "unat (rv s) + 5 * (k + 1) \<le> 2 ^ 64 - 1"
  shows "(\<exists>key. view s' (SandboxGVR, key) = Some sb) \<and> controllerOwnerUID sb = uid u"
  using getOrCreateSandbox_bound [OF assms(2-5,1)] by (simp add: bound_def)

lemma cold_bound:
  "case getOrCreateSandbox sample_rec claim_obj (claim_table 0) \<lparr>ksConditions = [], ksSandboxName = [], ksPodIPs = []\<rparr> (template_table 0) ''q'' warm_store of
     None \<Rightarrow> False | Some (s', res) \<Rightarrow> (case res of Inl _ \<Rightarrow> False | Inr d \<Rightarrow> \<not> snd d)"
  by code_simp

theorem claim_binds_own_sandbox_witness:
  "\<exists>s' sb. getOrCreateSandbox sample_rec claim_obj (claim_table 0) \<lparr>ksConditions = [], ksSandboxName = [], ksPodIPs = []\<rparr> (template_table 0) ''q'' warm_store =
     Some (s', Inr (sb, False)) \<and> controllerOwnerUID sb = uid claim_obj"
proof -
  obtain s' d where d: "getOrCreateSandbox sample_rec claim_obj (claim_table 0) \<lparr>ksConditions = [], ksSandboxName = [], ksPodIPs = []\<rparr> (template_table 0) ''q'' warm_store =
     Some (s', Inr d)" "\<not> snd d"
    using cold_bound unfolding evaluates_Some evaluates_Inr by blast
  have g: "getOrCreateSandbox sample_rec claim_obj (claim_table 0) \<lparr>ksConditions = [], ksSandboxName = [], ksPodIPs = []\<rparr> (template_table 0) ''q'' warm_store =
     Some (s', Inr (fst d, False))"
    unfolding d(1) using d(2) by (cases d) simp
  with claim_binds_own_sandbox [OF g sample_calm warm_store_ok(1,2)] warm_store_ok(3) show ?thesis by fastforce
qed

section \<open>Warm pools\<close>

lemma writeWarmPoolStatus_members:
  "members (ws (fst (writeWarmPoolStatus r u st w))) ns nm = members (ws w) ns nm"
proof -
  have "view s (SandboxGVR, k) = view (ws w) (SandboxGVR, k)" if "Update L WarmPoolGVR ob b (ws w) = (s, res)" for L ob b s res k
    using that by (cases res) (auto dest: Update_err elim!: Update_okE dest!: commitUpdate_facts(2))
  then show ?thesis
    by (intro members_cong) (auto simp: writeWarmPoolStatus_def writeStatus_def split: sum.split prod.split)
qed

text \<open>The status of the pool can be written after excess members are gone.\<close>

lemma shrink_returns:
  assumes w: "ready_world w" "permutes (mapOrder r)"
    and u: "Get WarmPoolGVR ns nm (ws w) = Inr u" "decWarmPool (rConv r) (spec u) (status u) = Inr pool"
    and lst: "StoreList (mapOrder r) SandboxGVR ns no_selectors (ws w) = Inr lst"
    and desired: "0 \<le> poolDesired pool" "poolDesired pool \<le> int (length (poolMembers nm (lrItems lst)))"
    and enc: "\<And>st. \<exists>tree. encWarmPoolStatus (rConv r) st = Inr tree"
  shows "\<exists>w' res. reconcileWarmPool r ns nm w = Some (w', Inr res)"
proof -
  let ?mine = "poolMembers nm (lrItems lst)"
  let ?w1 = "deleteExcess r ns (take (nat (int (length ?mine) - poolDesired pool)) (sortSlice r (excessOrder r) ?mine)) w"
  let ?x = "at WarmPoolGVR (namespace u) (name u)"
  have v: "view (ws w) ?x = Some u" and reg: "registered (ws w)"
    using Get_Inr [of "ws w" WarmPoolGVR ns nm u] stored_at [of "ws w" WarmPoolGVR "ns @ ''/'' @ nm" u] u(1) w(1)
    by (simp_all add: ready_world_def at_def)
  obtain w1 where adj: "adjustPool r u (poolTemplate (rConv r) ns (wpTemplateRef pool) (ws w)) (wpTemplateRef pool) ns nm (poolDesired pool) ?mine w = Some (w1, None)"
    and w1: "w1 = w \<or> w1 = ?w1"
  proof (rule that)
    show "adjustPool r u (poolTemplate (rConv r) ns (wpTemplateRef pool) (ws w)) (wpTemplateRef pool) ns nm (poolDesired pool) ?mine w =
      Some (if poolDesired pool < int (length ?mine) then ?w1 else w, None)" using desired by (simp add: adjustPool_def)
  qed simp
  have "view (ws ?w1) ?x = Some u" using deleteExcess_other [OF _ _ w(2,1), of ?x] v by (simp add: at_def)
  moreover have "ready_world ?w1" using wreach_ready_world [OF wreach_deleteExcess w(1)] .
  ultimately have x: "view (ws w1) ?x = Some u" "registered (ws w1)" using w1 v reg by (auto simp: ready_world_def)
  obtain st where rec: "reconcileWarmPool r ns nm w =
    (case writeWarmPoolStatus r u st w1 of (w2, e') \<Rightarrow> Some (w2, result_of no_requeue e'))"
    using reconcileWarmPool_adjusts [OF u lst adj] by auto
  obtain tree where "encWarmPoolStatus (rConv r) st = Inr tree" using enc by blast
  then have "snd (writeWarmPoolStatus r u st w1) = None"
    using writeStatus_stored(1) [OF x(2) _ x(1), of r tree] by (simp add: writeWarmPoolStatus_def) (metis prod.collapse)
  then show ?thesis by (simp add: rec case_prod_beta result_of_def)
qed


lemma pool_grows:
  "case reconcileWarmPool sample_rec ''d'' ''p'' (pool_world 1 0) of None \<Rightarrow> False
   | Some (w', res) \<Rightarrow> (case res of Inl _ \<Rightarrow> False | Inr v \<Rightarrow> True)"
  by code_simp

lemma pool_found:
  "case Get WarmPoolGVR ''d'' ''p'' (ws (pool_world 1 0)) of Inl _ \<Rightarrow> False
   | Inr u \<Rightarrow> name u = ''p'' \<and> (case decWarmPool sample_conv (spec u) (status u) of Inl _ \<Rightarrow> False
   | Inr pool \<Rightarrow> poolDesired pool = 1 \<and> (case poolTemplate sample_conv ''d'' (wpTemplateRef pool) (ws (pool_world 1 0)) of None \<Rightarrow> False
   | Some tmpl \<Rightarrow> (case buildSandbox sample_conv tmpl ''d'' [] (''p'' @ ''-'') (Some u) ''SandboxWarmPool''
        (warmLabels sample_rec ''p'' (wpTemplateRef pool)) [] [] None of Inl _ \<Rightarrow> False | Inr sb \<Rightarrow> True)))"
  by code_simp


text \<open>C37: a warm pool that asks for a negative number of replicas makes its loop panic: it deletes every member of the
  pool and then indexes past the last.\<close>

theorem negative_replicas_panic:
  assumes w: "ready_world w" "permutes (mapOrder r)" "sorts (sortSlice r)" "ns \<noteq> []"
    and u: "Get WarmPoolGVR ns nm (ws w) = Inr u" "decWarmPool (rConv r) (spec u) (status u) = Inr pool" "poolDesired pool < 0"
  shows "\<exists>w'. reconcileWarmPool r ns nm w = Some (w', Inl Panicked) \<and> members (ws w') ns nm = {}"
proof -
  have ok: "keys_ok (ws w)" "registered (ws w)" using w(1) by (simp_all add: ready_world_def)
  obtain lst where lst: "StoreList (mapOrder r) SandboxGVR ns no_selectors (ws w) = Inr lst"
    using StoreList_registered [OF ok(2), of SandboxGVR] by fastforce
  let ?mine = "poolMembers nm (lrItems lst)"
  let ?w1 = "deleteExcess r ns (sortSlice r (excessOrder r) ?mine) w"
  note m = listed_members [OF ok w(2,4) lst, where nm = nm]
  have ms: "mset (sortSlice r (excessOrder r) ?mine) = mset ?mine" using w(3) by (simp add: sorts_def)
  then have len: "length (sortSlice r (excessOrder r) ?mine) = length ?mine" by (metis size_mset)
  then have "adjustPool r u (poolTemplate (rConv r) ns (wpTemplateRef pool) (ws w)) (wpTemplateRef pool) ns nm (poolDesired pool) ?mine w =
      Some (?w1, Some Panicked)"
    using u(3) by (simp add: adjustPool_def)
  from reconcileWarmPool_adjusts [OF u(1,2) lst this] have "reconcileWarmPool r ns nm w = Some (?w1, Inl Panicked)" by simp
  moreover have "distinct (map name (sortSlice r (excessOrder r) ?mine))" using m(2) ms by (metis mset_eq_imp_distinct_iff mset_map)
  then have "card (members (ws ?w1) ns nm) = 0"
    using deleteExcess_members [of "sortSlice r (excessOrder r) ?mine" ns nm w r] m(1,3) ms w(1,2) len by (metis add_right_imp_eq add_0 set_mset_mset)
  then have "members (ws ?w1) ns nm = {}" by simp
  ultimately show ?thesis by blast
qed

lemma negative_found:
  "case Get WarmPoolGVR ''d'' ''p'' (ws (pool_world (-1) 0)) of Inl _ \<Rightarrow> False
   | Inr u \<Rightarrow> (case decWarmPool sample_conv (spec u) (status u) of Inl _ \<Rightarrow> False | Inr pool \<Rightarrow> poolDesired pool < 0)"
  by code_simp

theorem negative_replicas_panic_witness:
  "\<exists>w'. reconcileWarmPool sample_rec ''d'' ''p'' (pool_world (-1) 0) = Some (w', Inl Panicked)"
proof -
  obtain u pool where "Get WarmPoolGVR ''d'' ''p'' (ws (pool_world (-1) 0)) = Inr u"
    "decWarmPool (rConv sample_rec) (spec u) (status u) = Inr pool" "poolDesired pool < 0"
    using negative_found unfolding evaluates_Inr by auto
  from negative_replicas_panic [OF sample_ready(2) sample_permutes _ _ this] show ?thesis by (auto simp: isort_sorts)
qed

end
