(* ===== verification/Manager.thy ===== *)
theory Manager
  imports ClaimLoop
begin

text \<open>
  \<^verbatim>\<open>internal/reconciler/manager.go\<close> and the wiring in \<^verbatim>\<open>reconcile.go\<close>: controllers with their work
  queues, the watches that feed the queues and the workers that drain them. The rate-limited
  work queue of client-go is a parameter, a record of its operations on a state \<open>'q\<close>. A reconcile that panics takes the
  process down. Waiting (the queue's blocking \<^verbatim>\<open>Get\<close>, the pauses of \<^verbatim>\<open>sleepCtx\<close>) is not modelled: a
  step that would wait is not taken.
\<close>

section \<open>Keys\<close>

definition keyOf :: "'j obj \<Rightarrow> string" where
  "keyOf ob = namespace ob @ ''/'' @ name ob"

definition splitKey :: "string \<Rightarrow> string \<times> string" where
  "splitKey k = (case SplitN2 k (CHR ''/'') of [ns, nm] \<Rightarrow> (ns, nm) | _ \<Rightarrow> ('''', k))"

lemma splitKey_join: "CHR ''/'' \<notin> set ns \<Longrightarrow> splitKey (ns @ ''/'' @ nm) = (ns, nm)"
  by (simp add: splitKey_def SplitN2_key)

section \<open>Work queues\<close>

text \<open>\<^verbatim>\<open>k8s.io/client-go/util/workqueue\<close>. \<open>qGet\<close> has no value where the call would block.\<close>

record 'q workqueue =
  qNew :: 'q
  qAdd :: "string \<Rightarrow> 'q \<Rightarrow> 'q"
  qGet :: "'q \<Rightarrow> ('q \<times> string) option"
  qDone :: "string \<Rightarrow> 'q \<Rightarrow> 'q"
  qAddRateLimited :: "string \<Rightarrow> 'q \<Rightarrow> 'q"
  qForget :: "string \<Rightarrow> 'q \<Rightarrow> 'q"
  qAddAfter :: "string \<Rightarrow> int \<Rightarrow> 'q \<Rightarrow> 'q"
  qShutDown :: "'q \<Rightarrow> 'q"

text \<open>Its documented behaviour, in terms of which keys are waiting, be it in the queue, as dirty while they are being
  processed, or behind a delay: an added key waits, at once or after its delay; handing out a key takes only this key
  from the waiting ones; nothing else makes a key stop waiting.\<close>

definition queue_laws :: "'q workqueue \<Rightarrow> (string \<Rightarrow> 'q \<Rightarrow> bool) \<Rightarrow> bool" where
  "queue_laws Q waits \<longleftrightarrow>
     (\<forall>k q. waits k (qAdd Q k q) \<and> waits k (qAddRateLimited Q k q) \<and> (\<forall>d. waits k (qAddAfter Q k d q))) \<and>
     (\<forall>k j q. waits k q \<longrightarrow> waits k (qAdd Q j q) \<and> waits k (qAddRateLimited Q j q) \<and> (\<forall>d. waits k (qAddAfter Q j d q)) \<and>
        waits k (qDone Q j q) \<and> waits k (qForget Q j q)) \<and>
     (\<forall>k j q q'. qGet Q q = Some (q', j) \<and> waits k q \<and> k \<noteq> j \<longrightarrow> waits k q')"

section \<open>Controllers\<close>

type_synonym 'w reconcileFunc = "string \<Rightarrow> string \<Rightarrow> 'w \<Rightarrow> ('w \<times> (rerr + Result)) option"
type_synonym 'j mapFunc = "'j obj \<Rightarrow> string list"

record ('w, 'j, 'q) controller =
  ctlName :: string
  ctlPrimary :: GVR
  ctlReconcile :: "'w reconcileFunc"
  ctlSources :: "(GVR \<times> 'j mapFunc) list"
  ctlQueue :: 'q
  ctlWorkers :: int

record ('w, 'j, 'q) Manager =
  mCtrls :: "('w, 'j, 'q) controller list"

definition NewManager :: "('w, 'j, 'q) Manager" where
  "NewManager = \<lparr>mCtrls = []\<rparr>"

definition mgr_Register :: "'q workqueue \<Rightarrow> string \<Rightarrow> GVR \<Rightarrow> 'w reconcileFunc \<Rightarrow> int \<Rightarrow> (GVR \<times> 'j mapFunc) list \<Rightarrow>
    ('w, 'j, 'q) Manager \<Rightarrow> ('w, 'j, 'q) Manager" where
  "mgr_Register Q nm primary fn workers sources m = m\<lparr>mCtrls := mCtrls m @
     [\<lparr>ctlName = nm, ctlPrimary = primary, ctlReconcile = fn, ctlSources = sources, ctlQueue = qNew Q,
       ctlWorkers = (if workers \<le> 0 then 2 else workers)\<rparr>]\<rparr>"

definition Source :: "GVR \<Rightarrow> 'j mapFunc \<Rightarrow> GVR \<times> 'j mapFunc" where
  "Source gvr mapFn = (gvr, mapFn)"

fun enqueueFirst :: "'q workqueue \<Rightarrow> string \<Rightarrow> string \<Rightarrow> ('w, 'j, 'q) controller list \<Rightarrow> ('w, 'j, 'q) controller list" where
  "enqueueFirst Q nm k [] = []"
| "enqueueFirst Q nm k (c # cs) =
     (if ctlName c = nm then c\<lparr>ctlQueue := qAdd Q k (ctlQueue c)\<rparr> # cs else c # enqueueFirst Q nm k cs)"

definition Enqueue :: "'q workqueue \<Rightarrow> string \<Rightarrow> string \<Rightarrow> string \<Rightarrow> ('w, 'j, 'q) Manager \<Rightarrow> ('w, 'j, 'q) Manager" where
  "Enqueue Q ctl ns nm m = m\<lparr>mCtrls := enqueueFirst Q ctl (ns @ ''/'' @ nm) (mCtrls m)\<rparr>"

text \<open>The watches \<^verbatim>\<open>Start\<close> launches for a controller: on its primary resource, and on its sources.\<close>

definition watchesOf :: "('w, 'j, 'q) controller \<Rightarrow> (GVR \<times> 'j mapFunc) list" where
  "watchesOf c = (ctlPrimary c, \<lambda>ob. [keyOf ob]) # ctlSources c"

text \<open>One event of a watch.\<close>

fun enqueueKeys :: "'q workqueue \<Rightarrow> string list \<Rightarrow> 'q \<Rightarrow> 'q" where
  "enqueueKeys Q [] q = q"
| "enqueueKeys Q (k # ks) q = enqueueKeys Q ks (if k \<noteq> '''' then qAdd Q k q else q)"

definition watchEvent :: "'q workqueue \<Rightarrow> 'j mapFunc \<Rightarrow> 'j Event \<Rightarrow> 'q \<Rightarrow> 'q" where
  "watchEvent Q mapFn ev q = enqueueKeys Q (mapFn (evObject ev)) q"

text \<open>What a worker does with a key: the reconcile, and the end of \<^verbatim>\<open>process\<close> on the queue as it is by then.\<close>

datatype 'w outcome = Reconciled 'w "rerr + Result" | Crashed 'w | Diverged

definition reconcileKey :: "('w, 'j, 'q) controller \<Rightarrow> string \<Rightarrow> 'w \<Rightarrow> 'w outcome" where
  "reconcileKey c k w = (case splitKey k of (ns, nm) \<Rightarrow>
     (case ctlReconcile c ns nm w of
        None \<Rightarrow> Diverged
      | Some (w1, res) \<Rightarrow> (if res = Inl Panicked then Crashed w1 else Reconciled w1 res)))"

definition finishProcess :: "'q workqueue \<Rightarrow> string \<Rightarrow> rerr + Result \<Rightarrow> 'q \<Rightarrow> 'q" where
  "finishProcess Q k res q = (case res of
      Inl err \<Rightarrow> qDone Q k (qAddRateLimited Q k q)
    | Inr rs \<Rightarrow>
       (let q1 = qForget Q k q
        in qDone Q k (if RequeueAfter rs > 0 then qAddAfter Q k (RequeueAfter rs) q1 else q1)))"

section \<open>Wiring\<close>

definition Wire :: "('j, 'db, 'd, 'v) Reconcilers \<Rightarrow> 'q workqueue \<Rightarrow> (('j, 'db, 'd) world, 'j, 'q) Manager \<Rightarrow>
    (('j, 'db, 'd) world, 'j, 'q) Manager" where
  "Wire r Q m =
     mgr_Register Q ''persistentvolumeclaim'' PVCGVR (\<lambda>ns nm w. Some (reconcilePVC r ns nm w)) 2 []
    (mgr_Register Q ''sandboxtemplate'' TemplateGVR (\<lambda>ns nm w. Some (w, fst (reconcileTemplate r ns nm w))) 1 []
    (mgr_Register Q ''sandboxwarmpool'' WarmPoolGVR (reconcileWarmPool r) 2 [Source SandboxGVR (ownerMap ''SandboxWarmPool'')]
    (mgr_Register Q ''sandboxclaim'' SandboxClaimGVR (reconcileClaim r) 4 [Source SandboxGVR (ownerMap ''SandboxClaim'')]
    (mgr_Register Q ''sandbox'' SandboxGVR (reconcileSandbox r) 4 [] m))))"

text \<open>One event of the container runtime.\<close>

definition driverEvent :: "'q workqueue \<Rightarrow> DriverEvent \<Rightarrow> ('w, 'j, 'q) Manager \<Rightarrow> ('w, 'j, 'q) Manager" where
  "driverEvent Q ev m = (if deSandbox ev \<noteq> '''' then Enqueue Q ''sandbox'' (deNamespace ev) (deSandbox ev) m else m)"

section \<open>A controller at work\<close>

text \<open>One controller with any number of workers: events arrive, keys are handed out, reconciles end, and the rest of
  the program acts on the world in between.\<close>

datatype mlabel = Woken "string list" | Started string | Ended string "rerr + Result"

inductive controller_step :: "'q workqueue \<Rightarrow> ('w, 'j, 'q) controller \<Rightarrow> ('w \<times> 'q \<times> string list) \<Rightarrow> mlabel list \<Rightarrow>
    ('w \<times> 'q \<times> string list) \<Rightarrow> bool" for Q c where
  watch: "(g, mapFn) \<in> set (watchesOf c) \<Longrightarrow> evGVR ev = g \<Longrightarrow>
     controller_step Q c (w, q, fl) [Woken (mapFn (evObject ev))] (w, watchEvent Q mapFn ev q, fl)"
| external: "controller_step Q c (w, q, fl) [Woken [k]] (w, enqueueKeys Q [k] q, fl)"
| start: "qGet Q q = Some (q', k) \<Longrightarrow> controller_step Q c (w, q, fl) [Started k] (w, q', k # fl)"
| finish: "k \<in> set fl \<Longrightarrow> reconcileKey c k w = Reconciled w' res \<Longrightarrow>
     controller_step Q c (w, q, fl) [Ended k res] (w', finishProcess Q k res q, remove1 k fl)"
| others: "controller_step Q c (w, q, fl) [] (w', q, fl)"

inductive_cases controller_stepE: "controller_step Q c s ls s'"

text \<open>The labels after which a key has to wait.\<close>

fun wakes :: "string \<Rightarrow> mlabel \<Rightarrow> bool" where
  "wakes k (Woken ks) \<longleftrightarrow> k \<in> set ks \<and> k \<noteq> ''''"
| "wakes k (Ended j res) \<longleftrightarrow> k = j \<and> (case res of Inl _ \<Rightarrow> True | Inr rs \<Rightarrow> RequeueAfter rs > 0)"
| "wakes k (Started j) \<longleftrightarrow> False"

lemma enqueueKeys_waits:
  assumes "queue_laws Q waits" "(k \<in> set ks \<and> k \<noteq> []) \<or> waits k q"
  shows "waits k (enqueueKeys Q ks q)"
  using assms(2)
proof (induction ks arbitrary: q)
  case (Cons j ks)
  have "(k \<in> set ks \<and> k \<noteq> []) \<or> waits k (if j \<noteq> [] then qAdd Q j q else q)"
    using Cons.prems assms(1) by (auto simp: queue_laws_def)
  from Cons.IH [OF this] show ?case by simp
qed simp

lemma finishProcess_waits:
  assumes "queue_laws Q waits" "wakes k (Ended j res) \<or> waits k q"
  shows "waits k (finishProcess Q j res q)"
proof -
  have fin: "waits k (qDone Q j q')" if "waits k q'" for q' using assms(1) that by (simp add: queue_laws_def)
  show ?thesis
  proof (cases res)
    case (Inl e)
    then show ?thesis using assms by (auto simp: finishProcess_def queue_laws_def intro: fin)
  next
    case (Inr rs)
    then show ?thesis using assms by (auto simp: finishProcess_def queue_laws_def Let_def intro!: fin)
  qed
qed

lemma controller_step_waits:
  assumes "controller_step Q c (w, q, fl) ls (w', q', fl')" "queue_laws Q waits"
    and "waits k q \<or> (\<exists>l \<in> set ls. wakes k l)" "Started k \<notin> set ls"
  shows "waits k q'"
  using assms(1)
proof (cases rule: controller_step.cases)
  case (watch g mapFn ev)
  then show ?thesis using assms(3) enqueueKeys_waits [OF assms(2), of k "mapFn (evObject ev)" q] by (auto simp: watchEvent_def)
next
  case (external j)
  then show ?thesis using assms(3) enqueueKeys_waits [OF assms(2), of k "[j]" q] by auto
next
  case (start j)
  then show ?thesis using assms(2-4) unfolding queue_laws_def by auto
next
  case (finish j res)
  then show ?thesis using assms(3) finishProcess_waits [OF assms(2), of k j res q] by auto
qed (use assms(3) in auto)

end
