(* ===== verification/ManagerProps.thy ===== *)
theory ManagerProps
  imports Manager ControlProps
begin

text \<open>
  What the controllers guarantee: no wakeup is lost between the store and a reconcile, and which loops an
  event wakes.
\<close>

section \<open>No lost wakeups\<close>

lemma controller_step_single: "controller_step Q c s es t \<Longrightarrow> es = [] \<or> (\<exists>l. es = [l])"
  by (cases rule: controller_step.cases) auto

text \<open>C11: once a key is woken, by an event of the store, by the container runtime, by an error of its own reconcile or by a
  requeue it asked for, it keeps waiting in the queue until it is handed to a worker: whatever the workers,
  the watches and the rest of the program do in between, no wakeup is lost, not even one that arrives while the
  same key is being reconciled.\<close>

theorem no_lost_wakeup:
  assumes Q: "queue_laws Q waits"
    and run: "run (controller_step Q c) s (before @ l # after) (w', q', fl')"
    and l: "wakes k l" "Started k \<notin> set after"
  shows "waits k q'"
proof -
  have "waits k (fst (snd t))" if "run (controller_step Q c) s ls t" "ls = bef @ l # aft" "Started k \<notin> set aft" for ls t bef aft
    using that
  proof (induction arbitrary: bef aft rule: run.induct)
    case (run_step s log t es u)
    obtain w1 q1 fl1 w2 q2 fl2 where t: "t = (w1, q1, fl1)" and u: "u = (w2, q2, fl2)" by (metis prod_cases3)
    note st = controller_step_waits [OF run_step.hyps(2) [unfolded t u] Q, of k]
    consider "es = []" | "aft = []" "es = [l]" | aft' l' where "aft = aft' @ [l']" "log = bef @ l # aft'" "es = [l']"
      using controller_step_single [OF run_step.hyps(2)] run_step.prems(1)
      by (cases aft rule: rev_cases) (auto simp flip: append_assoc append_Cons)
    then show ?case
    proof cases
      case 1
      then have "waits k q1" using run_step.IH [of bef aft] run_step.prems by (simp add: t)
      with st 1 show ?thesis by (simp add: u)
    next
      case 2
      then show ?thesis using st l(1) by (cases l) (auto simp: u)
    next
      case (3 aft' l')
      then have "waits k q1" using run_step.IH [of bef aft'] run_step.prems(2) by (simp add: t)
      then show ?thesis using st 3 run_step.prems(2) by (auto simp: u)
    qed
  qed simp
  from this [OF run refl l(2)] show ?thesis by simp
qed

section \<open>A status write is an event\<close>

text \<open>A status write carries no version, so it never conflicts: when it reports no error, the store announced it.\<close>

lemma status_write_event:
  assumes wr: "writeStatus r g u m w = (w', None)" and w: "ready_world w" "g \<in> loop_gvrs"
  shows "\<exists>s ev. commits s ev (ws w') \<and> evGVR ev = g \<and> evType ev = Modified \<and> keyOf (evObject ev) = namespace u @ ''/'' @ name u"
proof -
  obtain n where n: "setStatus u m = Inr n" using wr by (cases "setStatus u m") (auto simp: writeStatus_def)
  have nn: "namespace n = namespace u" "name n = name u" using n by (auto simp: setStatus_def split: sum.splits)
  let ?n = "n\<lparr>resourceVersion := ''''\<rparr>"
  obtain s x where up: "Update (rLib r) g ?n True (ws w) = (s, x)" by fastforce
  have noconf: "\<not> IsConflict e" if "x = Inl e" for e
    using up that by (auto simp: Update_def Let_def stale_def meta_def split: option.splits if_splits prod.splits)
  obtain m' where x: "x = Inr m'" using wr n up noconf by (cases x) (auto simp: writeStatus_def)
  then have w': "w' = w\<lparr>ws := s\<rparr>" using wr n up by (simp add: writeStatus_def)
  obtain rm old where o: "resources (ws w) g = Some rm"
    "commitUpdate (rLib r) g (key (rmNamespaced rm) (eff_ns rm (namespace u)) (name u)) old ?n True (ws w) = (s, m')"
    using up [unfolded x] nn by (auto elim!: Update_okE)
  have "wreach r w w'" using wreach_writeStatus [of r w g u m] wr by simp
  from wreach_ready_world [OF this w(1)] have ok: "keys_ok s" by (simp add: w' ready_world_def)
  have "rmNamespaced rm" using o(1) w by (auto simp: ready_world_def registered_def)
  moreover have "view s (g, key (rmNamespaced rm) (eff_ns rm (namespace u)) (name u)) = Some m'" using commitUpdate_facts(2) [OF o(2)] by simp
  moreover have "resources s g = Some rm" using commitUpdate_facts(1) [OF o(2)] o(1) by (simp add: commits_def)
  ultimately have "key True (eff_ns rm (namespace u)) (name u) = key True (namespace m') (name m')" "eff_ns rm (namespace u) = namespace u"
    using ok unfolding keys_ok_def by (fastforce, simp add: eff_ns_def)
  then have "keyOf m' = namespace u @ ''/'' @ name u" by (simp add: key_def keyOf_def)
  then show ?thesis using commitUpdate_facts(1) [OF o(2)] by (fastforce simp: w')
qed

text \<open>An event the store just announced is the last one of every open channel on its resource.\<close>

lemma commits_last:
  assumes "commits s ev s'" "subs s' i = Some (evGVR ev)"
  shows "buf (chans s' i) \<noteq> [] \<and> last (buf (chans s' i)) = ev"
  using assms by (auto simp: commits_def emitLocked_def Let_def split: if_splits)

lemma reconcileWarmPool_written:
  assumes rec: "reconcileWarmPool r ns nm w = Some (w', Inr res)" and u: "Get WarmPoolGVR ns nm (ws w) = Inr u" and w: "ready_world w"
  shows "\<exists>w1 m. ready_world w1 \<and> writeStatus r WarmPoolGVR u m w1 = (w', None)"
proof -
  obtain pool where p: "decWarmPool (rConv r) (spec u) (status u) = Inr pool"
    using rec u by (cases "decWarmPool (rConv r) (spec u) (status u)") (auto simp: reconcileWarmPool_def)
  obtain lst where l: "StoreList (mapOrder r) SandboxGVR ns no_selectors (ws w) = Inr lst"
    using rec u p by (cases "StoreList (mapOrder r) SandboxGVR ns no_selectors (ws w)") (auto simp: reconcileWarmPool_def Let_def)
  note go = rec [unfolded reconcileWarmPool_def Let_def u sum.case p l]
  obtain w1 where a: "adjustPool r u (poolTemplate (rConv r) ns (wpTemplateRef pool) (ws w)) (wpTemplateRef pool) ns nm (poolDesired pool)
      (poolMembers nm (lrItems lst)) w = Some (w1, None)"
    using go by (auto split: option.splits)
  have "\<exists>m. writeStatus r WarmPoolGVR u m w1 = (w', None)"
    using go unfolding a by (auto simp: writeWarmPoolStatus_def result_of_def split: prod.splits option.splits)
  then show ?thesis using wreach_ready_world [OF wreach_adjustPool [OF a] w] by blast
qed

text \<open>C39: a reconcile of a warm pool that succeeds writes the status of the pool whether or not it changed, and the store announces
  every write: the last event on each watch of pools is about this pool, and puts the key of
  the pool back into its queue. So the loop of a pool never comes to rest while the pool exists.\<close>

theorem pool_reconcile_wakes_itself:
  assumes rec: "reconcileWarmPool r ns nm w = Some (w', Inr res)" and u: "Get WarmPoolGVR ns nm (ws w) = Inr u" and w: "ready_world w"
    and sub: "subs (ws w') i = Some WarmPoolGVR" and Q: "queue_laws Q waits"
    and c: "ctlPrimary c = WarmPoolGVR"
  shows "\<exists>ev. buf (chans (ws w') i) \<noteq> [] \<and> last (buf (chans (ws w') i)) = ev \<and> evType ev = Modified \<and>
    (evGVR ev, \<lambda>ob. [keyOf ob]) \<in> set (watchesOf c) \<and> waits (namespace u @ ''/'' @ name u) (watchEvent Q (\<lambda>ob. [keyOf ob]) ev q)"
proof -
  obtain w1 m where w1: "ready_world w1" "writeStatus r WarmPoolGVR u m w1 = (w', None)"
    using reconcileWarmPool_written [OF rec u w] by blast
  obtain s ev where ev: "commits s ev (ws w')" "evGVR ev = WarmPoolGVR" "evType ev = Modified" "keyOf (evObject ev) = namespace u @ ''/'' @ name u"
    using status_write_event [OF w1(2,1)] by (auto simp: loop_gvrs_def)
  have "waits (keyOf (evObject ev)) (watchEvent Q (\<lambda>ob. [keyOf ob]) ev q)"
    unfolding watchEvent_def by (rule enqueueKeys_waits [OF Q]) (simp add: keyOf_def)
  then show ?thesis using commits_last [OF ev(1)] sub ev c by (auto simp: watchesOf_def)
qed

section \<open>Which loops an event wakes\<close>

text \<open>The objects an event about an object makes a controller reconcile.\<close>

definition woken :: "('w, 'j, 'q) controller \<Rightarrow> GVR \<Rightarrow> 'j obj \<Rightarrow> (string \<times> string) list" where
  "woken c g ob = concat (map (\<lambda>(g', mapFn). if g' = g then map splitKey (mapFn ob) else []) (watchesOf c))"

definition owner_named :: "string \<Rightarrow> 'j obj \<Rightarrow> (string \<times> string) list" where
  "owner_named knd ob = (case find (\<lambda>ref. refKind ref = knd) (ownerReferences ob) of
     None \<Rightarrow> [] | Some ref \<Rightarrow> [(namespace ob, refName ref)])"

lemma splitKey_ownerMap: "CHR ''/'' \<notin> set (namespace ob) \<Longrightarrow> map splitKey (ownerMap knd ob) = owner_named knd ob"
  using splitKey_join [of "namespace ob"] by (auto simp: ownerMap_def owner_named_def split: option.split)

text \<open>An event about a sandbox makes the sandbox loop reconcile this sandbox, the claim loop the claim named by its owner
  references and the pool loop the pool named there, and nothing else; keys are split back into the namespace and the
  name they were made of.\<close>

theorem sandbox_event_wakes_loops:
  assumes "CHR ''/'' \<notin> set (namespace ob)"
  shows "map (\<lambda>c. (ctlPrimary c, woken c SandboxGVR ob)) (mCtrls (Wire r Q NewManager)) =
    [(SandboxGVR, [(namespace ob, name ob)]), (SandboxClaimGVR, owner_named ''SandboxClaim'' ob),
     (WarmPoolGVR, owner_named ''SandboxWarmPool'' ob), (TemplateGVR, []), (PVCGVR, [])]"
  using splitKey_join [OF assms, of "name ob"] splitKey_ownerMap [OF assms]
  by (simp add: Wire_def mgr_Register_def NewManager_def woken_def watchesOf_def Source_def keyOf_def gvr_defs)

section \<open>Witnesses\<close>

text \<open>A queue without delays: the waiting keys in order.\<close>

definition sample_queue :: "string list workqueue" where
  "sample_queue = (let add = (\<lambda>k q. if k \<in> set q then q else q @ [k]) in
     \<lparr>qNew = [], qAdd = add, qGet = (\<lambda>q. case q of [] \<Rightarrow> None | k # ks \<Rightarrow> Some (ks, k)), qDone = (\<lambda>_ q. q),
      qAddRateLimited = add, qForget = (\<lambda>_ q. q), qAddAfter = (\<lambda>k _. add k), qShutDown = (\<lambda>q. q)\<rparr>)"

lemma sample_queue_laws: "queue_laws sample_queue (\<lambda>k q. k \<in> set q)"
  by (auto simp: queue_laws_def sample_queue_def Let_def split: list.splits)

definition pool_ctl :: "((tree, unit, FakeDriver) world, tree, string list) controller" where
  "pool_ctl = \<lparr>ctlName = ''sandboxwarmpool'', ctlPrimary = WarmPoolGVR, ctlReconcile = reconcileWarmPool sample_rec,
     ctlSources = [Source SandboxGVR (ownerMap ''SandboxWarmPool'')], ctlQueue = [], ctlWorkers = 2\<rparr>"

theorem no_lost_wakeup_witness:
  "\<exists>q. run (controller_step sample_queue pool_ctl) (pool_world 0 0, [], []) ([Woken [''d/p'']] @ Started ''d/p'' # [Woken [''d/p'']]) (pool_world 0 0, q, [''d/p'']) \<and>
     ''d/p'' \<in> set q"
proof -
  let ?s = "\<lambda>q fl. (pool_world 0 0, q, fl)" and ?step = "controller_step sample_queue pool_ctl"
  have e: "enqueueKeys sample_queue [''d/p''] [] = [''d/p'']" by (simp add: sample_queue_def Let_def)
  have 1: "?step (?s [] []) [Woken [''d/p'']] (?s [''d/p''] [])"
    using controller_step.external [of sample_queue pool_ctl "pool_world 0 0" "[]" "[]" "''d/p''"] by (simp only: e)
  have 2: "?step (?s [''d/p''] []) [Started ''d/p''] (?s [] [''d/p''])"
    by (rule controller_step.start) (simp add: sample_queue_def Let_def)
  have 3: "?step (?s [] [''d/p'']) [Woken [''d/p'']] (?s [''d/p''] [''d/p''])"
    using controller_step.external [of sample_queue pool_ctl "pool_world 0 0" "[]" "[''d/p'']" "''d/p''"] by (simp only: e)
  have "run ?step (?s [] []) [Woken [''d/p'']] (?s [''d/p''] [])" using 1 by (rule run_one [where step = ?step])
  then have "run ?step (?s [] []) ([Woken [''d/p'']] @ [Started ''d/p'']) (?s [] [''d/p''])" using 2 by (rule run.run_step [where step = ?step])
  then have r: "run ?step (?s [] []) (([Woken [''d/p'']] @ [Started ''d/p'']) @ [Woken [''d/p'']]) (?s [''d/p''] [''d/p''])"
    using 3 by (rule run.run_step [where step = ?step])
  have "run ?step (?s [] []) ([Woken [''d/p''], Started ''d/p''] @ Woken [''d/p''] # []) (?s [''d/p''] [''d/p''])"
    using r by (simp only: append.simps)
  then have "''d/p'' \<in> set [''d/p'']"
    by (rule no_lost_wakeup [OF sample_queue_laws]) simp_all
  moreover have "run ?step (?s [] []) ([Woken [''d/p'']] @ Started ''d/p'' # [Woken [''d/p'']]) (?s [''d/p''] [''d/p''])"
    using r by (simp only: append.simps)
  ultimately show ?thesis by blast
qed

theorem sandbox_event_wakes_loops_witness:
  "map (\<lambda>c. (ctlPrimary c, woken c SandboxGVR ((named ''c'' (TSandbox 1))\<lparr>ownerReferences := [claim_owner]\<rparr>))) (mCtrls (Wire sample_rec sample_queue NewManager)) =
    [(SandboxGVR, [(''d'', ''c'')]), (SandboxClaimGVR, [(''d'', ''c'')]), (WarmPoolGVR, []), (TemplateGVR, []), (PVCGVR, [])]"
  by (subst sandbox_event_wakes_loops) (simp_all add: named_def owner_named_def claim_owner_def empty_obj_def)

text \<open>A world with one open watch on pools.\<close>

definition watched_world :: "(tree, unit, FakeDriver) world" where
  "watched_world = (pool_world 0 0)\<lparr>ws := (ws (pool_world 0 0))\<lparr>nextSub := 1, subs := (\<lambda>i. if i = 0 then Some WarmPoolGVR else None),
     chans := (\<lambda>i. \<lparr>buf = [], closed = False\<rparr>)\<rparr>\<rparr>"

lemma watched_ready: "ready_world watched_world"
  using sample_ready(2) [of 0 0]
  by (simp add: ready_world_def watched_world_def keys_ok_def registered_def view_def lookup_def)

theorem pool_reconcile_wakes_itself_witness:
  "\<exists>w' res ev. reconcileWarmPool sample_rec ''d'' ''p'' watched_world = Some (w', Inr res) \<and> last (buf (chans (ws w') 0)) = ev \<and>
     ''d/p'' \<in> set (watchEvent sample_queue (\<lambda>ob. [keyOf ob]) ev [])"
proof -
  have "case Get WarmPoolGVR ''d'' ''p'' (ws watched_world) of Inl _ \<Rightarrow> False | Inr u \<Rightarrow> namespace u = ''d'' \<and> name u = ''p''"
    by code_simp
  then obtain u where u: "Get WarmPoolGVR ''d'' ''p'' (ws watched_world) = Inr u" "namespace u = ''d''" "name u = ''p''"
    unfolding evaluates_Inr by blast
  have "case reconcileWarmPool sample_rec ''d'' ''p'' watched_world of None \<Rightarrow> False
      | Some (w', r) \<Rightarrow> (case r of Inl _ \<Rightarrow> False | Inr res \<Rightarrow> subs (ws w') 0 = Some WarmPoolGVR)"
    by code_simp
  then obtain w' res where w': "reconcileWarmPool sample_rec ''d'' ''p'' watched_world = Some (w', Inr res)" "subs (ws w') 0 = Some WarmPoolGVR"
    unfolding evaluates_Some evaluates_Inr by blast
  have "ctlPrimary pool_ctl = WarmPoolGVR" by (simp add: pool_ctl_def)
  from pool_reconcile_wakes_itself [OF w'(1) u(1) watched_ready w'(2) sample_queue_laws this, of "[]"] u(2,3) w'(1)
  show ?thesis by auto
qed

end
