(* ===== verification/Docker.thy ===== *)
theory Docker
  imports Router
begin

text \<open>
  \<^verbatim>\<open>internal/driver/docker.go\<close> and \<^verbatim>\<open>image.go\<close>: the driver that runs sandboxes on a Docker engine. The engine's client is a
  parameter, a record of the calls the driver makes on the engine's state \<open>'d\<close>. Constructing and closing the
  client, timeouts, and packing the build context are not modelled.
\<close>

section \<open>What the engine's client is given and returns\<close>

datatype cerr = CNotFound string | CError string

fun cerr_Error :: "cerr \<Rightarrow> string" where
  "cerr_Error (CNotFound msg) = msg"
| "cerr_Error (CError msg) = msg"

fun IsErrNotFound :: "cerr \<Rightarrow> bool" where
  "IsErrNotFound (CNotFound _) = True"
| "IsErrNotFound (CError _) = False"

datatype mountType = TypeTmpfs | TypeVolume

record DockerMount =
  dmType :: mountType
  dmSource :: string
  dmTarget :: string
  dmReadOnly :: bool
  dmTmpfsOptions :: "int64 option"

record DockerConfig =
  dcImage :: string
  dcEnv :: "string list"
  dcWorkingDir :: string
  dcLabels :: "string \<rightharpoonup> string"
  dcExposedPorts :: "string \<rightharpoonup> unit"
  dcUser :: string
  dcEntrypoint :: "string list"
  dcCmd :: "string list"

record HostConfig =
  hcPortBindings :: "string \<rightharpoonup> (string \<times> string) list"
  hcMounts :: "DockerMount list"
  hcRestartPolicy :: string
  hcReadonlyRootfs :: bool
  hcDNS :: "string list"
  hcNanoCPUs :: int64
  hcMemory :: int64

record ContainerState =
  stStatus :: string
  stExitCode :: int
  stStartedAt :: string

text \<open>The addresses of the networks and the bindings of the ports (host address, host port) are listed in the order the loops of the
  driver range over them.\<close>

record ContainerJSON =
  cjID :: string
  cjName :: string
  cjLabels :: "string \<rightharpoonup> string"
  cjState :: "ContainerState option"
  cjNetworkSettings :: "(string list \<times> (string \<times> (string \<times> string) list) list) option"

record DockerVolume =
  dvName :: string
  dvLabels :: "string \<rightharpoonup> string"

record DockerMessage =
  msgAction :: string
  msgID :: string
  msgAttributes :: "string \<rightharpoonup> string"

text \<open>The calls. Filters are pairs of a key and a value, as in \<^verbatim>\<open>filters.Args\<close>. \<open>clKeys\<close> is the order in which Go ranges over a map,
  \<open>clNewPort\<close> and \<open>clPortInt\<close> are the port syntax of the package \<^verbatim>\<open>nat\<close>, \<open>clParseTime\<close> is
  \<^verbatim>\<open>time.Parse\<close> with the zero time for an error, \<open>clTarDir\<close> packs a directory, and \<open>clHTTPGet\<close> is the status of a GET.\<close>

record 'd DockerClient =
  clPing :: "'d \<Rightarrow> cerr option"
  clImagePull :: "string \<Rightarrow> 'd \<Rightarrow> 'd \<times> cerr option"
  clImageInspect :: "string \<Rightarrow> 'd \<Rightarrow> cerr + string option"
  clImageBuild :: "string \<Rightarrow> bytes \<Rightarrow> 'd \<Rightarrow> 'd \<times> (cerr + string)"
  clContainerCreate :: "DockerConfig \<Rightarrow> HostConfig \<Rightarrow> string \<Rightarrow> 'd \<Rightarrow> 'd \<times> (cerr + string)"
  clContainerStart :: "string \<Rightarrow> 'd \<Rightarrow> 'd \<times> cerr option"
  clContainerWait :: "string \<Rightarrow> 'd \<Rightarrow> 'd"
  clContainerInspect :: "string \<Rightarrow> 'd \<Rightarrow> cerr + ContainerJSON"
  clContainerList :: "(string \<times> string) list \<Rightarrow> 'd \<Rightarrow> cerr + string list"
  clContainerStop :: "string \<Rightarrow> 'd \<Rightarrow> 'd \<times> cerr option"
  clContainerRemove :: "string \<Rightarrow> 'd \<Rightarrow> 'd \<times> cerr option"
  clVolumeCreate :: "string \<Rightarrow> (string \<rightharpoonup> string) \<Rightarrow> 'd \<Rightarrow> 'd \<times> (cerr + string)"
  clVolumeList :: "(string \<times> string) list \<Rightarrow> 'd \<Rightarrow> cerr + DockerVolume list"
  clVolumeRemove :: "string \<Rightarrow> 'd \<Rightarrow> 'd \<times> cerr option"
  clHTTPGet :: "string \<Rightarrow> 'd \<Rightarrow> string + int"
  clKeys :: "(string \<rightharpoonup> string) \<Rightarrow> string list"
  clNewPort :: "string \<Rightarrow> string \<Rightarrow> string + string"
  clPortInt :: "string \<Rightarrow> int"
  clParseTime :: "string \<Rightarrow> time"
  clTarDir :: "string \<Rightarrow> string + bytes"

text \<open>\<^verbatim>\<open>strconv.Atoi\<close> with its error ignored: zero for a bad number, the nearest 64-bit integer for one out of range.\<close>

definition AtoiValue :: "string \<Rightarrow> int" where
  "AtoiValue s = (
     let (neg, ds) = (case s of c # r \<Rightarrow> if c = CHR ''-'' then (True, r) else if c = CHR ''+'' then (False, r) else (False, s)
                      | [] \<Rightarrow> (False, []))
     in if ds = [] then 0
        else case dec_val 0 ds of
            None \<Rightarrow> 0
          | Some m \<Rightarrow> max (- (2 ^ 63)) (min (2 ^ 63 - 1) (if neg then - int m else int m)))"

fun Contains :: "string \<Rightarrow> string \<Rightarrow> bool" where
  "Contains [] p \<longleftrightarrow> p = []"
| "Contains (c # s) p \<longleftrightarrow> HasPrefix (c # s) p \<or> Contains s p"

fun Join :: "string list \<Rightarrow> string \<Rightarrow> string" where
  "Join [] sep = ''''"
| "Join [x] sep = x"
| "Join (x # y # xs) sep = x @ sep @ Join (y # xs) sep"

definition TrimPrefix :: "string \<Rightarrow> string \<Rightarrow> string" where
  "TrimPrefix s p = (if HasPrefix s p then drop (length p) s else s)"

section \<open>Images\<close>

definition managedFilter :: "(string \<times> string) list" where
  "managedFilter = [(''label'', LabelManaged @ ''=true'')]"

definition docker_Ping :: "'d DockerClient \<Rightarrow> 'd \<Rightarrow> derr option" where
  "docker_Ping C d = map_option (DriverErr \<circ> cerr_Error) (clPing C d)"

definition imagePresent :: "'d DockerClient \<Rightarrow> string \<Rightarrow> 'd \<Rightarrow> bool" where
  "imagePresent C ref d = (case clImageInspect C ref d of Inl _ \<Rightarrow> False | Inr _ \<Rightarrow> True)"

text \<open>The image may have no configuration: \<open>Inr None\<close>.\<close>

definition imageUser :: "'d DockerClient \<Rightarrow> string \<Rightarrow> 'd \<Rightarrow> string" where
  "imageUser C ref d = (case clImageInspect C ref d of Inr (Some u) \<Rightarrow> u | _ \<Rightarrow> '''')"

definition docker_EnsureImage :: "'d DockerClient \<Rightarrow> string \<Rightarrow> PullPolicy \<Rightarrow> 'd \<Rightarrow> 'd \<times> derr option" where
  "docker_EnsureImage C ref policy d = (
     let present = imagePresent C ref d
     in if policy = PullNever then
          (if \<not> present then (d, Some (DriverErr (''driver: image '' @ Quote ref @ '' not present and pull policy is Never''))) else (d, None))
        else if policy = PullIfNotPresent \<and> present then (d, None)
        else case clImagePull C ref d of
            (d1, Some err) \<Rightarrow>
              (if present then (d1, None) else (d1, Some (DriverErr (''driver: pull '' @ Quote ref @ '': '' @ cerr_Error err))))
          | (d1, None) \<Rightarrow> (d1, None))"

text \<open>\<^verbatim>\<open>strings.TrimSpace\<close> on ASCII text.\<close>

definition is_space :: "char \<Rightarrow> bool" where
  "is_space c \<longleftrightarrow> c = CHR '' '' \<or> (9 \<le> (of_char c :: nat) \<and> (of_char c :: nat) \<le> 13)"

definition TrimSpace :: "string \<Rightarrow> string" where
  "TrimSpace s = rev (dropWhile is_space (rev (dropWhile is_space s)))"

definition lastLine :: "string \<Rightarrow> string" where
  "lastLine s = rev (takeWhile (\<lambda>c. c \<noteq> CHR 0x0A) (rev (TrimSpace s)))"

definition docker_BuildRuntimeImage :: "'d DockerClient \<Rightarrow> string \<Rightarrow> string \<Rightarrow> 'd \<Rightarrow> 'd \<times> derr option" where
  "docker_BuildRuntimeImage C tag contextDir d = (case clTarDir C contextDir of
      Inl err \<Rightarrow> (d, Some (DriverErr (''driver: tar build context '' @ Quote contextDir @ '': '' @ err)))
    | Inr tarball \<Rightarrow>
       (case clImageBuild C tag tarball d of
          (d1, Inl err) \<Rightarrow> (d1, Some (DriverErr (''driver: image build: '' @ cerr_Error err)))
        | (d1, Inr output) \<Rightarrow>
           (if Contains output (CHR 0x22 # ''error'' @ [CHR 0x22]) \<or> Contains output ''errorDetail''
            then (d1, Some (DriverErr (''driver: image build failed: '' @ lastLine output))) else (d1, None))))"

section \<open>Containers\<close>

definition identityLabels :: "SandboxContainerSpec \<Rightarrow> (string \<rightharpoonup> string)" where
  "identityLabels cs = [LabelManaged \<mapsto> ''true'', LabelNamespace \<mapsto> csNamespace cs, LabelSandbox \<mapsto> csSandboxName cs, LabelUID \<mapsto> csUID cs,
     LabelServerPort \<mapsto> Itoa (csServerPort cs)] ++ csLabels cs"

fun bindPorts :: "'d DockerClient \<Rightarrow> int list \<Rightarrow> (string \<rightharpoonup> unit) \<Rightarrow> (string \<rightharpoonup> (string \<times> string) list) \<Rightarrow>
    string + (string \<rightharpoonup> unit) \<times> (string \<rightharpoonup> (string \<times> string) list)" where
  "bindPorts C [] exposed bindings = Inr (exposed, bindings)"
| "bindPorts C (p # ps) exposed bindings = (case clNewPort C ''tcp'' (Itoa p) of
      Inl err \<Rightarrow> Inl (''driver: bad port '' @ Itoa p @ '': '' @ err)
    | Inr port \<Rightarrow> bindPorts C ps (exposed(port \<mapsto> ())) (bindings(port \<mapsto> [(''127.0.0.1'', '''')])))"

definition dockerMount :: "Mount \<Rightarrow> DockerMount list" where
  "dockerMount m = (
     if mTmpfs m then [\<lparr>dmType = TypeTmpfs, dmSource = '''', dmTarget = mMountPath m, dmReadOnly = False,
          dmTmpfsOptions = (if sint (mTmpfsSizeBytes m) > 0 then Some (mTmpfsSizeBytes m) else None)\<rparr>]
     else if mVolumeName m \<noteq> '''' then [\<lparr>dmType = TypeVolume, dmSource = mVolumeName m, dmTarget = mMountPath m, dmReadOnly = mReadOnly m,
          dmTmpfsOptions = None\<rparr>]
     else [])"

definition dockerConfig :: "'d DockerClient \<Rightarrow> SandboxContainerSpec \<Rightarrow> (string \<rightharpoonup> unit) \<Rightarrow> DockerConfig" where
  "dockerConfig C cs exposed = \<lparr>dcImage = csImage cs, dcEnv = map (\<lambda>k. k @ ''='' @ map_get (csEnv cs) k) (clKeys C (csEnv cs)),
     dcWorkingDir = csWorkingDir cs, dcLabels = identityLabels cs, dcExposedPorts = exposed, dcUser = csUser cs,
     dcEntrypoint = csCommand cs, dcCmd = csArgs cs\<rparr>"

definition dockerHost :: "SandboxContainerSpec \<Rightarrow> (string \<rightharpoonup> (string \<times> string) list) \<Rightarrow> DockerMount list \<Rightarrow> HostConfig" where
  "dockerHost cs bindings mounts = \<lparr>hcPortBindings = bindings, hcMounts = mounts, hcRestartPolicy = ''no'', hcReadonlyRootfs = csReadOnlyRoot cs,
     hcDNS = csDNSServers cs, hcNanoCPUs = rsNanoCPUs (csResources cs), hcMemory = rsMemoryBytes (csResources cs)\<rparr>"

text \<open>The container that hands the writable volumes to the user of the sandbox: created, started, waited for and removed.\<close>

definition rootUser :: "string \<Rightarrow> bool" where
  "rootUser owner \<longleftrightarrow> owner = '''' \<or> owner = ''0'' \<or> owner = ''root'' \<or> HasPrefix owner ''0:'' \<or> HasPrefix owner ''root:''"

definition initConfig :: "SandboxContainerSpec \<Rightarrow> string \<Rightarrow> string list \<Rightarrow> DockerConfig" where
  "initConfig cs owner paths = \<lparr>dcImage = csImage cs, dcEnv = [], dcWorkingDir = '''',
     dcLabels = [LabelManaged \<mapsto> ''true'', LabelNamespace \<mapsto> csNamespace cs, LabelSandbox \<mapsto> csSandboxName cs], dcExposedPorts = Map.empty,
     dcUser = ''0'', dcEntrypoint = [''sh'', ''-c''], dcCmd = [''chown -R '' @ owner @ '' '' @ Join paths '' '']\<rparr>"

definition initHost :: "DockerMount list \<Rightarrow> HostConfig" where
  "initHost mounts = \<lparr>hcPortBindings = Map.empty, hcMounts = mounts, hcRestartPolicy = ''no'', hcReadonlyRootfs = False, hcDNS = [],
     hcNanoCPUs = 0, hcMemory = 0\<rparr>"

definition prepareVolumePermissions :: "'d DockerClient \<Rightarrow> SandboxContainerSpec \<Rightarrow> DockerMount list \<Rightarrow> 'd \<Rightarrow> 'd" where
  "prepareVolumePermissions C cs mounts d = (
     let owner = (if csUser cs = '''' then imageUser C (csImage cs) d else csUser cs);
         volMounts = filter (\<lambda>m. dmType m = TypeVolume \<and> \<not> dmReadOnly m) mounts;
         paths = map dmTarget volMounts
     in if rootUser owner \<or> paths = [] then d
        else case clContainerCreate C (initConfig cs owner paths) (initHost volMounts)
               (containerName (csNamespace cs) (csSandboxName cs) (csUID cs) @ ''-init'') d of
            (d1, Inl _) \<Rightarrow> d1
          | (d1, Inr i) \<Rightarrow>
             (case clContainerStart C i d1 of
                (d2, Some _) \<Rightarrow> fst (clContainerRemove C i d2)
              | (d2, None) \<Rightarrow> fst (clContainerRemove C i (clContainerWait C i d2))))"

fun bindingLoop :: "int \<Rightarrow> (string \<times> string) list \<Rightarrow> (int \<rightharpoonup> int) \<Rightarrow> (int \<rightharpoonup> int)" where
  "bindingLoop p [] m = m"
| "bindingLoop p ((ip, hp) # bs) m = bindingLoop p bs (
     if hp = '''' then m
     else if ip = ''127.0.0.1'' \<or> (case m p of None \<Rightarrow> 0 | Some q \<Rightarrow> q) = 0 then m(p \<mapsto> AtoiValue hp)
     else m)"

fun portLoop :: "'d DockerClient \<Rightarrow> (string \<times> (string \<times> string) list) list \<Rightarrow> (int \<rightharpoonup> int) \<Rightarrow> (int \<rightharpoonup> int)" where
  "portLoop C [] m = m"
| "portLoop C ((p, bs) # ps) m = portLoop C ps (bindingLoop (clPortInt C p) bs m)"

definition infoOf :: "'d DockerClient \<Rightarrow> ContainerJSON \<Rightarrow> ContainerInfo" where
  "infoOf C j = \<lparr>ciID = cjID j, ciName = TrimPrefix (cjName j) ''/'',
     ciState = (case cjState j of Some st \<Rightarrow> stStatus st | None \<Rightarrow> ''''),
     ciExitCode = (case cjState j of Some st \<Rightarrow> stExitCode st | None \<Rightarrow> 0),
     ciIPAddress = (case cjNetworkSettings j of Some (ips, _) \<Rightarrow> (case find (\<lambda>ip. ip \<noteq> '''') ips of Some ip \<Rightarrow> ip | None \<Rightarrow> '''') | None \<Rightarrow> ''''),
     ciPortMap = (case cjNetworkSettings j of Some (_, ports) \<Rightarrow> portLoop C ports Map.empty | None \<Rightarrow> Map.empty),
     ciLabels = cjLabels j,
     ciStartedAt = (case cjState j of Some st \<Rightarrow> clParseTime C (stStartedAt st) | None \<Rightarrow> 0)\<rparr>"

definition docker_inspect :: "'d DockerClient \<Rightarrow> string \<Rightarrow> 'd \<Rightarrow> derr + ContainerInfo" where
  "docker_inspect C i d = (case clContainerInspect C i d of
      Inl err \<Rightarrow> Inl (DriverErr (''driver: inspect: '' @ cerr_Error err))
    | Inr j \<Rightarrow> Inr (infoOf C j))"

definition docker_Create :: "'d DockerClient \<Rightarrow> SandboxContainerSpec \<Rightarrow> 'd \<Rightarrow> 'd \<times> (derr + ContainerInfo)" where
  "docker_Create C cs d = (case bindPorts C (csRuntimePorts cs) Map.empty Map.empty of
      Inl err \<Rightarrow> (d, Inl (DriverErr err))
    | Inr (exposed, bindings) \<Rightarrow>
       (let mounts = concat (map dockerMount (csMounts cs));
            d1 = prepareVolumePermissions C cs mounts d
        in case clContainerCreate C (dockerConfig C cs exposed) (dockerHost cs bindings mounts)
               (containerName (csNamespace cs) (csSandboxName cs) (csUID cs)) d1 of
            (d2, Inl err) \<Rightarrow> (d2, Inl (DriverErr (''driver: create container: '' @ cerr_Error err)))
          | (d2, Inr i) \<Rightarrow>
             (case clContainerStart C i d2 of
                (d3, Some err) \<Rightarrow> (fst (clContainerRemove C i d3), Inl (DriverErr (''driver: start container: '' @ cerr_Error err)))
              | (d3, None) \<Rightarrow> (d3, docker_inspect C i d3))))"

definition docker_InspectSandbox :: "'d DockerClient \<Rightarrow> string \<Rightarrow> string \<Rightarrow> 'd \<Rightarrow> derr + ContainerInfo" where
  "docker_InspectSandbox C ns nm d = (
     let f = managedFilter @ [(''label'', LabelNamespace @ ''='' @ ns), (''label'', LabelSandbox @ ''='' @ nm)]
     in case clContainerList C f d of
          Inl err \<Rightarrow> Inl (DriverErr (cerr_Error err))
        | Inr [] \<Rightarrow> Inl ErrNotFound
        | Inr (i # _) \<Rightarrow> docker_inspect C i d)"

fun inspectAll :: "'d DockerClient \<Rightarrow> string list \<Rightarrow> 'd \<Rightarrow> ContainerInfo list" where
  "inspectAll C [] d = []"
| "inspectAll C (i # is) d = (case docker_inspect C i d of Inl _ \<Rightarrow> inspectAll C is d | Inr info \<Rightarrow> info # inspectAll C is d)"

definition docker_ListManaged :: "'d DockerClient \<Rightarrow> 'd \<Rightarrow> derr + ContainerInfo list" where
  "docker_ListManaged C d = (case clContainerList C managedFilter d of
      Inl err \<Rightarrow> Inl (DriverErr (cerr_Error err))
    | Inr is \<Rightarrow> Inr (inspectAll C is d))"

definition unlessNotFound :: "cerr option \<Rightarrow> derr option" where
  "unlessNotFound e = (case e of None \<Rightarrow> None | Some err \<Rightarrow> if IsErrNotFound err then None else Some (DriverErr (cerr_Error err)))"

definition docker_Stop :: "'d DockerClient \<Rightarrow> string \<Rightarrow> 'd \<Rightarrow> 'd \<times> derr option" where
  "docker_Stop C i d = (case clContainerStop C i d of (d1, e) \<Rightarrow> (d1, unlessNotFound e))"

definition docker_Remove :: "'d DockerClient \<Rightarrow> string \<Rightarrow> 'd \<Rightarrow> 'd \<times> derr option" where
  "docker_Remove C i d = (case clContainerRemove C i d of (d1, e) \<Rightarrow> (d1, unlessNotFound e))"

section \<open>Volumes\<close>

definition volumeLabels :: "VolumeSpec \<Rightarrow> (string \<rightharpoonup> string)" where
  "volumeLabels v = [LabelManaged \<mapsto> ''true'', LabelNamespace \<mapsto> vsNamespace v, LabelVolume \<mapsto> vsPVCName v] ++ vsLabels v"

definition docker_EnsureVolume :: "'d DockerClient \<Rightarrow> VolumeSpec \<Rightarrow> 'd \<Rightarrow> 'd \<times> (derr + string)" where
  "docker_EnsureVolume C v d = (case clVolumeCreate C (vsName v) (volumeLabels v) d of
      (d1, Inl err) \<Rightarrow> (d1, Inl (DriverErr (''driver: create volume '' @ Quote (vsName v) @ '': '' @ cerr_Error err)))
    | (d1, Inr nm) \<Rightarrow> (d1, Inr nm))"

definition volumeSpecOf :: "DockerVolume \<Rightarrow> VolumeSpec" where
  "volumeSpecOf v = \<lparr>vsName = dvName v, vsNamespace = map_get (dvLabels v) LabelNamespace, vsPVCName = map_get (dvLabels v) LabelVolume,
     vsLabels = dvLabels v\<rparr>"

definition docker_ListVolumes :: "'d DockerClient \<Rightarrow> 'd \<Rightarrow> derr + VolumeSpec list" where
  "docker_ListVolumes C d = (case clVolumeList C managedFilter d of
      Inl err \<Rightarrow> Inl (DriverErr (cerr_Error err))
    | Inr vs \<Rightarrow> Inr (map volumeSpecOf vs))"

definition docker_RemoveVolume :: "'d DockerClient \<Rightarrow> string \<Rightarrow> 'd \<Rightarrow> 'd \<times> derr option" where
  "docker_RemoveVolume C nm d = (case clVolumeRemove C nm d of (d1, e) \<Rightarrow> (d1, unlessNotFound e))"

section \<open>Probing and events\<close>

definition docker_Probe :: "'d DockerClient \<Rightarrow> int \<Rightarrow> 'd \<Rightarrow> derr option" where
  "docker_Probe C hp d = (case clHTTPGet C (''http://127.0.0.1:'' @ Itoa hp @ ''/'') d of
      Inl err \<Rightarrow> Some (DriverErr err)
    | Inr code \<Rightarrow> (if code < 200 \<or> code \<ge> 500 then Some (DriverErr (''driver: runtime probe status '' @ Itoa code)) else None))"

definition dockerEvent :: "DockerMessage \<Rightarrow> DriverEvent" where
  "dockerEvent m = \<lparr>deType = msgAction m, deID = msgID m, deNamespace = map_get (msgAttributes m) LabelNamespace,
     deSandbox = map_get (msgAttributes m) LabelSandbox,
     deExitCode = (case msgAttributes m ''exitCode'' of Some code \<Rightarrow> AtoiValue code | None \<Rightarrow> 0)\<rparr>"

definition dockerDriver :: "'d DockerClient \<Rightarrow> 'd Driver" where
  "dockerDriver C = \<lparr>Ping = docker_Ping C, EnsureImage = docker_EnsureImage C, CreateSandboxContainer = docker_Create C,
     InspectSandbox = docker_InspectSandbox C, ListManaged = docker_ListManaged C, StopContainer = docker_Stop C,
     RemoveContainer = docker_Remove C, EnsureVolume = docker_EnsureVolume C, ListManagedVolumes = docker_ListVolumes C,
     RemoveVolume = docker_RemoveVolume C, ProbeRuntime = docker_Probe C, BuildRuntimeImage = Some (docker_BuildRuntimeImage C)\<rparr>"

lemma dockerDriver_simps [simp]:
  "Ping (dockerDriver C) = docker_Ping C" "EnsureImage (dockerDriver C) = docker_EnsureImage C"
  "CreateSandboxContainer (dockerDriver C) = docker_Create C" "InspectSandbox (dockerDriver C) = docker_InspectSandbox C"
  "ListManaged (dockerDriver C) = docker_ListManaged C" "StopContainer (dockerDriver C) = docker_Stop C"
  "RemoveContainer (dockerDriver C) = docker_Remove C" "EnsureVolume (dockerDriver C) = docker_EnsureVolume C"
  "ListManagedVolumes (dockerDriver C) = docker_ListVolumes C" "RemoveVolume (dockerDriver C) = docker_RemoveVolume C"
  "ProbeRuntime (dockerDriver C) = docker_Probe C" "BuildRuntimeImage (dockerDriver C) = Some (docker_BuildRuntimeImage C)"
  by (simp_all add: dockerDriver_def)

end
