(* ===== verification/App.thy ===== *)
theory App
  imports ClaimLoop FakeDriver Recovery
begin

text \<open>
  \<^verbatim>\<open>internal/app/app.go\<close>, \<^verbatim>\<open>internal/config/config.go\<close>, \<^verbatim>\<open>internal/vrouter/vrouter.go\<close> and the commands of \<^verbatim>\<open>cmd/lasd/commands.go\<close> that
  change something: what the server does around the loops. Removing the containers that lost their sandbox,
  creating the default objects and the virtual router objects, tearing everything down, and the commands \<^verbatim>\<open>gc\<close> and \<^verbatim>\<open>purge\<close>.
  Listeners and the commands that only read are in \<open>Cli\<close>.
\<close>

section \<open>Configuration\<close>

text \<open>The data directory is an argument of \<open>Defaults\<close>: it comes from the environment.\<close>

record Config =
  cfgBind :: string
  cfgAPIPort :: int
  cfgRouterPort :: int
  cfgDataDir :: string
  cfgEphemeralOnShutdown :: bool
  cfgRuntimeImage :: string
  cfgRuntimeBuildContext :: string
  cfgServerPort :: int
  cfgClusterDomain :: string
  cfgBootstrap :: bool

definition Defaults :: "string \<Rightarrow> Config" where
  "Defaults dir = \<lparr>cfgBind = ''127.0.0.1'', cfgAPIPort = 6644, cfgRouterPort = 8880, cfgDataDir = dir, cfgEphemeralOnShutdown = False,
     cfgRuntimeImage = ''lasd/sandbox-runtime:dev'', cfgRuntimeBuildContext = '''', cfgServerPort = 8888,
     cfgClusterDomain = ''cluster.local'', cfgBootstrap = True\<rparr>"

text \<open>\<^verbatim>\<open>net.JoinHostPort\<close> puts brackets around a host with a colon or a percent sign.\<close>

definition JoinHostPort :: "string \<Rightarrow> string \<Rightarrow> string" where
  "JoinHostPort host port = (if CHR '':'' \<in> set host \<or> CHR ''%'' \<in> set host then ''['' @ host @ '']:'' @ port else host @ '':'' @ port)"

definition hostPort :: "string \<Rightarrow> int \<Rightarrow> string" where
  "hostPort host port = JoinHostPort host (Itoa port)"

definition APIServerURL :: "Config \<Rightarrow> string" where
  "APIServerURL cfg = ''http://'' @ hostPort (cfgBind cfg) (cfgAPIPort cfg)"

definition RouterURL :: "Config \<Rightarrow> string" where
  "RouterURL cfg = ''http://'' @ hostPort (cfgBind cfg) (cfgRouterPort cfg)"

section \<open>Virtual router objects\<close>

definition PodName :: string where "PodName = ''sandbox-router-0''"
definition ServiceName :: string where "ServiceName = ''sandbox-router-svc''"
definition SystemNamespace :: string where "SystemNamespace = ''agent-sandbox-system''"

definition appLabel :: string where "appLabel = ''app''"
definition appValue :: string where "appValue = ''sandbox-router''"
definition routerPort :: int where "routerPort = 8080"

text \<open>The typed objects: what the code fills in of a pod (containers by name and image, phase, conditions by type
  and status, addresses), of a service (cluster address, selector, ports by name, port and target) and of an endpoint slice
  (address type, endpoints with addresses, readiness and target reference, ports by name).\<close>

record VPod =
  vpContainers :: "(string \<times> string) list"
  vpPhase :: string
  vpConditions :: "(string \<times> string) list"
  vpPodIP :: string
  vpPodIPs :: "string list"

record VService =
  vsvClusterIP :: string
  vsvSelector :: "string \<rightharpoonup> string"
  vsvPorts :: "(string \<times> int \<times> int) list"

record VEndpointSlice =
  veAddressType :: string
  veEndpoints :: "(string list \<times> bool option \<times> string \<times> string \<times> string) list"
  vePorts :: "(string \<times> int) list"

text \<open>What the converter makes of them: the spec and status trees of a pod and of a service, and the top-level fields of an endpoint
  slice.\<close>

record 'j vrouterlib =
  vrPod :: "VPod \<Rightarrow> string + ('j \<times> 'j)"
  vrService :: "VService \<Rightarrow> string + ('j \<times> 'j)"
  vrEndpointSlice :: "VEndpointSlice \<Rightarrow> string + (string \<rightharpoonup> 'j)"

definition routerPod :: VPod where
  "routerPod = \<lparr>vpContainers = [(''router'', ''lasd/router:virtual'')], vpPhase = ''Running'', vpConditions = [(''Ready'', ''True'')],
     vpPodIP = ''127.0.0.1'', vpPodIPs = [''127.0.0.1'']\<rparr>"

definition routerService :: VService where
  "routerService = \<lparr>vsvClusterIP = ''None'', vsvSelector = [appLabel \<mapsto> appValue], vsvPorts = [(''http'', routerPort, routerPort)]\<rparr>"

definition routerEndpointSlice :: "string \<Rightarrow> VEndpointSlice" where
  "routerEndpointSlice ns = \<lparr>veAddressType = ''IPv4'', veEndpoints = [([''127.0.0.1''], Some True, ''Pod'', ns, PodName)],
     vePorts = [(''http'', routerPort)]\<rparr>"

definition vrouter_create :: "('j, 'db) storelib \<Rightarrow> GVR \<Rightarrow> 'j obj \<Rightarrow> ('j, 'db) store \<Rightarrow> ('j, 'db) store option" where
  "vrouter_create L gvr u s = map_option fst (Create L gvr u s)"

definition ensurePod :: "('j, 'db) storelib \<Rightarrow> 'j vrouterlib \<Rightarrow> string \<Rightarrow> ('j, 'db) store \<Rightarrow> ('j, 'db) store option" where
  "ensurePod L V ns s = (case Get PodGVR ns PodName s of
      Inr _ \<Rightarrow> Some s
    | Inl _ \<Rightarrow>
       (case vrPod V routerPod of
          Inl _ \<Rightarrow> Some s
        | Inr (sp, st) \<Rightarrow> vrouter_create L PodGVR (empty_obj\<lparr>apiVersion := ''v1'', kind := ''Pod'', name := PodName, namespace := ns,
            labels := [appLabel \<mapsto> appValue], spec := Some sp, status := Some st\<rparr>) s))"

definition ensureService :: "('j, 'db) storelib \<Rightarrow> 'j vrouterlib \<Rightarrow> string \<Rightarrow> ('j, 'db) store \<Rightarrow> ('j, 'db) store option" where
  "ensureService L V ns s = (case Get ServiceGVR ns ServiceName s of
      Inr _ \<Rightarrow> Some s
    | Inl _ \<Rightarrow>
       (case vrService V routerService of
          Inl _ \<Rightarrow> Some s
        | Inr (sp, st) \<Rightarrow> vrouter_create L ServiceGVR (empty_obj\<lparr>apiVersion := ''v1'', kind := ''Service'', name := ServiceName, namespace := ns,
            labels := [appLabel \<mapsto> appValue], spec := Some sp, status := Some st\<rparr>) s))"

definition ensureEndpointSlice :: "('j, 'db) storelib \<Rightarrow> 'j vrouterlib \<Rightarrow> string \<Rightarrow> ('j, 'db) store \<Rightarrow> ('j, 'db) store option" where
  "ensureEndpointSlice L V ns s = (
     let nm = ServiceName @ ''-1''
     in case Get EndpointSliceGVR ns nm s of
      Inr _ \<Rightarrow> Some s
    | Inl _ \<Rightarrow>
       (case vrEndpointSlice V (routerEndpointSlice ns) of
          Inl _ \<Rightarrow> Some s
        | Inr fs \<Rightarrow> vrouter_create L EndpointSliceGVR (empty_obj\<lparr>apiVersion := ''discovery.k8s.io/v1'', kind := ''EndpointSlice'', name := nm,
            namespace := ns, labels := [''kubernetes.io/service-name'' \<mapsto> ServiceName], extra := fs\<rparr>) s))"

definition EnsureNamespace :: "('j, 'db) storelib \<Rightarrow> 'j vrouterlib \<Rightarrow> string \<Rightarrow> ('j, 'db) store \<Rightarrow> ('j, 'db) store option" where
  "EnsureNamespace L V ns s = do {
     s1 \<leftarrow> ensurePod L V ns s;
     s2 \<leftarrow> ensureService L V ns s1;
     ensureEndpointSlice L V ns s2
   }"

text \<open>The two namespaces of the start, and one event of the watch on namespaces.\<close>

definition startVirtualRouter :: "('j, 'db) storelib \<Rightarrow> 'j vrouterlib \<Rightarrow> ('j, 'db) store \<Rightarrow> ('j, 'db) store option" where
  "startVirtualRouter L V s = do {
     s1 \<leftarrow> EnsureNamespace L V ''default'' s;
     EnsureNamespace L V SystemNamespace s1
   }"

definition namespaceEvent :: "('j, 'db) storelib \<Rightarrow> 'j vrouterlib \<Rightarrow> 'j Event \<Rightarrow> ('j, 'db) store \<Rightarrow> ('j, 'db) store option" where
  "namespaceEvent L V ev s = EnsureNamespace L V (name (evObject ev)) s"

section \<open>Default objects\<close>

record ('j, 'v) bootlib =
  encTemplate :: "'v TemplateSpec \<Rightarrow> string + ('j \<times> 'j option)"
  encPool :: "WarmPoolSpec \<Rightarrow> string + ('j \<times> 'j option)"

definition bootstrapTemplate :: "Config \<Rightarrow> 'v TemplateSpec" where
  "bootstrapTemplate cfg = \<lparr>tsBlueprint = \<lparr>bpPodLabels = Map.empty, bpPodAnnotations = Map.empty,
       bpPodSpec = \<lparr>psContainers = [\<lparr>cName = ''runtime'', cImage = cfgRuntimeImage cfg, cCommand = [], cArgs = [], cWorkingDir = '''',
            cImagePullPolicy = '''', cEnv = [], cPorts = [sint (of_int (cfgServerPort cfg) :: 32 word)], cVolumeMounts = [], cSecurityContext = None, cLimits = Map.empty\<rparr>],
          psVolumes = [], psSecurityContext = None, psDNSPolicy = '''', psDNSConfig = None, psAutomountServiceAccountToken = None\<rparr>,
       bpVolumeClaimTemplates = [], bpService = None\<rparr>,
     tsNetworkPolicy = False, tsNetworkPolicyManagement = NPUnset, tsEnvVarsInjectionPolicy = PolicyAllowed,
     tsVolumeClaimTemplatesPolicy = PolicyAllowed\<rparr>"

definition bootstrapOne :: "('j, 'db) storelib \<Rightarrow> GVR \<Rightarrow> string \<Rightarrow> string + ('j \<times> 'j option) \<Rightarrow> ('j, 'db) store \<Rightarrow> ('j, 'db) store option" where
  "bootstrapOne L gvr knd enc s = (case Get gvr ''default'' ''default'' s of
      Inr _ \<Rightarrow> Some s
    | Inl _ \<Rightarrow>
       (case enc of
          Inl _ \<Rightarrow> Some s
        | Inr (sp, st) \<Rightarrow> map_option fst (Create L gvr (empty_obj\<lparr>apiVersion := ExtensionsGV, kind := knd, namespace := ''default'',
            name := ''default'', spec := Some sp, status := st\<rparr>) s)))"

definition bootstrapObjects :: "('j, 'db) storelib \<Rightarrow> ('j, 'v) bootlib \<Rightarrow> Config \<Rightarrow> ('j, 'db) store \<Rightarrow> ('j, 'db) store option" where
  "bootstrapObjects L B cfg s = do {
     s1 \<leftarrow> bootstrapOne L TemplateGVR ''SandboxTemplate'' (encTemplate B (bootstrapTemplate cfg)) s;
     bootstrapOne L WarmPoolGVR ''SandboxWarmPool'' (encPool B \<lparr>wpReplicas = Some 0, wpTemplateRef = ''default''\<rparr>) s1
   }"

section \<open>Containers without a sandbox\<close>

fun removeOrphans :: "'d Driver \<Rightarrow> ('j, 'db) store \<Rightarrow> ContainerInfo list \<Rightarrow> 'd \<Rightarrow> 'd" where
  "removeOrphans D s [] d = d"
| "removeOrphans D s (c # cs) d = removeOrphans D s cs
     (if ci_Namespace c = '''' \<or> ci_Sandbox c = '''' then d
      else case Get SandboxGVR (ci_Namespace c) (ci_Sandbox c) s of
          Inr _ \<Rightarrow> d
        | Inl _ \<Rightarrow> fst (RemoveContainer D (ciID c) d))"

definition bootAdoption :: "'d Driver \<Rightarrow> ('j, 'db) store \<Rightarrow> 'd \<Rightarrow> 'd" where
  "bootAdoption D s d = (case ListManaged D d of Inl _ \<Rightarrow> d | Inr cs \<Rightarrow> removeOrphans D s cs d)"

text \<open>The steps of the start that follow one another; the loops, which run beside them, take their own.\<close>

definition app_boot :: "('j, 'db) storelib \<Rightarrow> 'j vrouterlib \<Rightarrow> ('j, 'v) bootlib \<Rightarrow> Config \<Rightarrow> 'd Driver option \<Rightarrow> ('j, 'db) store \<Rightarrow> 'd \<Rightarrow>
    (('j, 'db) store \<times> 'd) option" where
  "app_boot L V B cfg D s d = (
     let d1 = (case D of Some D' \<Rightarrow> bootAdoption D' s d | None \<Rightarrow> d)
     in do {
       s1 \<leftarrow> (if cfgBootstrap cfg then bootstrapObjects L B cfg s else Some s);
       s2 \<leftarrow> startVirtualRouter L V s1;
       Some (s2, d1)
     })"

fun removeContainers :: "'d Driver \<Rightarrow> ContainerInfo list \<Rightarrow> 'd \<Rightarrow> 'd" where
  "removeContainers D [] d = d"
| "removeContainers D (c # cs) d = removeContainers D cs (fst (RemoveContainer D (ciID c) d))"

fun removeVolumes :: "'d Driver \<Rightarrow> VolumeSpec list \<Rightarrow> 'd \<Rightarrow> 'd" where
  "removeVolumes D [] d = d"
| "removeVolumes D (v # vs) d = removeVolumes D vs (fst (RemoveVolume D (vsName v) d))"

definition teardownAll :: "'d Driver \<Rightarrow> 'd \<Rightarrow> 'd" where
  "teardownAll D d = (
     let d1 = (case ListManaged D d of Inl _ \<Rightarrow> d | Inr cs \<Rightarrow> removeContainers D cs d)
     in case ListManagedVolumes D d1 of Inl _ \<Rightarrow> d1 | Inr vs \<Rightarrow> removeVolumes D vs d1)"

text \<open>Closing the connections is not modelled.\<close>

definition app_close :: "Config \<Rightarrow> 'd Driver option \<Rightarrow> 'd \<Rightarrow> 'd" where
  "app_close cfg D d = (case D of Some D' \<Rightarrow> (if cfgEphemeralOnShutdown cfg then teardownAll D' d else d) | None \<Rightarrow> d)"

section \<open>Commands\<close>

text \<open>The command \<^verbatim>\<open>gc\<close> asks the API server for each sandbox; \<open>apiGet\<close> is the answer, an error of any kind included. The number it
  prints is the second result.\<close>

fun gcLoop :: "'d Driver \<Rightarrow> (string \<Rightarrow> string \<Rightarrow> string + 'j obj) \<Rightarrow> bool \<Rightarrow> ContainerInfo list \<Rightarrow> 'd \<Rightarrow> int \<Rightarrow> 'd \<times> int" where
  "gcLoop D apiGet dryRun [] d n = (d, n)"
| "gcLoop D apiGet dryRun (c # cs) d n =
     (if ci_Sandbox c = '''' \<or> (case apiGet (ci_Namespace c) (ci_Sandbox c) of Inl _ \<Rightarrow> False | Inr _ \<Rightarrow> True)
      then gcLoop D apiGet dryRun cs d n
      else gcLoop D apiGet dryRun cs (if \<not> dryRun then fst (RemoveContainer D (ciID c) d) else d) (n + 1))"

definition gcCmd :: "'d Driver \<Rightarrow> (string \<Rightarrow> string \<Rightarrow> string + 'j obj) \<Rightarrow> bool \<Rightarrow> 'd \<Rightarrow> 'd \<times> (derr + int)" where
  "gcCmd D apiGet dryRun d = (case ListManaged D d of
      Inl err \<Rightarrow> (d, Inl err)
    | Inr cs \<Rightarrow> (case gcLoop D apiGet dryRun cs d 0 of (d1, n) \<Rightarrow> (d1, Inr n)))"

text \<open>The command \<^verbatim>\<open>purge\<close>; a failed listing counts as empty. Removing the database file is \<open>purgeState\<close> of \<open>Cli\<close>.\<close>

definition purgeCmd :: "'d Driver \<Rightarrow> 'd \<Rightarrow> 'd \<times> nat \<times> nat" where
  "purgeCmd D d = (
     let cs = (case ListManaged D d of Inl _ \<Rightarrow> [] | Inr cs \<Rightarrow> cs);
         d1 = removeContainers D cs d;
         vs = (case ListManagedVolumes D d1 of Inl _ \<Rightarrow> [] | Inr vs \<Rightarrow> vs);
         d2 = removeVolumes D vs d1
     in (d2, length cs, length vs))"

text \<open>The status column of \<^verbatim>\<open>ls\<close>.\<close>

fun firstStatus :: "string \<Rightarrow> (string option \<times> string option) option list \<Rightarrow> string" where
  "firstStatus t [] = ''-''"
| "firstStatus t (c # cs) = (case c of
      Some (Some t', Some st) \<Rightarrow> (if t' = t then st else firstStatus t cs)
    | _ \<Rightarrow> firstStatus t cs)"

definition conditionStatus :: "('j, 'v) convlib \<Rightarrow> 'j obj \<Rightarrow> string \<Rightarrow> string" where
  "conditionStatus X ob t = (case nestedConditions X (status ob) of None \<Rightarrow> ''-'' | Some cs \<Rightarrow> firstStatus t cs)"

end
