(* ===== verification/AppProps.thy ===== *)
theory AppProps
  imports App SampleFacts
begin

text \<open>
  What the server does around its loops: which containers a start removes, what is left after a teardown,
  and what the garbage collection command removes. The part of a driver's contract that is about its listings extends the
  contract the loops rely on.
\<close>

section \<open>The listings of a driver\<close>

locale container_inventory = container_driver +
  assumes list_remove: "good d \<Longrightarrow> RemoveContainer D i d = (d', None) \<Longrightarrow>
      ListManaged D d' = (case ListManaged D d of Inl e \<Rightarrow> Inl e | Inr cs \<Rightarrow> Inr (filter (\<lambda>c. ciID c \<noteq> i) cs))"
    and list_unvolume: "good d \<Longrightarrow> RemoveVolume D n d = (d', None) \<Longrightarrow>
      ListManagedVolumes D d' = (case ListManagedVolumes D d of Inl e \<Rightarrow> Inl e | Inr vs \<Rightarrow> Inr (filter (\<lambda>v. vsName v \<noteq> n) vs))"
    and list_apart: "good d \<Longrightarrow> ListManagedVolumes D (fst (RemoveContainer D i d)) = ListManagedVolumes D d"
      "good d \<Longrightarrow> ListManaged D (fst (RemoveVolume D n d)) = ListManaged D d"
begin

text \<open>One removal that succeeds.\<close>

lemma removed:
  assumes "good d" "snd (RemoveContainer D i d) = None" "ListManaged D d = Inr xs"
  shows "good (fst (RemoveContainer D i d))" "ListManaged D (fst (RemoveContainer D i d)) = Inr (filter (\<lambda>c. ciID c \<noteq> i) xs)"
  using remove_good [OF assms(1)] list_remove [OF assms(1), of i "fst (RemoveContainer D i d)"] assms(2,3)
  by (simp_all add: prod_eq_iff)

lemma removeContainers_list:
  assumes "\<And>i d. snd (RemoveContainer D i d) = None"
  shows "good d \<Longrightarrow> ListManaged D d = Inr xs \<Longrightarrow> good (removeContainers D cs d) \<and>
    ListManaged D (removeContainers D cs d) = Inr (filter (\<lambda>x. ciID x \<notin> ciID ` set cs) xs) \<and>
    ListManagedVolumes D (removeContainers D cs d) = ListManagedVolumes D d"
proof (induction cs arbitrary: d xs)
  case (Cons c cs)
  note r = removed [OF Cons.prems(1) assms Cons.prems(2), of "ciID c"]
  from Cons.IH [OF r] list_apart(1) [OF Cons.prems(1), of "ciID c"] show ?case
    by (auto intro!: filter_cong)
qed simp

lemma removeVolumes_list:
  assumes "\<And>n d. snd (RemoveVolume D n d) = None"
  shows "good d \<Longrightarrow> ListManagedVolumes D d = Inr xs \<Longrightarrow>
    ListManagedVolumes D (removeVolumes D vs d) = Inr (filter (\<lambda>x. vsName x \<notin> vsName ` set vs) xs) \<and>
    ListManaged D (removeVolumes D vs d) = ListManaged D d"
proof (induction vs arbitrary: d xs)
  case (Cons v vs)
  let ?d = "fst (RemoveVolume D (vsName v) d)"
  have "good ?d" by (rule unvolume_good [OF Cons.prems(1)])
  moreover have "ListManagedVolumes D ?d = Inr (filter (\<lambda>x. vsName x \<noteq> vsName v) xs)"
    using list_unvolume [OF Cons.prems(1), of "vsName v" ?d] assms [of "vsName v" d] Cons.prems(2) by (simp add: prod_eq_iff)
  ultimately show ?case using Cons.IH [of ?d] list_apart(2) [OF Cons.prems(1), of "vsName v"] by (auto intro!: filter_cong)
qed simp

end

text \<open>The in-memory driver keeps its volumes under their names.\<close>

definition fake_listed :: "FakeDriver \<Rightarrow> bool" where
  "fake_listed f \<longleftrightarrow> fake_good f \<and> (\<forall>k v. (k, v) \<in> set (fdVolumes f) \<longrightarrow> k = vsName v)"

lemma AList_update_in: "(k, v) \<in> set (AList.update k0 v0 xs) \<Longrightarrow> (k, v) = (k0, v0) \<or> (k, v) \<in> set xs"
  by (induction xs) (auto split: if_splits)

lemma fake_listed_keeps:
  "fake_listed f \<Longrightarrow> fake_listed (fst (CreateSandboxContainer fakeDriver cs f))" "fake_listed f \<Longrightarrow> fake_listed (fst (RemoveContainer fakeDriver i f))"
  "fake_listed f \<Longrightarrow> fake_listed (fst (StopContainer fakeDriver i f))" "fake_listed f \<Longrightarrow> fake_listed (fst (EnsureVolume fakeDriver v f))"
  "fake_listed f \<Longrightarrow> fake_listed (fst (RemoveVolume fakeDriver n f))" "fake_listed f \<Longrightarrow> fake_listed (fst (EnsureImage fakeDriver im pol f))"
proof -
  assume f: "fake_listed f"
  then have g: "fake_good f" by (simp add: fake_listed_def)
  have v: "\<forall>k v. (k, v) \<in> set (fdVolumes f) \<longrightarrow> k = vsName v" using f by (simp add: fake_listed_def)
  have "fdVolumes (fst (fake_Create cs f)) = fdVolumes f" by (simp add: fake_Create_def Let_def split: option.split prod.split)
  then show "fake_listed (fst (CreateSandboxContainer fakeDriver cs f))" using v fake_Create_keeps(1) [OF g, of cs] by (simp add: fake_listed_def)
  show "fake_listed (fst (RemoveContainer fakeDriver i f))" using v fake.remove_good [OF g, of i] by (simp add: fake_listed_def fake_Remove_def)
  show "fake_listed (fst (StopContainer fakeDriver i f))" using v fake.stop_good [OF g, of i] by (simp add: fake_listed_def fake_Stop_def)
  show "fake_listed (fst (EnsureVolume fakeDriver v f))" for v
    using v fake.ensure_good [OF g, of v] by (auto simp: fake_listed_def fake_EnsureVolume_def dest!: AList_update_in)
  show "fake_listed (fst (EnsureImage fakeDriver im pol f))" using f by simp
  show "fake_listed (fst (RemoveVolume fakeDriver n f))"
    using v fake.unvolume_good [OF g, of n] by (auto simp: fake_listed_def fake_RemoveVolume_def AList.delete_eq)
qed

lemma fake_listed_good: "fake_listed d \<Longrightarrow> fake_good d"
  by (simp add: fake_listed_def)

lemmas fake_inspect = fake.inspect_create fake.inspect_create_other fake.inspect_remove fake.inspect_stop fake.inspect_volume
lemmas fake_volumes = fake.volume_ensure fake.volume_remove fake.volume_container

interpretation fake_inv: container_inventory fakeDriver fake_listed fake_has_volume
proof unfold_locales
  fix d d' :: FakeDriver and i n
  show "ListManaged fakeDriver d' = (case ListManaged fakeDriver d of Inl e \<Rightarrow> Inl e | Inr cs \<Rightarrow> Inr (filter (\<lambda>c. ciID c \<noteq> i) cs))"
    if "RemoveContainer fakeDriver i d = (d', None)"
    using that by (auto simp: fake_Remove_def fake_ListManaged_def filter_map comp_def intro!: arg_cong [where f = "map snd"] filter_cong)
  show "ListManagedVolumes fakeDriver d' = (case ListManagedVolumes fakeDriver d of Inl e \<Rightarrow> Inl e | Inr vs \<Rightarrow> Inr (filter (\<lambda>v. vsName v \<noteq> n) vs))"
    if "fake_listed d" "RemoveVolume fakeDriver n d = (d', None)"
    using that by (auto simp: fake_RemoveVolume_def fake_ListVolumes_def fake_listed_def AList.delete_eq filter_map comp_def intro!: arg_cong [where f = "map snd"] filter_cong)
  show "ListManagedVolumes fakeDriver (fst (RemoveContainer fakeDriver i d)) = ListManagedVolumes fakeDriver d"
    by (simp add: fake_Remove_def fake_ListVolumes_def)
  show "ListManaged fakeDriver (fst (RemoveVolume fakeDriver n d)) = ListManaged fakeDriver d"
    by (simp add: fake_RemoveVolume_def fake_ListManaged_def)
  show "fake_listed (fst (build im ctx d))" if "BuildRuntimeImage fakeDriver = Some build" for build im ctx
    using that by simp
qed ((blast intro: fake_listed_keeps fake_listed_good fake_inspect)+, (metis fake_listed_good fake_volumes)+)

section \<open>Starting\<close>

text \<open>A container whose labels name a sandbox that is not stored.\<close>

definition lost :: "('j, 'db) store \<Rightarrow> ContainerInfo \<Rightarrow> bool" where
  "lost s c \<longleftrightarrow> ci_Namespace c \<noteq> '''' \<and> ci_Sandbox c \<noteq> '''' \<and> (\<exists>e. Get SandboxGVR (ci_Namespace c) (ci_Sandbox c) s = Inl e)"

lemma removeOrphans_lost: "removeOrphans D s cs d = removeContainers D (filter (lost s) cs) d"
  by (induction cs arbitrary: d) (auto simp: lost_def split: sum.split)

text \<open>C22: a start removes exactly the containers that lost their sandbox: those the driver lists afterwards are the ones it listed
  before whose sandbox is stored, or that name none. Volumes are left alone. The driver is any that meets the contract and
  whose removals succeed.\<close>

theorem boot_removes_orphans:
  assumes D: "container_inventory D good hv" "good d" "\<And>i d. snd (RemoveContainer D i d) = None"
    and cs: "ListManaged D d = Inr cs" "inj_on ciID (set cs)"
  shows "ListManaged D (bootAdoption D s d) = Inr (filter (\<lambda>c. \<not> lost s c) cs) \<and>
    ListManagedVolumes D (bootAdoption D s d) = ListManagedVolumes D d"
proof -
  have "filter (\<lambda>x. ciID x \<notin> ciID ` set (filter (lost s) cs)) cs = filter (\<lambda>c. \<not> lost s c) cs"
    using cs(2) by (intro filter_cong) (auto dest: inj_onD)
  then show ?thesis
    using container_inventory.removeContainers_list [OF D(1) D(3) D(2) cs(1), of "filter (lost s) cs"]
    by (simp add: bootAdoption_def cs(1) removeOrphans_lost)
qed

section \<open>Tearing down\<close>

text \<open>A teardown, by a server that ends in ephemeral mode or by the purge command, leaves no managed container and no managed
  volume, if the removals succeed.\<close>

theorem teardown_leaves_nothing:
  assumes D: "container_inventory D good hv" "good d" "\<And>i d. snd (RemoveContainer D i d) = None" "\<And>n d. snd (RemoveVolume D n d) = None"
    and l: "ListManaged D d = Inr cs" "ListManagedVolumes D d = Inr vs"
  shows "ListManaged D (teardownAll D d) = Inr [] \<and> ListManagedVolumes D (teardownAll D d) = Inr [] \<and>
    purgeCmd D d = (teardownAll D d, length cs, length vs)"
proof -
  let ?d = "removeContainers D cs d"
  have r: "good ?d" "ListManaged D ?d = Inr []" "ListManagedVolumes D ?d = Inr vs"
    using container_inventory.removeContainers_list [OF D(1) D(3) D(2) l(1), of cs] l(2) by (auto simp: filter_empty_conv)
  have v: "ListManagedVolumes D (removeVolumes D vs ?d) = Inr []" "ListManaged D (removeVolumes D vs ?d) = Inr []"
    using container_inventory.removeVolumes_list [OF D(1) D(4) r(1,3), of vs] r(2) by (auto simp: filter_empty_conv)
  have t: "teardownAll D d = removeVolumes D vs ?d" using l r(3) by (simp add: teardownAll_def)
  show ?thesis using v l r(3) by (simp add: t purgeCmd_def)
qed

section \<open>Garbage collection\<close>

text \<open>C40: the garbage collection command takes every error of the API server for a missing sandbox: while the server cannot be
  reached, it removes every managed container that belongs to a sandbox, the live ones included.\<close>

theorem gc_unreachable_removes_all:
  assumes D: "container_inventory D good hv" "good d" "\<And>i d. snd (RemoveContainer D i d) = None"
    and l: "ListManaged D d = Inr cs" and down: "\<And>ns nm. \<exists>e. apiGet ns nm = Inl e"
  shows "\<exists>d' n. gcCmd D apiGet False d = (d', Inr n) \<and> ListManaged D d' = Inr (filter (\<lambda>c. ciID c \<notin> ciID ` {c \<in> set cs. ci_Sandbox c \<noteq> ''''}) cs)"
proof -
  have "\<not> (case apiGet ns nm of Inl _ \<Rightarrow> False | Inr _ \<Rightarrow> True)" for ns nm using down [of ns nm] by auto
  then have "gcLoop D apiGet False cs d n = (removeContainers D (filter (\<lambda>c. ci_Sandbox c \<noteq> '''') cs) d, n + int (length (filter (\<lambda>c. ci_Sandbox c \<noteq> '''') cs)))" for n d cs
    by (induction cs arbitrary: d n) auto
  then show ?thesis
    using container_inventory.removeContainers_list [OF D(1) D(3) D(2) l, of "filter (\<lambda>c. ci_Sandbox c \<noteq> '''') cs"]
    by (simp add: gcCmd_def l)
qed

section \<open>Virtual router objects\<close>

text \<open>One of the three objects: it exists afterwards, and objects of other resources are left alone.\<close>

lemma ensured:
  assumes s': "(case Get g ns nm s of Inr _ \<Rightarrow> Some s | Inl _ \<Rightarrow> vrouter_create L g ob s) = Some s'"
    and g: "resources s g = Some rm" "rmNamespaced rm" and ob: "namespace ob = ns" "name ob = nm" "nm \<noteq> []"
  shows "resources s' = resources s \<and> (\<exists>u. Get g ns nm s' = Inr u) \<and> (\<forall>g' k. g' \<noteq> g \<longrightarrow> view s' (g', k) = view s (g', k))"
proof (cases "Get g ns nm s")
  case (Inr u)
  then show ?thesis using s' by auto
next
  case (Inl e)
  then have free: "lookup s g (key True ns nm) = None" using g by (auto simp: Get_def meta_def split: option.splits)
  have "Create L g ob s = Some (createNamed L g rm ob s)" using ob g by (simp add: Create_def meta_def Let_def)
  moreover obtain s1 x where cn: "createNamed L g rm ob s = (s1, x)" by fastforce
  ultimately have s1: "s1 = s'" using s' Inl by (simp add: vrouter_create_def)
  obtain ob' where x: "x = Inr ob'"
    using cn free ob g by (cases x) (auto dest: createNamed_err(3))
  note c = createNamed_ok [OF cn [unfolded x s1] g(1)]
  have "resources s' = resources s" using c(1) by (simp add: commits_def)
  moreover have "lookup s' g (key True ns nm) = Some ob'" using c(3) ob g by (simp add: view_apply [symmetric])
  ultimately show ?thesis using c(3) g by (simp add: Get_def meta_def)
qed

lemma ensures_some:
  assumes "resources s g = Some rm" "rmNamespaced rm" "name ob \<noteq> []"
  shows "\<exists>s'. (case Get g ns nm s of Inr _ \<Rightarrow> Some s | Inl _ \<Rightarrow> vrouter_create L g ob s) = Some s'"
  using assms by (simp add: vrouter_create_def Create_def meta_def Let_def split: sum.split)

lemma Get_kept:
  assumes "resources s' = resources s" "\<forall>k. view s' (g, k) = view s (g, k)"
  shows "Get g ns nm s' = Get g ns nm s"
  using assms by (simp add: Get_def meta_def view_apply split: option.split)

text \<open>C24: materialising the virtual router in a namespace always ends with its pod, its service and its endpoint slice stored there,
  whichever were there before, and doing it again changes nothing.\<close>

theorem virtual_router_idempotent:
  assumes reg: "\<And>g. g \<in> {PodGVR, ServiceGVR, EndpointSliceGVR} \<Longrightarrow> \<exists>rm. resources s g = Some rm \<and> rmNamespaced rm"
    and conv: "vrPod V routerPod = Inr (psp, pst)" "vrService V routerService = Inr (ssp, sst)" "vrEndpointSlice V (routerEndpointSlice ns) = Inr z"
  shows "\<exists>s' p v e. EnsureNamespace L V ns s = Some s' \<and> Get PodGVR ns PodName s' = Inr p \<and> Get ServiceGVR ns ServiceName s' = Inr v \<and>
    Get EndpointSliceGVR ns (ServiceName @ ''-1'') s' = Inr e \<and> EnsureNamespace L V ns s' = Some s'"
proof -
  note ne = PodName_def ServiceName_def
  note apart = PodGVR_def ServiceGVR_def EndpointSliceGVR_def
  from reg [of PodGVR] obtain rp where rp: "resources s PodGVR = Some rp" "rmNamespaced rp" by auto
  from reg [of ServiceGVR] obtain rs where rs: "resources s ServiceGVR = Some rs" "rmNamespaced rs" by auto
  from reg [of EndpointSliceGVR] obtain re where re: "resources s EndpointSliceGVR = Some re" "rmNamespaced re" by auto
  have "\<exists>s1. ensurePod L V ns s = Some s1"
    unfolding ensurePod_def conv sum.case prod.case by (rule ensures_some [OF rp]) (simp add: ne)
  then obtain s1 where s1: "ensurePod L V ns s = Some s1" by blast
  have e1: "resources s1 = resources s \<and> (\<exists>u. Get PodGVR ns PodName s1 = Inr u)"
    using ensured [OF s1 [unfolded ensurePod_def conv sum.case prod.case] rp] by (simp add: ne)
  have "\<exists>s2. ensureService L V ns s1 = Some s2"
    unfolding ensureService_def conv sum.case prod.case by (rule ensures_some [of _ _ rs]) (use e1 rs in \<open>simp_all add: ne\<close>)
  then obtain s2 where s2: "ensureService L V ns s1 = Some s2" by blast
  have e2: "resources s2 = resources s1 \<and> (\<exists>u. Get ServiceGVR ns ServiceName s2 = Inr u) \<and> (\<forall>g' k. g' \<noteq> ServiceGVR \<longrightarrow> view s2 (g', k) = view s1 (g', k))"
    using ensured [OF s2 [unfolded ensureService_def conv sum.case prod.case], of rs] e1 rs by (simp add: ne)
  have "\<exists>s3. ensureEndpointSlice L V ns s2 = Some s3"
    unfolding ensureEndpointSlice_def conv sum.case Let_def by (rule ensures_some [of _ _ re]) (use e1 e2 re in \<open>simp_all add: ne\<close>)
  then obtain s3 where s3: "ensureEndpointSlice L V ns s2 = Some s3" by blast
  have e3: "resources s3 = resources s2 \<and> (\<exists>u. Get EndpointSliceGVR ns (ServiceName @ ''-1'') s3 = Inr u) \<and>
      (\<forall>g' k. g' \<noteq> EndpointSliceGVR \<longrightarrow> view s3 (g', k) = view s2 (g', k))"
    using ensured [OF s3 [unfolded ensureEndpointSlice_def conv sum.case Let_def], of re] e1 e2 re by (simp add: ne)
  have g: "Get PodGVR ns PodName s3 = Get PodGVR ns PodName s1" "Get ServiceGVR ns ServiceName s3 = Get ServiceGVR ns ServiceName s2"
    using e2 e3 by (auto intro!: Get_kept simp: apart)
  then obtain p v e where "Get PodGVR ns PodName s3 = Inr p" "Get ServiceGVR ns ServiceName s3 = Inr v" "Get EndpointSliceGVR ns (ServiceName @ ''-1'') s3 = Inr e"
    using e1 e2 e3 by auto
  moreover from this have "EnsureNamespace L V ns s3 = Some s3"
    by (simp add: EnsureNamespace_def ensurePod_def ensureService_def ensureEndpointSlice_def)
  moreover have "EnsureNamespace L V ns s = Some s3" by (simp add: EnsureNamespace_def s1 s2 s3)
  ultimately show ?thesis by blast
qed

text \<open>The default template and the default pool exist after the start has created them, and creating them again changes nothing.\<close>

theorem bootstrap_idempotent:
  assumes reg: "\<And>g. g \<in> {TemplateGVR, WarmPoolGVR} \<Longrightarrow> \<exists>rm. resources s g = Some rm \<and> rmNamespaced rm"
    and conv: "encTemplate B (bootstrapTemplate cfg) = Inr (tsp, tst)" "encPool B \<lparr>wpReplicas = Some 0, wpTemplateRef = ''default''\<rparr> = Inr (psp, pst)"
  shows "\<exists>s' t p. bootstrapObjects L B cfg s = Some s' \<and> Get TemplateGVR ''default'' ''default'' s' = Inr t \<and>
    Get WarmPoolGVR ''default'' ''default'' s' = Inr p \<and> bootstrapObjects L B cfg s' = Some s'"
proof -
  note one = bootstrapOne_def sum.case prod.case vrouter_create_def [symmetric]
  from reg [of TemplateGVR] obtain rt where rt: "resources s TemplateGVR = Some rt" "rmNamespaced rt" by auto
  from reg [of WarmPoolGVR] obtain rw where rw: "resources s WarmPoolGVR = Some rw" "rmNamespaced rw" by auto
  have "\<exists>s1. bootstrapOne L TemplateGVR ''SandboxTemplate'' (Inr (tsp, tst)) s = Some s1"
    unfolding one by (rule ensures_some [OF rt]) simp
  then obtain s1 where s1: "bootstrapOne L TemplateGVR ''SandboxTemplate'' (Inr (tsp, tst)) s = Some s1" by blast
  have e1: "resources s1 = resources s \<and> (\<exists>u. Get TemplateGVR ''default'' ''default'' s1 = Inr u)"
    using ensured [OF s1 [unfolded one] rt] by simp
  have "\<exists>s2. bootstrapOne L WarmPoolGVR ''SandboxWarmPool'' (Inr (psp, pst)) s1 = Some s2"
    unfolding one by (rule ensures_some [of _ _ rw]) (use e1 rw in simp_all)
  then obtain s2 where s2: "bootstrapOne L WarmPoolGVR ''SandboxWarmPool'' (Inr (psp, pst)) s1 = Some s2" by blast
  have e2: "resources s2 = resources s1 \<and> (\<exists>u. Get WarmPoolGVR ''default'' ''default'' s2 = Inr u) \<and> (\<forall>g' k. g' \<noteq> WarmPoolGVR \<longrightarrow> view s2 (g', k) = view s1 (g', k))"
    using ensured [OF s2 [unfolded one], of rw] e1 rw by simp
  then have "Get TemplateGVR ''default'' ''default'' s2 = Get TemplateGVR ''default'' ''default'' s1"
    by (intro Get_kept) (simp_all add: TemplateGVR_def WarmPoolGVR_def)
  then obtain t p where "Get TemplateGVR ''default'' ''default'' s2 = Inr t" "Get WarmPoolGVR ''default'' ''default'' s2 = Inr p" using e1 e2 by auto
  moreover from this have "bootstrapObjects L B cfg s2 = Some s2" by (simp add: bootstrapObjects_def bootstrapOne_def)
  moreover have "bootstrapObjects L B cfg s = Some s2" by (simp add: bootstrapObjects_def conv s1 s2)
  ultimately show ?thesis by blast
qed

text \<open>Witness: the sample store, where every resource of the virtual router is registered.\<close>

definition sample_vrouter :: "tree vrouterlib" where
  "sample_vrouter = \<lparr>vrPod = (\<lambda>_. Inr (TSandbox 1, TSandbox 1)), vrService = (\<lambda>_. Inr (TSandbox 1, TSandbox 1)), vrEndpointSlice = (\<lambda>_. Inr Map.empty)\<rparr>"

definition router_store :: "(tree, unit) store" where
  "router_store = foldl (\<lambda>s g. Register g True s) sample_empty [PodGVR, ServiceGVR, EndpointSliceGVR]"

lemma router_registered:
  assumes "g \<in> {PodGVR, ServiceGVR, EndpointSliceGVR}"
  shows "\<exists>rm. resources router_store g = Some rm \<and> rmNamespaced rm"
  using assms by (auto simp: router_store_def Register_def)

theorem virtual_router_idempotent_witness:
  "\<exists>s' p v e. EnsureNamespace sample_wlib sample_vrouter ''default'' router_store = Some s' \<and> Get PodGVR ''default'' PodName s' = Inr p \<and>
    Get ServiceGVR ''default'' ServiceName s' = Inr v \<and> Get EndpointSliceGVR ''default'' (ServiceName @ ''-1'') s' = Inr e \<and>
    EnsureNamespace sample_wlib sample_vrouter ''default'' s' = Some s'"
  by (rule virtual_router_idempotent [OF router_registered]) (simp_all add: sample_vrouter_def)

section \<open>Witnesses on the in-memory driver\<close>

lemma busy_driver_listed: "fake_listed busy_driver"
  using busy_driver_good by (simp add: fake_listed_def busy_driver_def fake_Create_def NewFakeDriver_def Let_def split: prod.split)

lemma busy_lists: "\<exists>c. ListManaged fakeDriver busy_driver = Inr [c] \<and> ci_Namespace c = ''d'' \<and> ci_Sandbox c = ''b''"
  by (simp add: busy_driver_def fake_ListManaged_def fake_Create_def NewFakeDriver_def sample_cs_def Let_def ci_Namespace_def ci_Sandbox_def
      map_get_def LabelManaged_def LabelNamespace_def LabelSandbox_def LabelUID_def split: prod.split)

lemma busy_volumes: "ListManagedVolumes fakeDriver busy_driver = Inr []"
  by (simp add: busy_driver_def fake_ListVolumes_def fake_Create_def NewFakeDriver_def Let_def split: prod.split)

lemma sample_empty_lost: "ci_Namespace c = ''d'' \<Longrightarrow> ci_Sandbox c = ''b'' \<Longrightarrow> lost sample_empty c"
  by (simp add: lost_def Get_def meta_def sample_empty_def Register_def store_New_def lookup_def split: option.split)

lemmas fake_removes = fake_Remove_def fake_RemoveVolume_def

theorem boot_removes_orphans_witness:
  "ListManaged fakeDriver (bootAdoption fakeDriver sample_empty busy_driver) = Inr [] \<and>
   ListManagedVolumes fakeDriver (bootAdoption fakeDriver sample_empty busy_driver) = Inr []"
proof -
  obtain c where c: "ListManaged fakeDriver busy_driver = Inr [c]" "ci_Namespace c = ''d''" "ci_Sandbox c = ''b''" using busy_lists by blast
  have "inj_on ciID (set [c])" by simp
  then show ?thesis
    using boot_removes_orphans [OF fake_inv.container_inventory_axioms busy_driver_listed _ c(1), of sample_empty] sample_empty_lost [OF c(2,3)]
    by (simp add: busy_volumes [simplified] fake_removes)
qed

theorem teardown_leaves_nothing_witness:
  "ListManaged fakeDriver (teardownAll fakeDriver busy_driver) = Inr [] \<and> ListManagedVolumes fakeDriver (teardownAll fakeDriver busy_driver) = Inr [] \<and>
   purgeCmd fakeDriver busy_driver = (teardownAll fakeDriver busy_driver, 1, 0)"
proof -
  obtain c where c: "ListManaged fakeDriver busy_driver = Inr [c]" using busy_lists by blast
  show ?thesis
    using teardown_leaves_nothing [OF fake_inv.container_inventory_axioms busy_driver_listed _ _ c busy_volumes] by (simp add: fake_removes)
qed

theorem gc_unreachable_removes_all_witness:
  "\<exists>d' n. gcCmd fakeDriver (\<lambda>ns nm. Inl ''connection refused'' :: string + tree obj) False busy_driver = (d', Inr n) \<and> ListManaged fakeDriver d' = Inr []"
proof -
  obtain c where c: "ListManaged fakeDriver busy_driver = Inr [c]" "ci_Sandbox c = ''b''" using busy_lists by blast
  show ?thesis
    using gc_unreachable_removes_all [OF fake_inv.container_inventory_axioms busy_driver_listed _ c(1), of "\<lambda>ns nm. Inl ''connection refused'' :: string + tree obj"] c(2)
    by (simp add: fake_removes)
qed

end
