(* ===== verification/DockerProps.thy ===== *)
theory DockerProps
  imports Docker AppProps
begin

text \<open>
  The Docker driver meets the contract the loops and the commands rely on, on an engine that behaves as documented. The
  documented behaviour is stated over two views of the engine's state: its containers, newest first, and its volumes.
\<close>

section \<open>The engine\<close>

text \<open>A label filter is a key and a value, or a key alone.\<close>

definition label_holds :: "(string \<rightharpoonup> string) \<Rightarrow> string \<times> string \<Rightarrow> bool" where
  "label_holds ls f = (case SplitN2 (snd f) CHR ''='' of [] \<Rightarrow> True | [k] \<Rightarrow> ls k \<noteq> None | k # v # _ \<Rightarrow> ls k = Some v)"

text \<open>A call about one container leaves the others as they are, and keeps its identity.\<close>

definition same_but :: "string \<Rightarrow> ContainerJSON list \<Rightarrow> ContainerJSON list \<Rightarrow> bool" where
  "same_but i = list_all2 (\<lambda>j j'. cjID j' = cjID j \<and> cjLabels j' = cjLabels j \<and> (cjID j \<noteq> i \<longrightarrow> j' = j))"

text \<open>Reading: the engine answers, a listing gives the identifiers of the containers that match, newest first.\<close>

definition engine_reads :: "'d DockerClient \<Rightarrow> ('d \<Rightarrow> ContainerJSON list) \<Rightarrow> ('d \<Rightarrow> DockerVolume list) \<Rightarrow> bool" where
  "engine_reads C conts vols \<longleftrightarrow> (\<forall>d. distinct (map cjID (conts d)) \<and>
     (\<forall>fs. clContainerList C fs d = Inr (map cjID (filter (\<lambda>j. \<forall>f \<in> set fs. label_holds (cjLabels j) f) (conts d)))) \<and>
     (\<forall>j \<in> set (conts d). clContainerInspect C (cjID j) d = Inr j) \<and>
     (\<forall>fs. clVolumeList C fs d = Inr (filter (\<lambda>v. \<forall>f \<in> set fs. label_holds (dvLabels v) f) (vols d))))"

text \<open>Creating puts a container with the given labels in front; the volumes it mounts may be created with it.\<close>

definition engine_creates :: "'d DockerClient \<Rightarrow> ('d \<Rightarrow> ContainerJSON list) \<Rightarrow> ('d \<Rightarrow> DockerVolume list) \<Rightarrow> bool" where
  "engine_creates C conts vols \<longleftrightarrow> (\<forall>cfg h nm d d' r. clContainerCreate C cfg h nm d = (d', r) \<longrightarrow> set (vols d) \<subseteq> set (vols d') \<and>
     (case r of Inl _ \<Rightarrow> conts d' = conts d | Inr i \<Rightarrow> \<exists>j. conts d' = j # conts d \<and> cjID j = i \<and> cjLabels j = dcLabels cfg))"

definition engine_runs :: "'d DockerClient \<Rightarrow> ('d \<Rightarrow> ContainerJSON list) \<Rightarrow> ('d \<Rightarrow> DockerVolume list) \<Rightarrow> bool" where
  "engine_runs C conts vols \<longleftrightarrow> (\<forall>i d. \<forall>d' \<in> {fst (clContainerStart C i d), fst (clContainerStop C i d), clContainerWait C i d}.
     same_but i (conts d) (conts d') \<and> vols d' = vols d)"

definition engine_removes :: "'d DockerClient \<Rightarrow> ('d \<Rightarrow> ContainerJSON list) \<Rightarrow> ('d \<Rightarrow> DockerVolume list) \<Rightarrow> bool" where
  "engine_removes C conts vols \<longleftrightarrow> (\<forall>i d d' e. clContainerRemove C i d = (d', e) \<longrightarrow> vols d' = vols d \<and>
     (case e of None \<Rightarrow> conts d' = filter (\<lambda>j. cjID j \<noteq> i) (conts d)
      | Some err \<Rightarrow> conts d' = conts d \<and> (IsErrNotFound err \<longrightarrow> i \<notin> cjID ` set (conts d))))"

definition engine_volumes :: "'d DockerClient \<Rightarrow> ('d \<Rightarrow> ContainerJSON list) \<Rightarrow> ('d \<Rightarrow> DockerVolume list) \<Rightarrow> bool" where
  "engine_volumes C conts vols \<longleftrightarrow>
     (\<forall>nm ls d d' r. clVolumeCreate C nm ls d = (d', r) \<longrightarrow> conts d' = conts d \<and>
        (case r of Inl _ \<Rightarrow> vols d' = vols d | Inr _ \<Rightarrow> dvName ` set (vols d') = insert nm (dvName ` set (vols d)))) \<and>
     (\<forall>nm d d' e. clVolumeRemove C nm d = (d', e) \<longrightarrow> conts d' = conts d \<and>
        (case e of None \<Rightarrow> vols d' = filter (\<lambda>v. dvName v \<noteq> nm) (vols d)
         | Some err \<Rightarrow> vols d' = vols d \<and> (IsErrNotFound err \<longrightarrow> nm \<notin> dvName ` set (vols d))))"

definition engine_images :: "'d DockerClient \<Rightarrow> ('d \<Rightarrow> ContainerJSON list) \<Rightarrow> ('d \<Rightarrow> DockerVolume list) \<Rightarrow> bool" where
  "engine_images C conts vols \<longleftrightarrow> (\<forall>ref tag tb d. \<forall>d' \<in> {fst (clImagePull C ref d), fst (clImageBuild C tag tb d)}. conts d' = conts d \<and> vols d' = vols d)"

definition docker_engine :: "'d DockerClient \<Rightarrow> ('d \<Rightarrow> ContainerJSON list) \<Rightarrow> ('d \<Rightarrow> DockerVolume list) \<Rightarrow> bool" where
  "docker_engine C conts vols \<longleftrightarrow> engine_reads C conts vols \<and> engine_creates C conts vols \<and> engine_runs C conts vols \<and>
     engine_removes C conts vols \<and> engine_volumes C conts vols \<and> engine_images C conts vols"

text \<open>Removals by force do not fail, except for what is already gone.\<close>

definition removes_all :: "'d DockerClient \<Rightarrow> bool" where
  "removes_all C \<longleftrightarrow> (\<forall>i d d' err. clContainerRemove C i d = (d', Some err) \<longrightarrow> IsErrNotFound err)"

section \<open>Reading\<close>

definition of_sandbox :: "string \<Rightarrow> string \<Rightarrow> ContainerJSON \<Rightarrow> bool" where
  "of_sandbox ns nm j \<longleftrightarrow> cjLabels j LabelManaged = Some ''true'' \<and> cjLabels j LabelNamespace = Some ns \<and> cjLabels j LabelSandbox = Some nm"

definition is_managed :: "(string \<rightharpoonup> string) \<Rightarrow> bool" where
  "is_managed ls \<longleftrightarrow> ls LabelManaged = Some ''true''"

lemma label_holds_kv: "CHR ''='' \<notin> set k \<Longrightarrow> label_holds ls (x, k @ CHR ''='' # v) \<longleftrightarrow> ls k = Some v"
  by (simp add: label_holds_def SplitN2_key)

lemma label_holds_simps:
  "label_holds ls (x, LabelManaged @ ''=true'') \<longleftrightarrow> ls LabelManaged = Some ''true''"
  "label_holds ls (x, LabelNamespace @ ''='' @ v) \<longleftrightarrow> ls LabelNamespace = Some v"
  "label_holds ls (x, LabelSandbox @ ''='' @ v) \<longleftrightarrow> ls LabelSandbox = Some v"
  using label_holds_kv [of LabelManaged ls x "''true''"] label_holds_kv [of LabelNamespace ls x v] label_holds_kv [of LabelSandbox ls x v]
  by (simp_all add: label_defs)

lemma inspect_listed:
  assumes "docker_engine C conts vols" "j \<in> set (conts d)"
  shows "docker_inspect C (cjID j) d = Inr (infoOf C j)"
  using assms by (simp add: docker_engine_def engine_reads_def docker_inspect_def)

lemma docker_InspectSandbox_eq:
  assumes "docker_engine C conts vols"
  shows "docker_InspectSandbox C ns nm d = (case filter (of_sandbox ns nm) (conts d) of [] \<Rightarrow> Inl ErrNotFound | j # _ \<Rightarrow> Inr (infoOf C j))"
proof -
  have "clContainerList C (managedFilter @ [(''label'', LabelNamespace @ ''='' @ ns), (''label'', LabelSandbox @ ''='' @ nm)]) d =
      Inr (map cjID (filter (of_sandbox ns nm) (conts d)))"
    using assms by (auto simp: docker_engine_def engine_reads_def managedFilter_def of_sandbox_def label_holds_simps [simplified] intro!: arg_cong [where f = "map cjID"] filter_cong)
  moreover have "filter (of_sandbox ns nm) (conts d) = j # js \<Longrightarrow> j \<in> set (conts d)" for j js
    by (metis filter_is_subset list.set_intros(1) subsetD)
  ultimately show ?thesis
    using inspect_listed [OF assms] by (auto simp: docker_InspectSandbox_def split: list.split)
qed

lemma inspectAll_eq:
  assumes "docker_engine C conts vols" "set js \<subseteq> set (conts d)"
  shows "inspectAll C (map cjID js) d = map (infoOf C) js"
  using assms(2) by (induction js) (simp_all add: inspect_listed [OF assms(1)])

lemma docker_ListManaged_eq:
  assumes "docker_engine C conts vols"
  shows "docker_ListManaged C d = Inr (map (infoOf C) (filter (\<lambda>j. is_managed (cjLabels j)) (conts d)))"
proof -
  have "clContainerList C managedFilter d = Inr (map cjID (filter (\<lambda>j. is_managed (cjLabels j)) (conts d)))"
    using assms by (simp add: docker_engine_def engine_reads_def managedFilter_def is_managed_def label_holds_simps)
  then show ?thesis by (simp add: docker_ListManaged_def inspectAll_eq [OF assms])
qed

lemma docker_ListVolumes_eq:
  assumes "docker_engine C conts vols"
  shows "docker_ListVolumes C d = Inr (map volumeSpecOf (filter (\<lambda>v. is_managed (dvLabels v)) (vols d)))"
  using assms by (simp add: docker_engine_def engine_reads_def docker_ListVolumes_def managedFilter_def is_managed_def label_holds_simps)

section \<open>Creating and removing\<close>

lemma engine_distinct: "docker_engine C conts vols \<Longrightarrow> distinct (map cjID (conts d))"
  by (simp add: docker_engine_def engine_reads_def)

text \<open>A call about the newest container changes nothing behind it.\<close>

lemma same_but_head:
  assumes "same_but i (j # xs) ys" "cjID j = i" "i \<notin> cjID ` set xs"
  shows "\<exists>j'. ys = j' # xs \<and> cjID j' = i \<and> cjLabels j' = cjLabels j"
proof -
  from assms(1) obtain j' ys' where ys: "ys = j' # ys'" "cjID j' = cjID j" "cjLabels j' = cjLabels j" "same_but i xs ys'"
    by (auto simp: same_but_def list_all2_Cons1)
  have "list_all2 (=) xs ys'"
    using ys(4) assms(3) unfolding same_but_def by (elim list.rel_mono_strong) auto
  then show ?thesis using ys assms(2) by (auto simp: list.rel_eq)
qed

text \<open>A container that was created and started stands in front of the others; removing it leaves them.\<close>

lemma created:
  assumes E: "docker_engine C conts vols" and c: "clContainerCreate C cfg h nm d = (d1, Inr i)"
  shows "\<exists>j. conts d1 = j # conts d \<and> cjID j = i \<and> cjLabels j = dcLabels cfg \<and> i \<notin> cjID ` set (conts d)" "set (vols d) \<subseteq> set (vols d1)"
proof -
  from E c obtain j where j: "conts d1 = j # conts d" "cjID j = i" "cjLabels j = dcLabels cfg" and v: "set (vols d) \<subseteq> set (vols d1)"
    by (fastforce simp: docker_engine_def engine_creates_def)
  have "i \<notin> cjID ` set (conts d)" using engine_distinct [OF E, of d1] j by simp
  with j show "\<exists>j. conts d1 = j # conts d \<and> cjID j = i \<and> cjLabels j = dcLabels cfg \<and> i \<notin> cjID ` set (conts d)" by blast
  show "set (vols d) \<subseteq> set (vols d1)" by (rule v)
qed

lemma create_failed:
  assumes "docker_engine C conts vols" "clContainerCreate C cfg h nm d = (d1, Inl e)"
  shows "conts d1 = conts d" "set (vols d) \<subseteq> set (vols d1)"
  using assms by (fastforce simp: docker_engine_def engine_creates_def)+

lemma ran:
  assumes E: "docker_engine C conts vols" and d: "d' \<in> {fst (clContainerStart C i d), fst (clContainerStop C i d), clContainerWait C i d}"
    and j: "conts d = j # xs" "cjID j = i" "i \<notin> cjID ` set xs"
  shows "\<exists>j'. conts d' = j' # xs \<and> cjID j' = i \<and> cjLabels j' = cjLabels j" "vols d' = vols d"
proof -
  have r: "same_but i (conts d) (conts d')" "vols d' = vols d" using E d by (auto simp: docker_engine_def engine_runs_def)
  show "\<exists>j'. conts d' = j' # xs \<and> cjID j' = i \<and> cjLabels j' = cjLabels j" using same_but_head [of i j xs] r(1) j by simp
  show "vols d' = vols d" by (rule r(2))
qed

lemma filter_other: "i \<notin> f ` set xs \<Longrightarrow> filter (\<lambda>x. f x \<noteq> i) xs = xs"
  by (auto simp: filter_id_conv)

lemma removes:
  assumes E: "docker_engine C conts vols" "removes_all C"
  shows "conts (fst (clContainerRemove C i d)) = filter (\<lambda>j. cjID j \<noteq> i) (conts d)" "vols (fst (clContainerRemove C i d)) = vols d"
proof -
  obtain d' e where r: "clContainerRemove C i d = (d', e)" by fastforce
  show "vols (fst (clContainerRemove C i d)) = vols d" using E(1) r by (simp add: docker_engine_def engine_removes_def)
  show "conts (fst (clContainerRemove C i d)) = filter (\<lambda>j. cjID j \<noteq> i) (conts d)"
  proof (cases e)
    case None
    then show ?thesis using E(1) r by (fastforce simp: docker_engine_def engine_removes_def)
  next
    case (Some err)
    then have "conts d' = conts d" "i \<notin> cjID ` set (conts d)"
      using E r by (fastforce simp: docker_engine_def engine_removes_def removes_all_def)+
    then show ?thesis using r by (simp add: filter_other)
  qed
qed

lemma remove_newest:
  assumes "docker_engine C conts vols" "removes_all C" "conts d = j # xs" "cjID j = i" "i \<notin> cjID ` set xs"
  shows "conts (fst (clContainerRemove C i d)) = xs"
  using removes(1) [OF assms(1,2), of i d] assms(3-5) by (simp add: filter_other)

text \<open>The container that prepares the volumes is gone when the sandbox's container is created.\<close>

lemma prepareVolumePermissions_leaves:
  assumes E: "docker_engine C conts vols" "removes_all C"
  shows "conts (prepareVolumePermissions C cs mounts d) = conts d \<and> set (vols d) \<subseteq> set (vols (prepareVolumePermissions C cs mounts d))"
proof -
  have step: "conts d' = conts d \<and> set (vols d) \<subseteq> set (vols d')"
    if c: "clContainerCreate C cfg h nm d = (d1, Inr i)" and s: "clContainerStart C i d1 = (d2, e)"
      and d': "d' = fst (clContainerRemove C i d2) \<or> d' = fst (clContainerRemove C i (clContainerWait C i d2))" for cfg h nm d1 i d2 e d'
  proof -
    from created [OF E(1) c] obtain j where j: "conts d1 = j # conts d" "cjID j = i" "i \<notin> cjID ` set (conts d)" "set (vols d) \<subseteq> set (vols d1)" by blast
    obtain j2 where j2: "conts d2 = j2 # conts d" "cjID j2 = i" "vols d2 = vols d1" using ran [OF E(1) _ j(1-3), of d2] s by auto
    obtain j3 where j3: "conts (clContainerWait C i d2) = j3 # conts d" "cjID j3 = i" "vols (clContainerWait C i d2) = vols d1"
      using ran [OF E(1) _ j2(1,2) j(3)] j2(3) by auto
    show ?thesis
      using d' remove_newest [OF E j2(1,2) j(3)] remove_newest [OF E j3(1,2) j(3)] removes(2) [OF E] j2(3) j3(3) j(4) by auto
  qed
  show ?thesis
    unfolding prepareVolumePermissions_def Let_def
    by (auto split: prod.split sum.split option.split dest: create_failed [OF E(1)] step)
qed

text \<open>Creating either fails and leaves the containers as they were, or puts the sandbox's container in front.\<close>

lemma docker_Create_cases:
  assumes E: "docker_engine C conts vols" "removes_all C" and c: "docker_Create C cs d = (d', r)"
  shows "set (vols d) \<subseteq> set (vols d')" "(\<exists>e. r = Inl e) \<and> conts d' = conts d \<or>
    (\<exists>j. r = Inr (infoOf C j) \<and> conts d' = j # conts d \<and> cjLabels j = identityLabels cs)"
proof -
  have "set (vols d) \<subseteq> set (vols d') \<and> ((\<exists>e. r = Inl e) \<and> conts d' = conts d \<or>
    (\<exists>j. r = Inr (infoOf C j) \<and> conts d' = j # conts d \<and> cjLabels j = identityLabels cs))"
  proof (cases "bindPorts C (csRuntimePorts cs) Map.empty Map.empty")
    case (Inl e)
    then show ?thesis using c by (auto simp: docker_Create_def)
  next
    case (Inr eb)
    obtain ex bs where eb: "eb = (ex, bs)" by fastforce
    define mounts where "mounts = concat (map dockerMount (csMounts cs))"
    define d1 where "d1 = prepareVolumePermissions C cs mounts d"
    have d1: "conts d1 = conts d" "set (vols d) \<subseteq> set (vols d1)" using prepareVolumePermissions_leaves [OF E] by (auto simp: d1_def)
    obtain d2 x where x: "clContainerCreate C (dockerConfig C cs ex) (dockerHost cs bs mounts) (containerName (csNamespace cs) (csSandboxName cs) (csUID cs)) d1 = (d2, x)"
      by fastforce
    note c' = c [unfolded docker_Create_def Inr eb sum.case prod.case, folded mounts_def, unfolded Let_def, folded d1_def, unfolded x prod.case]
    show ?thesis
    proof (cases x)
      case e: (Inl e)
      then show ?thesis using create_failed [OF E(1) x [unfolded e]] d1 c' by auto
    next
      case i: (Inr i)
      from created [OF E(1) x [unfolded i]] d1 obtain j where j: "conts d2 = j # conts d" "cjID j = i" "cjLabels j = identityLabels cs" "i \<notin> cjID ` set (conts d)"
        and v: "set (vols d) \<subseteq> set (vols d2)" by (auto simp: dockerConfig_def)
      obtain d3 y where y: "clContainerStart C i d2 = (d3, y)" by fastforce
      obtain j3 where j3: "conts d3 = j3 # conts d" "cjID j3 = i" "cjLabels j3 = identityLabels cs" "vols d3 = vols d2"
        using ran [OF E(1) _ j(1,2,4), of d3] y j(3) by auto
      show ?thesis
        using c' y v j3 remove_newest [OF E j3(1,2) j(4)] removes(2) [OF E, of i d3] inspect_listed [OF E(1), of j3 d3]
        by (cases y) (auto simp: i)
    qed
  qed
  then show "set (vols d) \<subseteq> set (vols d')" "(\<exists>e. r = Inl e) \<and> conts d' = conts d \<or>
    (\<exists>j. r = Inr (infoOf C j) \<and> conts d' = j # conts d \<and> cjLabels j = identityLabels cs)" by blast+
qed

lemma docker_Remove_eq:
  assumes E: "docker_engine C conts vols" "removes_all C"
  shows "conts (fst (docker_Remove C i d)) = filter (\<lambda>j. cjID j \<noteq> i) (conts d)" "vols (fst (docker_Remove C i d)) = vols d"
  using removes [OF E, of i d] by (simp_all add: docker_Remove_def case_prod_beta)

section \<open>The contract\<close>

text \<open>The invariant: no sandbox has two containers.\<close>

definition docker_good :: "('d \<Rightarrow> ContainerJSON list) \<Rightarrow> 'd \<Rightarrow> bool" where
  "docker_good conts d \<longleftrightarrow> (\<forall>ns nm. length (filter (of_sandbox ns nm) (conts d)) \<le> 1)"

definition docker_has_volume :: "('d \<Rightarrow> DockerVolume list) \<Rightarrow> 'd \<Rightarrow> string \<Rightarrow> bool" where
  "docker_has_volume vols d n \<longleftrightarrow> n \<in> dvName ` set (vols d)"

lemma docker_good_conts: "docker_good conts d \<Longrightarrow> conts d' = conts d \<Longrightarrow> docker_good conts d'"
  by (simp add: docker_good_def)

lemma docker_good_filter: "docker_good conts d \<Longrightarrow> conts d' = filter P (conts d) \<Longrightarrow> docker_good conts d'"
proof -
  assume good: "docker_good conts d" and d': "conts d' = filter P (conts d)"
  have "length (filter Q (filter P xs)) \<le> length (filter Q xs)" for Q :: "ContainerJSON \<Rightarrow> bool" and xs
    by (induction xs) auto
  then show ?thesis using good unfolding docker_good_def d' by (meson le_trans)
qed

lemma same_but_filter:
  "same_but i xs ys \<Longrightarrow> list_all2 (\<lambda>j j'. cjID j' = cjID j \<and> cjLabels j' = cjLabels j) (filter (of_sandbox ns nm) xs) (filter (of_sandbox ns nm) ys)"
  unfolding same_but_def by (induction rule: list_all2_induct) (auto simp: of_sandbox_def)

lemma docker_Stop_same:
  assumes "docker_engine C conts vols"
  shows "same_but i (conts d) (conts (fst (docker_Stop C i d)))" "vols (fst (docker_Stop C i d)) = vols d"
  using assms by (simp_all add: docker_engine_def engine_runs_def docker_Stop_def case_prod_beta)

lemma docker_stop_good:
  assumes "docker_engine C conts vols" "docker_good conts d"
  shows "docker_good conts (fst (docker_Stop C i d))"
  using assms(2) same_but_filter [OF docker_Stop_same(1) [OF assms(1)], THEN list_all2_lengthD] by (simp add: docker_good_def)

lemma identity_of_sandbox:
  assumes "csLabels cs LabelManaged = None" "csLabels cs LabelNamespace = None" "csLabels cs LabelSandbox = None" "cjLabels j = identityLabels cs"
  shows "of_sandbox ns nm j \<longleftrightarrow> ns = csNamespace cs \<and> nm = csSandboxName cs"
  using assms by (auto simp: of_sandbox_def identityLabels_def map_add_def label_defs)

lemma docker_volumes_eq:
  assumes E: "docker_engine C conts vols"
  shows "conts (fst (docker_EnsureVolume C v d)) = conts d" "conts (fst (docker_RemoveVolume C n d)) = conts d"
    "docker_EnsureVolume C v d = (d', Inr m) \<Longrightarrow> dvName ` set (vols d') = insert (vsName v) (dvName ` set (vols d))"
    "docker_RemoveVolume C n d = (d', None) \<Longrightarrow> vols d' = filter (\<lambda>v. dvName v \<noteq> n) (vols d)"
proof -
  have V: "clVolumeCreate C nm ls d = (d', r) \<Longrightarrow> conts d' = conts d \<and>
      (case r of Inl _ \<Rightarrow> vols d' = vols d | Inr _ \<Rightarrow> dvName ` set (vols d') = insert nm (dvName ` set (vols d)))" for nm ls d d' r
    using E by (simp add: docker_engine_def engine_volumes_def)
  have R: "clVolumeRemove C nm d = (d', e) \<Longrightarrow> conts d' = conts d \<and> (case e of None \<Rightarrow> vols d' = filter (\<lambda>v. dvName v \<noteq> nm) (vols d)
      | Some err \<Rightarrow> vols d' = vols d \<and> (IsErrNotFound err \<longrightarrow> nm \<notin> dvName ` set (vols d)))" for nm d d' e
    using E by (simp add: docker_engine_def engine_volumes_def)
  show "conts (fst (docker_EnsureVolume C v d)) = conts d" by (simp add: docker_EnsureVolume_def V split: prod.split sum.split)
  show "conts (fst (docker_RemoveVolume C n d)) = conts d" by (auto simp: docker_RemoveVolume_def dest: R split: prod.split)
  show "dvName ` set (vols d') = insert (vsName v) (dvName ` set (vols d))" if "docker_EnsureVolume C v d = (d', Inr m)"
  proof -
    have "clVolumeCreate C (vsName v) (volumeLabels v) d = (d', Inr m)" using that by (auto simp: docker_EnsureVolume_def split: prod.splits sum.splits)
    from V [OF this] show ?thesis by simp
  qed
  show "vols d' = filter (\<lambda>v. dvName v \<noteq> n) (vols d)" if r: "docker_RemoveVolume C n d = (d', None)"
  proof -
    obtain e where e: "clVolumeRemove C n d = (d', e)" "unlessNotFound e = None" using r by (auto simp: docker_RemoveVolume_def split: prod.splits)
    then show ?thesis using R [OF e(1)] by (cases e) (simp_all add: unlessNotFound_def filter_other split: if_splits)
  qed
qed

lemma docker_images_eq:
  assumes E: "docker_engine C conts vols"
  shows "conts (fst (docker_EnsureImage C ref pol d)) = conts d" "conts (fst (docker_BuildRuntimeImage C tag dir d)) = conts d"
proof -
  have I: "clImagePull C ref d = (d1, e) \<Longrightarrow> conts d1 = conts d" "clImageBuild C tag tb d = (d2, x) \<Longrightarrow> conts d2 = conts d" for d1 e tb d2 x
    using E unfolding docker_engine_def engine_images_def by (metis fst_conv insertCI)+
  show "conts (fst (docker_EnsureImage C ref pol d)) = conts d" by (auto simp: docker_EnsureImage_def Let_def I(1) split: prod.split option.split)
  show "conts (fst (docker_BuildRuntimeImage C tag dir d)) = conts d"
    by (auto simp: docker_BuildRuntimeImage_def I(2) split: prod.split sum.split)
qed

lemma docker_create_good:
  assumes E: "docker_engine C conts vols" "removes_all C" and g: "docker_good conts d" and p: "placeable (dockerDriver C) cs d"
  shows "docker_good conts (fst (docker_Create C cs d))"
proof -
  obtain d' r where c: "docker_Create C cs d = (d', r)" by fastforce
  have none: "filter (of_sandbox (csNamespace cs) (csSandboxName cs)) (conts d) = []"
    using p docker_InspectSandbox_eq [OF E(1), of "csNamespace cs" "csSandboxName cs" d] by (auto simp: placeable_def split: list.splits)
  show ?thesis
  proof (cases "conts d' = conts d")
    case True
    then show ?thesis using docker_good_conts [OF g] by (simp add: c)
  next
    case False
    then obtain j where j: "conts d' = j # conts d" "cjLabels j = identityLabels cs" using docker_Create_cases(2) [OF E c] by auto
    have "of_sandbox ns nm j \<longleftrightarrow> ns = csNamespace cs \<and> nm = csSandboxName cs" for ns nm
      using identity_of_sandbox [of cs j] p j(2) by (simp add: placeable_def)
    then show ?thesis using g none by (auto simp: docker_good_def c j(1))
  qed
qed

lemma docker_inspect_create:
  assumes E: "docker_engine C conts vols" "removes_all C" and p: "placeable (dockerDriver C) cs d"
  shows "docker_Create C cs d = (d', Inr c) \<Longrightarrow> docker_InspectSandbox C (csNamespace cs) (csSandboxName cs) d' = Inr c"
    "docker_Create C cs d = (d', r) \<Longrightarrow> fkey ns nm \<noteq> fkey (csNamespace cs) (csSandboxName cs) \<Longrightarrow>
      docker_InspectSandbox C ns nm d' = docker_InspectSandbox C ns nm d"
proof -
  have id: "cjLabels j = identityLabels cs \<Longrightarrow> of_sandbox ns nm j \<longleftrightarrow> ns = csNamespace cs \<and> nm = csSandboxName cs" for j ns nm
    using identity_of_sandbox [of cs j] p by (simp add: placeable_def)
  show "docker_InspectSandbox C (csNamespace cs) (csSandboxName cs) d' = Inr c" if "docker_Create C cs d = (d', Inr c)"
    using docker_Create_cases(2) [OF E that] id by (auto simp: docker_InspectSandbox_eq [OF E(1)])
  show "docker_InspectSandbox C ns nm d' = docker_InspectSandbox C ns nm d"
    if "docker_Create C cs d = (d', r)" "fkey ns nm \<noteq> fkey (csNamespace cs) (csSandboxName cs)"
    using docker_Create_cases(2) [OF E that(1)] id that(2) by (auto simp: docker_InspectSandbox_eq [OF E(1)])
qed

lemma docker_inspect_remove:
  assumes E: "docker_engine C conts vols" "removes_all C" and g: "docker_good conts d" and r: "docker_Remove C i d = (d', e)"
  shows "docker_InspectSandbox C ns nm d' = (case docker_InspectSandbox C ns nm d of Inl e \<Rightarrow> Inl e | Inr c \<Rightarrow> if ciID c = i then Inl ErrNotFound else Inr c)"
proof -
  have d': "conts d' = filter (\<lambda>j. cjID j \<noteq> i) (conts d)" using docker_Remove_eq(1) [OF E, of i d] r by simp
  have one: "length (filter (of_sandbox ns nm) (conts d)) \<le> 1" using g by (simp add: docker_good_def)
  have "filter (of_sandbox ns nm) (conts d') = filter (\<lambda>j. cjID j \<noteq> i) (filter (of_sandbox ns nm) (conts d))"
    by (simp add: d' conj_commute)
  then show ?thesis using one
    by (cases "filter (of_sandbox ns nm) (conts d)") (simp_all add: docker_InspectSandbox_eq [OF E(1)] infoOf_def)
qed

lemma docker_inspect_stop:
  assumes E: "docker_engine C conts vols" and i: "docker_InspectSandbox C ns nm d = Inr c"
  shows "\<exists>c'. docker_InspectSandbox C ns nm (fst (docker_Stop C i d)) = Inr c' \<and> ciID c' = ciID c"
proof -
  obtain j js where j: "filter (of_sandbox ns nm) (conts d) = j # js" "c = infoOf C j"
    using i by (auto simp: docker_InspectSandbox_eq [OF E] split: list.splits)
  from same_but_filter [OF docker_Stop_same(1) [OF E, of i d], of ns nm] obtain j' js'
    where "filter (of_sandbox ns nm) (conts (fst (docker_Stop C i d))) = j' # js'" "cjID j' = cjID j"
    unfolding j(1) by (auto simp: list_all2_Cons1)
  then show ?thesis by (simp add: docker_InspectSandbox_eq [OF E] j(2) infoOf_def)
qed

lemma docker_driver:
  assumes E: "docker_engine C conts vols" and R: "removes_all C"
  shows "container_driver (dockerDriver C) (docker_good conts) (docker_has_volume vols)"
proof
  note ER = E R
  fix d d' cs i v n im pol build ctx ns nm c r m
  assume g: "docker_good conts d"
  show "docker_good conts (fst (RemoveContainer (dockerDriver C) i d))" "docker_good conts (fst (StopContainer (dockerDriver C) i d))"
    "docker_good conts (fst (EnsureVolume (dockerDriver C) v d))" "docker_good conts (fst (RemoveVolume (dockerDriver C) n d))"
    "docker_good conts (fst (EnsureImage (dockerDriver C) im pol d))"
    using docker_good_filter [OF g docker_Remove_eq(1) [OF ER]] docker_stop_good [OF E g] docker_good_conts [OF g docker_volumes_eq(1) [OF E]]
      docker_good_conts [OF g docker_volumes_eq(2) [OF E]] docker_good_conts [OF g docker_images_eq(1) [OF E]] by simp_all
  show "docker_good conts (fst (build im ctx d))" if "BuildRuntimeImage (dockerDriver C) = Some build"
    using that docker_good_conts [OF g docker_images_eq(2) [OF E]] by auto
  show "docker_good conts (fst (CreateSandboxContainer (dockerDriver C) cs d))" if "placeable (dockerDriver C) cs d"
    using docker_create_good [OF ER g that] by simp
  show "InspectSandbox (dockerDriver C) (csNamespace cs) (csSandboxName cs) d' = Inr c"
    if "placeable (dockerDriver C) cs d" "CreateSandboxContainer (dockerDriver C) cs d = (d', Inr c)"
    using docker_inspect_create(1) [OF ER that(1)] that(2) by simp
  show "InspectSandbox (dockerDriver C) ns nm d' = InspectSandbox (dockerDriver C) ns nm d"
    if "placeable (dockerDriver C) cs d" "CreateSandboxContainer (dockerDriver C) cs d = (d', r)" "fkey ns nm \<noteq> fkey (csNamespace cs) (csSandboxName cs)"
    using docker_inspect_create(2) [OF ER that(1)] that(2,3) by simp
  show "InspectSandbox (dockerDriver C) ns nm d' =
      (case InspectSandbox (dockerDriver C) ns nm d of Inl e \<Rightarrow> Inl e | Inr c \<Rightarrow> if ciID c = i then Inl ErrNotFound else Inr c)"
    if "RemoveContainer (dockerDriver C) i d = (d', None)"
    using docker_inspect_remove [OF ER g] that by simp
  show "\<exists>c'. InspectSandbox (dockerDriver C) ns nm (fst (StopContainer (dockerDriver C) i d)) = Inr c' \<and> ciID c' = ciID c"
    if "InspectSandbox (dockerDriver C) ns nm d = Inr c"
    using docker_inspect_stop [OF E] that by simp
  show "docker_has_volume vols d' m \<longleftrightarrow> m = vsName v \<or> docker_has_volume vols d m" if "EnsureVolume (dockerDriver C) v d = (d', Inr n)"
    using docker_volumes_eq(3) [OF E] that by (simp add: docker_has_volume_def)
  show "docker_has_volume vols d' m \<longleftrightarrow> m \<noteq> n \<and> docker_has_volume vols d m" if "RemoveVolume (dockerDriver C) n d = (d', None)"
    using docker_volumes_eq(4) [OF E] that by (auto simp: docker_has_volume_def)
  show "docker_has_volume vols (fst (CreateSandboxContainer (dockerDriver C) cs d)) m" if "docker_has_volume vols d m"
    using docker_Create_cases(1) [OF ER, of cs d] that by (cases "docker_Create C cs d") (auto simp: docker_has_volume_def)
qed (simp_all add: docker_InspectSandbox_eq [OF E] docker_volumes_eq [OF E] docker_images_eq [OF E] docker_has_volume_def
      docker_Stop_same(2) [OF E] docker_Remove_eq(2) [OF E R])


section \<open>A leftover preparation container\<close>

text \<open>The container that prepares the volumes carries the labels of the sandbox, so if it cannot be removed it is taken for the sandbox's
  container: a sandbox that has none is found to have one, which carries no sandbox UID, and the loop will not create another.\<close>

theorem leftover_init_container:
  assumes E: "docker_engine C conts vols"
    and stuck: "\<And>i d. \<exists>d' msg. clContainerRemove C i d = (d', Some (CError msg))"
    and works: "\<And>cfg h nm d. \<exists>d' i. clContainerCreate C cfg h nm d = (d', Inr i)"
    and user: "\<not> rootUser (csUser cs)" and vol: "\<exists>m \<in> set mounts. dmType m = TypeVolume \<and> \<not> dmReadOnly m"
  shows "\<exists>c. docker_InspectSandbox C (csNamespace cs) (csSandboxName cs) (prepareVolumePermissions C cs mounts d) = Inr c \<and> ci_UID c = ''''"
proof -
  define vm where "vm = filter (\<lambda>m. dmType m = TypeVolume \<and> \<not> dmReadOnly m) mounts"
  define cfg where "cfg = initConfig cs (csUser cs) (map dmTarget vm)"
  define nm where "nm = containerName (csNamespace cs) (csSandboxName cs) (csUID cs) @ ''-init''"
  have go: "csUser cs \<noteq> ''''" "vm \<noteq> []" using user vol by (auto simp: rootUser_def vm_def filter_empty_conv)
  obtain d1 i where c: "clContainerCreate C cfg (initHost vm) nm d = (d1, Inr i)" using works by blast
  from created(1) [OF E c] obtain j where j: "conts d1 = j # conts d" "cjID j = i" "cjLabels j = dcLabels cfg" "i \<notin> cjID ` set (conts d)" by blast
  obtain d2 e where s: "clContainerStart C i d1 = (d2, e)" by fastforce
  obtain j2 where j2: "conts d2 = j2 # conts d" "cjID j2 = i" "cjLabels j2 = dcLabels cfg" using ran(1) [OF E _ j(1,2,4), of d2] s j(3) by auto
  obtain j3 where j3: "conts (clContainerWait C i d2) = j3 # conts d" "cjLabels j3 = dcLabels cfg" using ran(1) [OF E _ j2(1,2) j(4)] j2(3) by auto
  have kept: "conts (fst (clContainerRemove C i d')) = conts d'" for d'
    using stuck [of i d'] E by (fastforce simp: docker_engine_def engine_removes_def)
  have "\<exists>jj. conts (prepareVolumePermissions C cs mounts d) = jj # conts d \<and> cjLabels jj = dcLabels cfg"
    using go user j2 j3 s
    by (auto simp: prepareVolumePermissions_def Let_def vm_def [symmetric] cfg_def [symmetric] nm_def [symmetric] c kept split: option.split)
  then obtain jj where jj: "conts (prepareVolumePermissions C cs mounts d) = jj # conts d" "cjLabels jj = dcLabels cfg" by blast
  have "of_sandbox (csNamespace cs) (csSandboxName cs) jj" by (simp add: of_sandbox_def jj(2) cfg_def initConfig_def label_defs)
  moreover have "ci_UID (infoOf C jj) = ''''" by (simp add: ci_UID_def infoOf_def jj(2) cfg_def initConfig_def label_defs map_get_def)
  ultimately show ?thesis by (simp add: docker_InspectSandbox_eq [OF E] jj(1))
qed

section \<open>An engine\<close>

text \<open>Witness: an engine that keeps lists. A state whose identifiers clash counts as empty; a new identifier is longer than all others.\<close>

type_synonym lists = "ContainerJSON list \<times> DockerVolume list"

definition list_conts :: "lists \<Rightarrow> ContainerJSON list" where
  "list_conts d = (if distinct (map cjID (fst d)) then fst d else [])"

definition list_create :: "DockerConfig \<Rightarrow> HostConfig \<Rightarrow> string \<Rightarrow> lists \<Rightarrow> lists \<times> (cerr + string)" where
  "list_create cfg h nm d = (let i = CHR ''c'' # concat (map cjID (list_conts d))
     in ((\<lparr>cjID = i, cjName = CHR ''/'' # nm, cjLabels = dcLabels cfg, cjState = None, cjNetworkSettings = None\<rparr> # list_conts d, snd d), Inr i))"

definition list_rm :: "string \<Rightarrow> lists \<Rightarrow> lists \<times> cerr option" where
  "list_rm i d = (if i \<in> cjID ` set (list_conts d) then ((filter (\<lambda>j. cjID j \<noteq> i) (list_conts d), snd d), None) else (d, Some (CNotFound i)))"

definition list_client :: "lists DockerClient" where
  "list_client = \<lparr>clPing = (\<lambda>_. None), clImagePull = (\<lambda>_ d. (d, None)), clImageInspect = (\<lambda>_ _. Inr None), clImageBuild = (\<lambda>_ _ d. (d, Inr '''')),
     clContainerCreate = list_create, clContainerStart = (\<lambda>_ d. (d, None)), clContainerWait = (\<lambda>_ d. d),
     clContainerInspect = (\<lambda>i d. case find (\<lambda>j. cjID j = i) (list_conts d) of Some j \<Rightarrow> Inr j | None \<Rightarrow> Inl (CNotFound i)),
     clContainerList = (\<lambda>fs d. Inr (map cjID (filter (\<lambda>j. \<forall>f \<in> set fs. label_holds (cjLabels j) f) (list_conts d)))),
     clContainerStop = (\<lambda>_ d. (d, None)), clContainerRemove = list_rm,
     clVolumeCreate = (\<lambda>nm ls d. ((fst d, \<lparr>dvName = nm, dvLabels = ls\<rparr> # snd d), Inr nm)),
     clVolumeList = (\<lambda>fs d. Inr (filter (\<lambda>v. \<forall>f \<in> set fs. label_holds (dvLabels v) f) (snd d))),
     clVolumeRemove = (\<lambda>nm d. ((fst d, filter (\<lambda>v. dvName v \<noteq> nm) (snd d)), None)),
     clHTTPGet = (\<lambda>_ _. Inr 200), clKeys = (\<lambda>_. []), clNewPort = (\<lambda>p n. Inr (n @ ''/'' @ p)), clPortInt = (\<lambda>_. 0), clParseTime = (\<lambda>_. 0),
     clTarDir = (\<lambda>_. Inr [])\<rparr>"

lemma list_conts_distinct [simp]: "distinct (map cjID (list_conts d))"
  by (simp add: list_conts_def)

lemma list_conts_fst: "fst d' = fst d \<Longrightarrow> list_conts d' = list_conts d"
  by (simp add: list_conts_def)

lemma fresh_id: "CHR ''c'' # concat (map cjID js) \<notin> cjID ` set js"
proof
  assume "CHR ''c'' # concat (map cjID js) \<in> cjID ` set js"
  then obtain j where "j \<in> set js" "length (cjID j) = Suc (length (concat (map cjID js)))" by (metis imageE length_Cons)
  moreover have "j \<in> set js \<Longrightarrow> length (cjID j) \<le> length (concat (map cjID js))" by (induction js) auto
  ultimately show False by simp
qed

lemma find_id:
  assumes "distinct (map cjID js)" "j \<in> set js"
  shows "find (\<lambda>x. cjID x = cjID j) js = Some j"
  using assms by (induction js) auto

lemma list_conts_create: "list_conts (fst (list_create cfg h nm d)) =
    \<lparr>cjID = CHR ''c'' # concat (map cjID (list_conts d)), cjName = CHR ''/'' # nm, cjLabels = dcLabels cfg, cjState = None, cjNetworkSettings = None\<rparr> # list_conts d"
  using fresh_id [of "list_conts d"] by (simp add: list_conts_def [of "(x # xs, v)" for x xs v] list_create_def Let_def)

lemma list_conts_remove: "list_conts (fst (list_rm i d)) = filter (\<lambda>j. cjID j \<noteq> i) (list_conts d)"
  by (simp add: list_rm_def list_conts_def [of "(filter P xs, v)" for P xs v] distinct_map_filter filter_other)

lemma same_but_refl: "same_but i xs xs"
  by (simp add: same_but_def list_all2_same)

lemma list_engine_parts:
  "engine_reads list_client list_conts snd" "engine_creates list_client list_conts snd" "engine_runs list_client list_conts snd"
  "engine_volumes list_client list_conts snd" "engine_images list_client list_conts snd"
proof -
  show "engine_reads list_client list_conts snd" by (simp add: engine_reads_def list_client_def find_id)
  show "engine_creates list_client list_conts snd"
    using list_conts_create by (fastforce simp: engine_creates_def list_client_def list_create_def Let_def)
  show "engine_runs list_client list_conts snd" by (simp add: engine_runs_def list_client_def same_but_refl)
  show "engine_volumes list_client list_conts snd" by (auto simp: engine_volumes_def list_client_def intro!: list_conts_fst)
  show "engine_images list_client list_conts snd" by (simp add: engine_images_def list_client_def)
qed

lemma list_engine: "docker_engine list_client list_conts snd" "removes_all list_client"
proof -
  have "engine_removes list_client list_conts snd"
    using list_conts_remove by (fastforce simp: engine_removes_def list_client_def list_rm_def split: if_splits)
  then show "docker_engine list_client list_conts snd" by (simp add: docker_engine_def list_engine_parts)
  show "removes_all list_client" by (auto simp: removes_all_def list_client_def list_rm_def split: if_splits)
qed


text \<open>The same engine, whose removals fail.\<close>

definition stuck_client :: "lists DockerClient" where
  "stuck_client = list_client\<lparr>clContainerRemove := (\<lambda>i d. (d, Some (CError ''in use'')))\<rparr>"

lemma stuck_engine: "docker_engine stuck_client list_conts snd"
  using list_engine_parts
  by (simp add: docker_engine_def stuck_client_def engine_reads_def engine_creates_def engine_runs_def engine_removes_def engine_volumes_def engine_images_def)

theorem leftover_init_container_witness:
  "\<exists>c. docker_InspectSandbox stuck_client ''d'' ''b'' (prepareVolumePermissions stuck_client (sample_cs\<lparr>csUser := ''1000''\<rparr>)
     [\<lparr>dmType = TypeVolume, dmSource = ''v'', dmTarget = ''/data'', dmReadOnly = False, dmTmpfsOptions = None\<rparr>] ([], [])) = Inr c \<and> ci_UID c = ''''"
  using leftover_init_container [OF stuck_engine, of "sample_cs\<lparr>csUser := ''1000''\<rparr>"
      "[\<lparr>dmType = TypeVolume, dmSource = ''v'', dmTarget = ''/data'', dmReadOnly = False, dmTmpfsOptions = None\<rparr>]" "([], [])"]
  by (simp add: stuck_client_def list_client_def list_create_def Let_def rootUser_def HasPrefix_def sample_cs_def)

end
