(* ===== verification/PortForward.thy ===== *)
theory PortForward
  imports Router
begin

text \<open>
  \<^verbatim>\<open>internal/portforward/server.go\<close>: the tunnel to the router. Clients open streams on one connection, a data stream and an error stream
  for each request; the handler pairs them by request and forwards each complete pair. And the rest of \<^verbatim>\<open>internal/router/router.go\<close>: what
  the proxy changes in a request and the recorder of the response's status. Copying bytes and the streams of the connection are not modelled.
\<close>

section \<open>Pairing streams\<close>

definition RouterPodName :: string where "RouterPodName = ''sandbox-router-0''"

text \<open>The names the Kubernetes API gives to the headers of a stream and to the types of streams.\<close>

record streamNames =
  PortForwardRequestIDHeader :: string
  StreamType :: string
  StreamTypeError :: string
  StreamTypeData :: string

record stream =
  stNumber :: nat
  stHeaders :: "string \<Rightarrow> string"

record streamPair =
  spRequestID :: string
  spData :: "stream option"
  spError :: "stream option"
  spCreated :: time

datatype action = Reset stream | Forward streamPair

definition complete_pair :: "streamPair \<Rightarrow> bool" where
  "complete_pair p \<longleftrightarrow> spData p \<noteq> None \<and> spError p \<noteq> None"

definition onStream :: "streamNames \<Rightarrow> time \<Rightarrow> stream \<Rightarrow> (string \<rightharpoonup> streamPair) \<Rightarrow> (string \<rightharpoonup> streamPair) \<times> action list" where
  "onStream N t st pairs = (
     let requestID = stHeaders st (PortForwardRequestIDHeader N)
     in if requestID = '''' then (pairs, [Reset st])
        else
          let streamType = stHeaders st (StreamType N);
              p = (case pairs requestID of Some p \<Rightarrow> p | None \<Rightarrow> \<lparr>spRequestID = requestID, spData = None, spError = None, spCreated = t\<rparr>);
              put = (if streamType = StreamTypeError N then Some (p\<lparr>spError := Some st\<rparr>)
                     else if streamType = StreamTypeData N then Some (p\<lparr>spData := Some st\<rparr>) else None)
          in case put of
               None \<Rightarrow> (pairs(requestID \<mapsto> p), [Reset st])
             | Some p' \<Rightarrow> (if complete_pair p' then (pairs(requestID := None), [Forward p']) else (pairs(requestID \<mapsto> p'), [])))"

text \<open>The loop of the connection, on the streams that arrive, each with its time.\<close>

fun pf_run :: "streamNames \<Rightarrow> (time \<times> stream) list \<Rightarrow> (string \<rightharpoonup> streamPair) \<Rightarrow> action list" where
  "pf_run N [] pairs = []"
| "pf_run N ((t, st) # sts) pairs = (case onStream N t st pairs of (pairs', acts) \<Rightarrow> acts @ pf_run N sts pairs')"

text \<open>A pair is forwarded to the router, unless it cannot be reached: then the error stream gets the message.\<close>

definition pf_forward :: "string + unit \<Rightarrow> streamPair \<Rightarrow> string + streamPair" where
  "pf_forward dialed p = (case dialed of Inl err \<Rightarrow> Inl (''error dialing router: '' @ err) | Inr _ \<Rightarrow> Inr p)"

text \<open>A tunnel is opened only to the virtual router pod; \<open>None\<close> goes on to the handshake.\<close>

definition pf_ServeHTTP :: "string \<Rightarrow> (int \<times> string) option" where
  "pf_ServeHTTP podName = (if podName \<noteq> RouterPodName then Some (404, ''port-forward only supported for pod '' @ Quote RouterPodName) else None)"

section \<open>The proxied request\<close>

record proxyRequest =
  pxScheme :: string
  pxURLHost :: string
  pxHost :: string
  pxPath :: string
  pxRawPath :: string
  pxRawQuery :: string
  pxHeader :: "string \<rightharpoonup> string list"

text \<open>\<open>setXForwarded\<close> is the method of \<^verbatim>\<open>httputil.ProxyRequest\<close>; the outgoing request comes from the proxy.\<close>

definition Rewrite :: "(proxyRequest \<Rightarrow> proxyRequest \<Rightarrow> proxyRequest) \<Rightarrow> string \<times> string \<Rightarrow> proxyRequest \<Rightarrow> proxyRequest \<Rightarrow> proxyRequest" where
  "Rewrite setXForwarded target inreq outreq = setXForwarded inreq (outreq\<lparr>pxScheme := fst target, pxURLHost := snd target, pxHost := snd target,
     pxPath := pxPath inreq, pxRawPath := pxRawPath inreq, pxRawQuery := pxRawQuery inreq,
     pxHeader := (pxHeader outreq)(''Authorization'' := None, ''Origin'' := None)\<rparr>)"

definition writeProxyError :: "int \<Rightarrow> string \<Rightarrow> int \<times> (string \<rightharpoonup> string) \<times> string" where
  "writeProxyError code msg = (code, [''Content-Type'' \<mapsto> ''application/json''], ''{'' @ [CHR 0x22] @ ''detail'' @ [CHR 0x22] @ '':'' @ Quote msg @ ''}'')"

record statusRecorder =
  srCode :: int
  srWroteHeader :: bool

datatype rwrite = WriteHeader int | WriteBody

definition recordWrite :: "rwrite \<Rightarrow> statusRecorder \<Rightarrow> statusRecorder" where
  "recordWrite w s = (case w of
      WriteHeader code \<Rightarrow> (if \<not> srWroteHeader s then s\<lparr>srCode := code, srWroteHeader := True\<rparr> else s)
    | WriteBody \<Rightarrow> (if \<not> srWroteHeader s then s\<lparr>srWroteHeader := True\<rparr> else s))"

section \<open>Each request is forwarded once\<close>

fun forwarded :: "action list \<Rightarrow> streamPair list" where
  "forwarded [] = []"
| "forwarded (Forward p # as) = p # forwarded as"
| "forwarded (Reset _ # as) = forwarded as"

lemma forwarded_append [simp]: "forwarded (as @ bs) = forwarded as @ forwarded bs"
  by (induction as rule: forwarded.induct) auto

definition of_request :: "streamNames \<Rightarrow> string \<Rightarrow> time \<times> stream \<Rightarrow> bool" where
  "of_request N q ts \<longleftrightarrow> stHeaders (snd ts) (PortForwardRequestIDHeader N) = q"

definition pairs_ok :: "(string \<rightharpoonup> streamPair) \<Rightarrow> bool" where
  "pairs_ok pairs \<longleftrightarrow> (\<forall>q p. pairs q = Some p \<longrightarrow> spRequestID p = q \<and> \<not> complete_pair p)"

lemma fresh_incomplete: "\<not> complete_pair \<lparr>spRequestID = q, spData = None, spError = None, spCreated = t\<rparr>"
  by (simp add: complete_pair_def)

lemma onStream_ok:
  assumes "pairs_ok pairs" "onStream N t st pairs = (pairs', acts)"
  shows "pairs_ok pairs'"
  using assms by (auto simp: onStream_def Let_def pairs_ok_def fresh_incomplete split: if_splits option.splits)

text \<open>A stream of another request does not touch the pair of a request.\<close>

lemma onStream_other:
  assumes "pairs_ok pairs" "onStream N t st pairs = (pairs', acts)" "stHeaders st (PortForwardRequestIDHeader N) \<noteq> q"
  shows "pairs' q = pairs q" "filter (\<lambda>p. spRequestID p = q) (forwarded acts) = []"
  using assms by (auto simp: onStream_def Let_def pairs_ok_def split: if_splits option.splits)

text \<open>What the handler does with the streams of a request depends on that request's pair alone.\<close>

lemma onStream_own:
  assumes "pairs q = pairs2 q" "onStream N t st pairs = (pairs', acts)" "onStream N t st pairs2 = (pairs2', acts2)"
    "stHeaders st (PortForwardRequestIDHeader N) = q"
  shows "acts = acts2" "pairs' q = pairs2' q"
  using assms by (auto simp: onStream_def Let_def split: if_splits option.splits)

lemma pf_run_projection:
  "pairs_ok pairs \<Longrightarrow> pairs_ok pairs2 \<Longrightarrow> pairs q = pairs2 q \<Longrightarrow>
    filter (\<lambda>p. spRequestID p = q) (forwarded (pf_run N sts pairs)) =
    filter (\<lambda>p. spRequestID p = q) (forwarded (pf_run N (filter (of_request N q) sts) pairs2))"
proof (induction N sts pairs arbitrary: pairs2 rule: pf_run.induct)
  case (2 N t st sts pairs)
  obtain pairs' acts where o: "onStream N t st pairs = (pairs', acts)" by fastforce
  note ok' = onStream_ok [OF "2.prems"(1) o]
  show ?case
  proof (cases "of_request N q (t, st)")
    case True
    then have own: "stHeaders st (PortForwardRequestIDHeader N) = q" by (simp add: of_request_def)
    obtain pairs2' acts2 where o2: "onStream N t st pairs2 = (pairs2', acts2)" by fastforce
    note e = onStream_own [OF "2.prems"(3) o o2 own]
    show ?thesis using "2.IH" [OF o [symmetric] ok' onStream_ok [OF "2.prems"(2) o2] e(2)] True by (simp add: o o2 e(1))
  next
    case False
    then have "stHeaders st (PortForwardRequestIDHeader N) \<noteq> q" by (simp add: of_request_def)
    note oth = onStream_other [OF "2.prems"(1) o this]
    show ?thesis using "2.IH" [OF o [symmetric] ok' "2.prems"(2)] oth "2.prems"(3) False by (simp add: o)
  qed
qed simp

text \<open>C25: a data stream and an error stream of one request, in either order and with any streams of other requests between them, are forwarded
  as one pair, once.\<close>

theorem request_forwarded_once:
  assumes two: "filter (of_request N q) sts = [(t1, a), (t2, b)]" and q: "q \<noteq> ''''"
    and types: "StreamTypeData N \<noteq> StreamTypeError N" "{stHeaders a (StreamType N), stHeaders b (StreamType N)} = {StreamTypeData N, StreamTypeError N}"
  shows "filter (\<lambda>p. spRequestID p = q) (forwarded (pf_run N sts Map.empty)) =
    [if stHeaders a (StreamType N) = StreamTypeData N then \<lparr>spRequestID = q, spData = Some a, spError = Some b, spCreated = t1\<rparr>
     else \<lparr>spRequestID = q, spData = Some b, spError = Some a, spCreated = t1\<rparr>]"
proof -
  have "(t1, a) \<in> set (filter (of_request N q) sts)" "(t2, b) \<in> set (filter (of_request N q) sts)" by (simp_all add: two)
  then have h: "stHeaders a (PortForwardRequestIDHeader N) = q" "stHeaders b (PortForwardRequestIDHeader N) = q" by (simp_all add: of_request_def)
  have "filter (\<lambda>p. spRequestID p = q) (forwarded (pf_run N [(t1, a), (t2, b)] Map.empty)) =
    [if stHeaders a (StreamType N) = StreamTypeData N then \<lparr>spRequestID = q, spData = Some a, spError = Some b, spCreated = t1\<rparr>
     else \<lparr>spRequestID = q, spData = Some b, spError = Some a, spCreated = t1\<rparr>]"
    using h q types by (auto simp: onStream_def Let_def complete_pair_def doubleton_eq_iff)
  then show ?thesis using pf_run_projection [of Map.empty Map.empty q N sts] two by (simp add: pairs_ok_def)
qed

definition sample_names :: streamNames where
  "sample_names = \<lparr>PortForwardRequestIDHeader = ''requestID'', StreamType = ''streamType'', StreamTypeError = ''error'', StreamTypeData = ''data''\<rparr>"

definition sample_stream :: "nat \<Rightarrow> string \<Rightarrow> string \<Rightarrow> stream" where
  "sample_stream n q ty = \<lparr>stNumber = n, stHeaders = (\<lambda>_. '''')(''requestID'' := q, ''streamType'' := ty)\<rparr>"

theorem request_forwarded_once_witness:
  "filter (\<lambda>p. spRequestID p = ''7'') (forwarded (pf_run sample_names
      [(1, sample_stream 1 ''7'' ''error''), (2, sample_stream 2 ''8'' ''error''), (3, sample_stream 3 ''7'' ''data'')] Map.empty)) =
    [\<lparr>spRequestID = ''7'', spData = Some (sample_stream 3 ''7'' ''data''), spError = Some (sample_stream 1 ''7'' ''error''), spCreated = 1\<rparr>]"
proof -
  have "filter (of_request sample_names ''7'') [(1, sample_stream 1 ''7'' ''error''), (2, sample_stream 2 ''8'' ''error''), (3, sample_stream 3 ''7'' ''data'')] =
      [(1, sample_stream 1 ''7'' ''error''), (3, sample_stream 3 ''7'' ''data'')]"
    by (simp add: of_request_def sample_names_def sample_stream_def)
  from request_forwarded_once [OF this] show ?thesis by (simp add: sample_names_def sample_stream_def insert_commute)
qed

section \<open>The proxied request\<close>

text \<open>The credentials of the client are not passed on, whatever the proxy copied.\<close>

lemma Rewrite_strips:
  assumes "\<And>i r. pxHeader (setXForwarded i r) ''Authorization'' = pxHeader r ''Authorization''"
  shows "pxHeader (Rewrite setXForwarded target i r) ''Authorization'' = None"
  using assms by (simp add: Rewrite_def)

text \<open>The recorded status is the first one written.\<close>

lemma recordWrite_first:
  "foldl (\<lambda>s w. recordWrite w s) \<lparr>srCode = 200, srWroteHeader = False\<rparr> (w # ws) =
    \<lparr>srCode = (case w of WriteHeader c \<Rightarrow> c | WriteBody \<Rightarrow> 200), srWroteHeader = True\<rparr>"
proof -
  have "foldl (\<lambda>s w. recordWrite w s) \<lparr>srCode = c, srWroteHeader = True\<rparr> ws = \<lparr>srCode = c, srWroteHeader = True\<rparr>" for c
    by (induction ws) (auto simp: recordWrite_def split: rwrite.split)
  then show ?thesis by (simp add: recordWrite_def split: rwrite.split)
qed

end
