(* ===== verification/Facade.thy ===== *)
theory Facade
  imports Reconciler
begin

text \<open>
  \<^verbatim>\<open>internal/kubefacade\<close>: the Kubernetes REST API over the store. Routing a path, the handlers of
  collections, items and the scale subresource, and the translation of errors to responses.
  A handler runs on the world, because a delete runs the store's hook. It is a value of an option type where
  it may not return, as the store's create. Request logging and the recording of the status
  code for it are not modelled, nor are deadlines of writes and watches, which only cut a stream short.
\<close>

section \<open>Requests and responses\<close>

text \<open>The path is the list of segments of a cleaned path; the multiplexer of \<^verbatim>\<open>net/http\<close> redirects others.
  \<open>fqQuery\<close> and \<open>fqHeader\<close> give the empty string for what is absent. \<open>fqBody\<close> is the
  result of reading the body to its end.\<close>

record frequest =
  fqMethod :: string
  fqPath :: "string list"
  fqQuery :: "string \<Rightarrow> string"
  fqHeader :: "string \<Rightarrow> string"
  fqBody :: "string + bytes"
  fqFlusher :: bool

record pathvals =
  pvGroup :: string
  pvVersion :: string
  pvNamespace :: string
  pvResource :: string
  pvName :: string
  pvSubresource :: string

record Scale =
  slName :: string
  slNamespace :: string
  slResourceVersion :: string
  slCreationTimestamp :: "time option"
  slSpecReplicas :: int
  slStatusReplicas :: int

record APIResource =
  arName :: string
  arSingularName :: string
  arNamespaced :: bool
  arKind :: string
  arGroup :: string
  arVersion :: string
  arVerbs :: "string list"
  arShortNames :: "string list"

record APIGroup =
  agName :: string
  agVersions :: "(string \<times> string) list"
  agPreferredVersion :: "string \<times> string"

record GVK =
  gvkGroup :: string
  gvkVersion :: string
  gvkKind :: string

text \<open>A parameter is its name, where it is sent and its type.\<close>

record Operation =
  opParameters :: "(string \<times> string \<times> string) list"
  opContent :: "string \<rightharpoonup> string"
  opGVK :: GVK

record Schema =
  smType :: string
  smPreserveUnknownFields :: bool
  smGVK :: "GVK list"

record PathItem =
  piPost :: "Operation option"
  piPut :: "Operation option"
  piPatch :: "Operation option"

record OpenAPI =
  oaVersion :: string
  oaInfo :: "string \<times> string"
  oaPaths :: "string \<rightharpoonup> PathItem"
  oaSchemas :: "string \<rightharpoonup> Schema"

record VersionInfo =
  viMajor :: string
  viMinor :: string
  viGitVersion :: string
  viGitTreeState :: string
  viPlatform :: string

datatype 'j fbody =
    BodyObj "'j obj"
  | BodyList string string string "'j obj list"
  | BodyScale Scale
  | BodyStatus apierr
  | BodyStream "'j pump"
  | BodyVersion VersionInfo
  | BodyAPIVersions "string list"
  | BodyGroups "APIGroup list"
  | BodyResources string "APIResource list"
  | BodyOpenAPIRoot "string \<rightharpoonup> string"
  | BodyOpenAPI OpenAPI
  | BodyText string
  | BodyUpgraded

record 'j fresponse =
  fcode :: int
  fbody :: "'j fbody"

section \<open>Libraries\<close>

text \<open>What \<^verbatim>\<open>encoding/json\<close> decodes into \<^verbatim>\<open>map[string]any\<close>, where a number may be a float (its bits)
  or an \<^verbatim>\<open>int64\<close>.\<close>

datatype json = JNull | JBool bool | JFloat64 "64 word" | JInt64 int | JString string | JArray "json list" | JObject "(string \<times> json) list"

text \<open>The accessors of \<^verbatim>\<open>unstructured\<close>: \<open>nestedReplicas\<close> is \<^verbatim>\<open>NestedInt64\<close> at the field \<^verbatim>\<open>replicas\<close> of a spec or status tree, \<open>setReplicas\<close> is
  \<^verbatim>\<open>SetNestedField\<close> there (the tree unchanged where it fails), \<open>phaseTree\<close> the status that setting
  a phase in an empty object gives.\<close>

record 'j facadelib =
  nestedReplicas :: "'j option \<Rightarrow> int option"
  setReplicas :: "int \<Rightarrow> 'j option \<Rightarrow> 'j option"
  phaseTree :: "string \<Rightarrow> 'j"
  jsonUnmarshal :: "bytes \<Rightarrow> string + json"
  NestedInt64 :: "json \<Rightarrow> string list \<Rightarrow> int option"

record ('j, 'db, 'd, 'v) Handler =
  hRec :: "('j, 'db, 'd, 'v) Reconcilers"
  hReg :: Registry
  hLib :: "'j facadelib"
  hPortForward :: bool

section \<open>Responses\<close>

definition writeJSON :: "int \<Rightarrow> 'j fbody \<Rightarrow> 'j fresponse" where
  "writeJSON code b = \<lparr>fcode = code, fbody = b\<rparr>"

fun errCode :: "apierr \<Rightarrow> int" where
  "errCode (NotFound _ _) = 404"
| "errCode (AlreadyExists _ _) = 409"
| "errCode (Conflict _ _) = 409"
| "errCode (BadRequest _) = 400"
| "errCode (InternalError _) = 500"
| "errCode (MethodNotSupported _ _) = 405"

definition writeErr :: "apierr \<Rightarrow> 'j fresponse" where
  "writeErr err = writeJSON (errCode err) (BodyStatus err)"

section \<open>Discovery\<close>

definition GitVersion :: string where "GitVersion = ''v1.33.0-lasd''"

definition handleVersion :: "'j fresponse" where
  "handleVersion = writeJSON 200 (BodyVersion \<lparr>viMajor = ''1'', viMinor = ''33'', viGitVersion = GitVersion,
     viGitTreeState = ''clean'', viPlatform = ''local-docker''\<rparr>)"

definition handleAPIVersions :: "'j fresponse" where
  "handleAPIVersions = writeJSON 200 (BodyAPIVersions [''v1''])"

text \<open>The distinct versions of a group, in the order of the list.\<close>

fun groupVersions :: "string \<Rightarrow> string list \<Rightarrow> Resource list \<Rightarrow> (string \<times> string) list" where
  "groupVersions g seen [] = []"
| "groupVersions g seen (res # rs) =
     (if Group (rGVR res) \<noteq> g \<or> Version (rGVR res) \<in> set seen then groupVersions g seen rs
      else (g @ ''/'' @ Version (rGVR res), Version (rGVR res)) # groupVersions g (Version (rGVR res) # seen) rs)"

definition apiGroup :: "Registry \<Rightarrow> string \<Rightarrow> APIGroup list" where
  "apiGroup reg g = (case groupVersions g [] (Registry_All reg) of
      [] \<Rightarrow> []
    | gv # gvs \<Rightarrow> [\<lparr>agName = g, agVersions = gv # gvs, agPreferredVersion = gv\<rparr>])"

definition handleAPIGroupList :: "Registry \<Rightarrow> 'j fresponse" where
  "handleAPIGroupList reg = writeJSON 200 (BodyGroups (concat (map (apiGroup reg) (Registry_Groups reg))))"

definition resourceEntries :: "Resource \<Rightarrow> APIResource list" where
  "resourceEntries res =
     [\<lparr>arName = ResourceName (rGVR res), arSingularName = rSingular res, arNamespaced = rNamespaced res, arKind = rKind res,
       arGroup = '''', arVersion = '''', arVerbs = rVerbs res, arShortNames = rShortNames res\<rparr>] @
     (if rHasStatus res
      then [\<lparr>arName = ResourceName (rGVR res) @ ''/status'', arSingularName = '''', arNamespaced = rNamespaced res, arKind = rKind res,
             arGroup = '''', arVersion = '''', arVerbs = [''get'', ''patch'', ''update''], arShortNames = []\<rparr>]
      else []) @
     (if rHasScale res
      then [\<lparr>arName = ResourceName (rGVR res) @ ''/scale'', arSingularName = '''', arNamespaced = rNamespaced res, arKind = ''Scale'',
             arGroup = ''autoscaling'', arVersion = ''v1'', arVerbs = [''get'', ''patch'', ''update''], arShortNames = []\<rparr>]
      else [])"

definition writeResourceList :: "Registry \<Rightarrow> string \<Rightarrow> string \<Rightarrow> 'j fresponse" where
  "writeResourceList reg grp ver = writeJSON 200 (BodyResources (if grp \<noteq> '''' then grp @ ''/'' @ ver else ver)
     (concat (map resourceEntries (ResourcesForGroupVersion reg grp ver))))"

definition resolveByPath :: "Registry \<Rightarrow> pathvals \<Rightarrow> Resource option" where
  "resolveByPath reg pv =
     ResolveResource reg (pvGroup pv) (if pvVersion pv = '''' then ''v1'' else pvVersion pv) (pvResource pv)"

section \<open>OpenAPI documents\<close>

definition mutatingOp :: "string \<Rightarrow> GVK \<Rightarrow> Operation" where
  "mutatingOp schemaName gvk = \<lparr>opParameters = [(''fieldValidation'', ''query'', ''string'')],
     opContent = [''application/json'' \<mapsto> ''#/components/schemas/'' @ schemaName], opGVK = gvk\<rparr>"

definition schemaNameOf :: "string \<Rightarrow> string \<Rightarrow> Resource \<Rightarrow> string" where
  "schemaNameOf grp ver res = (if grp = '''' then ''io.lasd.'' @ ver @ ''.'' @ rKind res else grp @ ''.'' @ ver @ ''.'' @ rKind res)"

definition docPrefix :: "string \<Rightarrow> string \<Rightarrow> string" where
  "docPrefix grp ver = (if grp = '''' then ''/api/'' @ ver else ''/apis/'' @ grp @ ''/'' @ ver)"

definition collPathOf :: "string \<Rightarrow> string \<Rightarrow> Resource \<Rightarrow> string" where
  "collPathOf grp ver res = (if rNamespaced res then docPrefix grp ver @ ''/namespaces/{namespace}/'' @ ResourceName (rGVR res)
     else docPrefix grp ver @ ''/'' @ ResourceName (rGVR res))"

text \<open>One iteration of the loop over the resources of the group version.\<close>

definition addToDoc :: "string \<Rightarrow> string \<Rightarrow> OpenAPI \<Rightarrow> Resource \<Rightarrow> OpenAPI" where
  "addToDoc grp ver doc res = (
     let schemaName = schemaNameOf grp ver res;
         gvk = \<lparr>gvkGroup = grp, gvkVersion = ver, gvkKind = rKind res\<rparr>;
         collPath = collPathOf grp ver res;
         itemPath = collPath @ ''/{name}''
     in doc\<lparr>oaPaths := (oaPaths doc)
           (collPath \<mapsto> \<lparr>piPost = Some (mutatingOp schemaName gvk), piPut = None, piPatch = None\<rparr>,
            itemPath \<mapsto> \<lparr>piPost = None, piPut = Some (mutatingOp schemaName gvk), piPatch = Some (mutatingOp schemaName gvk)\<rparr>),
         oaSchemas := (oaSchemas doc)(schemaName \<mapsto> \<lparr>smType = ''object'', smPreserveUnknownFields = True, smGVK = [gvk]\<rparr>)\<rparr>)"

definition openAPIV3Doc :: "Registry \<Rightarrow> string \<Rightarrow> string \<Rightarrow> OpenAPI" where
  "openAPIV3Doc reg grp ver =
     foldl (addToDoc grp ver) \<lparr>oaVersion = ''3.0.0'', oaInfo = (''lasd'', GitVersion), oaPaths = Map.empty, oaSchemas = Map.empty\<rparr>
       (ResourcesForGroupVersion reg grp ver)"

text \<open>The set \<^verbatim>\<open>seen\<close> only saves writing an entry twice with the same value.\<close>

definition addToRoot :: "(string \<rightharpoonup> string) \<Rightarrow> Resource \<Rightarrow> (string \<rightharpoonup> string)" where
  "addToRoot paths res = (
     let gv = Group (rGVR res) @ ''/'' @ Version (rGVR res)
     in if Group (rGVR res) = '''' then paths
        else paths(''apis/'' @ gv \<mapsto> ''/openapi/v3/apis/'' @ gv @ ''?hash=lasd''))"

definition handleOpenAPIV3Root :: "Registry \<Rightarrow> 'j fresponse" where
  "handleOpenAPIV3Root reg = writeJSON 200 (BodyOpenAPIRoot
     (foldl addToRoot [''api/v1'' \<mapsto> ''/openapi/v3/api/v1?hash=lasd''] (Registry_All reg)))"

section \<open>Bodies\<close>

definition maxBodyBytes :: int where "maxBodyBytes = 67108864"

text \<open>\<^verbatim>\<open>io.ReadAll(io.LimitReader(r.Body, maxBodyBytes))\<close>.\<close>

definition readBody :: "frequest \<Rightarrow> string + bytes" where
  "readBody q = (case fqBody q of
      Inl err \<Rightarrow> Inl err
    | Inr bs \<Rightarrow> Inr (if int (length bs) \<le> maxBodyBytes then bs else take (nat maxBodyBytes) bs))"

definition decodeObject :: "('j, 'db) storelib \<Rightarrow> frequest \<Rightarrow> string + 'j obj" where
  "decodeObject L q = (case readBody q of Inl err \<Rightarrow> Inl err | Inr bs \<Rightarrow> UnmarshalJSON L bs)"

definition isWatch :: "frequest \<Rightarrow> bool" where
  "isWatch q \<longleftrightarrow> fqQuery q ''watch'' = ''true'' \<or> fqQuery q ''watch'' = ''1''"

section \<open>Reading\<close>

definition facade_list :: "('j, 'db, 'd, 'v) Handler \<Rightarrow> frequest \<Rightarrow> Resource \<Rightarrow> string \<Rightarrow> ('j, 'db) store \<Rightarrow> 'j fresponse" where
  "facade_list h q res ns s = (case ParseSelectors (rLib (hRec h)) (fqQuery q ''labelSelector'') (fqQuery q ''fieldSelector'') of
      Inl err \<Rightarrow> writeErr (BadRequest err)
    | Inr sel \<Rightarrow>
       (case StoreList (mapOrder (hRec h)) (rGVR res) ns sel s of
          Inl err \<Rightarrow> writeErr err
        | Inr result \<Rightarrow> writeJSON 200 (BodyList (GroupVersion (rGVR res)) (rListKind res) (FormatUint (lrRV result)) (lrItems result))))"

definition facade_get :: "Resource \<Rightarrow> string \<Rightarrow> string \<Rightarrow> ('j, 'db) store \<Rightarrow> 'j fresponse" where
  "facade_get res ns nm s = (case Get (rGVR res) ns nm s of Inl err \<Rightarrow> writeErr err | Inr ob \<Rightarrow> writeJSON 200 (BodyObj ob))"

definition watchOptions :: "frequest \<Rightarrow> string \<Rightarrow> Selectors \<Rightarrow> WatchOptions" where
  "watchOptions q ns sel = (case (if fqQuery q ''resourceVersion'' = '''' then None else ParseUint (fqQuery q ''resourceVersion'')) of
      None \<Rightarrow> \<lparr>woNamespace = ns, woSelectors = sel, woStartRV = 0, woHasStartRV = False\<rparr>
    | Some n \<Rightarrow> \<lparr>woNamespace = ns, woSelectors = sel, woStartRV = n, woHasStartRV = True\<rparr>)"

definition facade_watch :: "('j, 'db, 'd, 'v) Handler \<Rightarrow> frequest \<Rightarrow> Resource \<Rightarrow> string \<Rightarrow> ('j, 'db, 'd) world \<Rightarrow>
    ('j, 'db, 'd) world \<times> 'j fresponse" where
  "facade_watch h q res ns w = (case ParseSelectors (rLib (hRec h)) (fqQuery q ''labelSelector'') (fqQuery q ''fieldSelector'') of
      Inl err \<Rightarrow> (w, writeErr (BadRequest err))
    | Inr sel \<Rightarrow>
       (if \<not> fqFlusher q
        then (w, writeErr (InternalError ''kubefacade: ResponseWriter does not support flushing (required for watch)''))
        else case Watch (mapOrder (hRec h)) (rGVR res) (watchOptions q ns sel) (ws w) of
            (s, Inl err) \<Rightarrow> (w\<lparr>ws := s\<rparr>, writeErr err)
          | (s, Inr p) \<Rightarrow> (w\<lparr>ws := s\<rparr>, writeJSON 200 (BodyStream p))))"

text \<open>The loop that encodes what the watch delivers: an object that cannot be encoded is skipped.\<close>

fun watchStream :: "('j, 'db) storelib \<Rightarrow> 'j Event list \<Rightarrow> (EventType \<times> bytes) list" where
  "watchStream L [] = []"
| "watchStream L (ev # evs) = (case MarshalJSON L (evObject ev) of
      Inl _ \<Rightarrow> watchStream L evs
    | Inr raw \<Rightarrow> (evType ev, raw) # watchStream L evs)"

section \<open>Writing\<close>

text \<open>A namespace is materialized when the first object in it is created.\<close>

definition ensureNamespace :: "('j, 'db, 'd, 'v) Handler \<Rightarrow> string \<Rightarrow> ('j, 'db) store \<Rightarrow> ('j, 'db) store option" where
  "ensureNamespace h nm s = (
     if nm = '''' then Some s
     else case Get NamespaceGVR '''' nm s of
         Inr _ \<Rightarrow> Some s
       | Inl _ \<Rightarrow> map_option fst (Create (rLib (hRec h)) NamespaceGVR
           (empty_obj\<lparr>apiVersion := ''v1'', kind := ''Namespace'', name := nm, status := Some (phaseTree (hLib h) ''Active'')\<rparr>) s))"

text \<open>The object a create stores: the namespace of the URL, defaults for kind and version, no status where the
  resource has a status subresource.\<close>

definition createForm :: "Resource \<Rightarrow> string \<Rightarrow> 'j obj \<Rightarrow> apierr + 'j obj" where
  "createForm res ns ob = (
     let placed = (if rNamespaced res then
            (if namespace ob \<noteq> '''' \<and> ns \<noteq> '''' \<and> namespace ob \<noteq> ns
             then Inl (BadRequest ''namespace in body does not match namespace in URL'')
             else let ob1 = (if namespace ob = '''' then ob\<lparr>namespace := ns\<rparr> else ob)
                  in if namespace ob1 = ''''
                     then Inl (BadRequest (''the namespace of the object ('' @ name ob1 @ '') must be specified''))
                     else Inr ob1)
          else Inr ob)
     in case placed of
          Inl err \<Rightarrow> Inl err
        | Inr ob1 \<Rightarrow>
           (let ob2 = (if kind ob1 = '''' then ob1\<lparr>kind := rKind res\<rparr> else ob1);
                ob3 = (if apiVersion ob2 = '''' then ob2\<lparr>apiVersion := GroupVersion (rGVR res)\<rparr> else ob2)
            in Inr (if rHasStatus res then ob3\<lparr>status := None\<rparr> else ob3)))"

definition facade_create :: "('j, 'db, 'd, 'v) Handler \<Rightarrow> frequest \<Rightarrow> Resource \<Rightarrow> string \<Rightarrow> ('j, 'db, 'd) world \<Rightarrow>
    (('j, 'db, 'd) world \<times> 'j fresponse) option" where
  "facade_create h q res ns w = (case decodeObject (rLib (hRec h)) q of
      Inl err \<Rightarrow> Some (w, writeErr (BadRequest err))
    | Inr ob \<Rightarrow>
       (case createForm res ns ob of
          Inl err \<Rightarrow> Some (w, writeErr err)
        | Inr ob1 \<Rightarrow>
           (case Create (rLib (hRec h)) (rGVR res) ob1 (ws w) of
              None \<Rightarrow> None
            | Some (s, Inl err) \<Rightarrow> Some (w\<lparr>ws := s\<rparr>, writeErr err)
            | Some (s, Inr created) \<Rightarrow>
               map_option (\<lambda>s1. (w\<lparr>ws := s1\<rparr>, writeJSON 201 (BodyObj created))) (ensureNamespace h (namespace created) s))))"

definition facade_update :: "('j, 'db, 'd, 'v) Handler \<Rightarrow> frequest \<Rightarrow> Resource \<Rightarrow> string \<Rightarrow> string \<Rightarrow> bool \<Rightarrow> ('j, 'db, 'd) world \<Rightarrow>
    ('j, 'db, 'd) world \<times> 'j fresponse" where
  "facade_update h q res ns nm isStatus w = (case decodeObject (rLib (hRec h)) q of
      Inl err \<Rightarrow> (w, writeErr (BadRequest err))
    | Inr ob \<Rightarrow>
       (let ob1 = ob\<lparr>name := nm\<rparr>;
            ob2 = (if rNamespaced res then ob1\<lparr>namespace := ns\<rparr> else ob1)
        in case Update (rLib (hRec h)) (rGVR res) ob2 isStatus (ws w) of
             (s, Inl err) \<Rightarrow> (w\<lparr>ws := s\<rparr>, writeErr err)
           | (s, Inr updated) \<Rightarrow> (w\<lparr>ws := s\<rparr>, writeJSON 200 (BodyObj updated))))"

definition facade_patch :: "('j, 'db, 'd, 'v) Handler \<Rightarrow> frequest \<Rightarrow> Resource \<Rightarrow> string \<Rightarrow> string \<Rightarrow> bool \<Rightarrow> ('j, 'db, 'd) world \<Rightarrow>
    ('j, 'db, 'd) world \<times> 'j fresponse" where
  "facade_patch h q res ns nm isStatus w = (case readBody q of
      Inl err \<Rightarrow> (w, writeErr (BadRequest err))
    | Inr bs \<Rightarrow>
       (case Patch (rLib (hRec h)) (rGVR res) ns nm (fqHeader q ''Content-Type'') bs isStatus (ws w) of
          (s, Inl err) \<Rightarrow> (w\<lparr>ws := s\<rparr>, writeErr err)
        | (s, Inr patched) \<Rightarrow> (w\<lparr>ws := s\<rparr>, writeJSON 200 (BodyObj patched))))"

definition facade_delete :: "('j, 'db, 'd, 'v) Handler \<Rightarrow> Resource \<Rightarrow> string \<Rightarrow> string \<Rightarrow> ('j, 'db, 'd) world \<Rightarrow>
    ('j, 'db, 'd) world \<times> 'j fresponse" where
  "facade_delete h res ns nm w = (case StoreDelete (hRec h) (rGVR res) ns nm w of
      (w1, Inl err) \<Rightarrow> (w1, writeErr err)
    | (w1, Inr deleted) \<Rightarrow> (w1, writeJSON 200 (BodyObj deleted)))"

section \<open>Scale\<close>

definition scaleObject :: "'j facadelib \<Rightarrow> 'j obj \<Rightarrow> Scale" where
  "scaleObject F ob = (
     let specReplicas = (case nestedReplicas F (spec ob) of None \<Rightarrow> 0 | Some n \<Rightarrow> n)
     in \<lparr>slName = name ob, slNamespace = namespace ob, slResourceVersion = resourceVersion ob,
         slCreationTimestamp = creationTimestamp ob, slSpecReplicas = specReplicas,
         slStatusReplicas = (case nestedReplicas F (status ob) of None \<Rightarrow> specReplicas | Some n \<Rightarrow> n)\<rparr>)"

definition extractReplicas :: "'j facadelib \<Rightarrow> bytes \<Rightarrow> int option" where
  "extractReplicas F bs = (case jsonUnmarshal F bs of Inl _ \<Rightarrow> None | Inr m \<Rightarrow> NestedInt64 F m [''spec'', ''replicas''])"

definition handleScale :: "('j, 'db, 'd, 'v) Handler \<Rightarrow> frequest \<Rightarrow> Resource \<Rightarrow> string \<Rightarrow> string \<Rightarrow> ('j, 'db, 'd) world \<Rightarrow>
    ('j, 'db, 'd) world \<times> 'j fresponse" where
  "handleScale h q res ns nm w = (case Get (rGVR res) ns nm (ws w) of
      Inl err \<Rightarrow> (w, writeErr err)
    | Inr ob \<Rightarrow>
       (if fqMethod q = ''GET'' then (w, writeJSON 200 (BodyScale (scaleObject (hLib h) ob)))
        else if fqMethod q \<noteq> ''PUT'' \<and> fqMethod q \<noteq> ''PATCH''
        then (w, writeErr (MethodNotSupported (GVR_GroupResource (rGVR res)) (fqMethod q)))
        else case readBody q of
            Inl err \<Rightarrow> (w, writeErr (BadRequest err))
          | Inr bs \<Rightarrow>
             (case extractReplicas (hLib h) bs of
                None \<Rightarrow> (w, writeErr (BadRequest ''scale: could not read spec.replicas from request body''))
              | Some n \<Rightarrow>
                 (case Update (rLib (hRec h)) (rGVR res) (ob\<lparr>spec := setReplicas (hLib h) n (spec ob)\<rparr>) False (ws w) of
                    (s, Inl err) \<Rightarrow> (w\<lparr>ws := s\<rparr>, writeErr err)
                  | (s, Inr updated) \<Rightarrow> (w\<lparr>ws := s\<rparr>, writeJSON 200 (BodyScale (scaleObject (hLib h) updated)))))))"

section \<open>Dispatch\<close>

definition handleCollection :: "('j, 'db, 'd, 'v) Handler \<Rightarrow> bool \<Rightarrow> pathvals \<Rightarrow> frequest \<Rightarrow> ('j, 'db, 'd) world \<Rightarrow>
    (('j, 'db, 'd) world \<times> 'j fresponse) option" where
  "handleCollection h nsd pv q w = (case resolveByPath (hReg h) pv of
      None \<Rightarrow> Some (w, writeErr (NotFound \<lparr>grGroup = pvGroup pv, grResource = pvResource pv\<rparr> ''''))
    | Some res \<Rightarrow>
       (let ns = (if nsd then pvNamespace pv else '''')
        in if fqMethod q = ''GET''
           then Some (if isWatch q then facade_watch h q res ns w else (w, facade_list h q res ns (ws w)))
           else if fqMethod q = ''POST'' then facade_create h q res ns w
           else Some (w, writeErr (MethodNotSupported (GVR_GroupResource (rGVR res)) (fqMethod q)))))"

definition handleItem :: "('j, 'db, 'd, 'v) Handler \<Rightarrow> bool \<Rightarrow> bool \<Rightarrow> pathvals \<Rightarrow> frequest \<Rightarrow> ('j, 'db, 'd) world \<Rightarrow>
    ('j, 'db, 'd) world \<times> 'j fresponse" where
  "handleItem h nsd sub pv q w = (case resolveByPath (hReg h) pv of
      None \<Rightarrow> (w, writeErr (NotFound \<lparr>grGroup = pvGroup pv, grResource = pvResource pv\<rparr> (pvName pv)))
    | Some res \<Rightarrow>
       (let ns = (if nsd then pvNamespace pv else '''');
            nm = pvName pv;
            subresource = (if sub then pvSubresource pv else '''');
            isStatus = (subresource = ''status'')
        in if subresource = ''scale'' then handleScale h q res ns nm w
           else if fqMethod q = ''GET'' then (w, facade_get res ns nm (ws w))
           else if fqMethod q = ''PUT'' then facade_update h q res ns nm isStatus w
           else if fqMethod q = ''PATCH'' then facade_patch h q res ns nm isStatus w
           else if fqMethod q = ''DELETE'' then facade_delete h res ns nm w
           else (w, writeErr (MethodNotSupported (GVR_GroupResource (rGVR res)) (fqMethod q)))))"

section \<open>Routing\<close>

text \<open>The patterns of the multiplexer, by the number of segments they match; a wildcard matches one non-empty
  segment, and the only two patterns that match one path are the port forwarding of pods, which is the more specific,
  and a subresource.\<close>

datatype route =
    RVersion | RAPIVersions | RCoreResources | RGroupList | RGroupResources string string
  | ROpenAPIRoot | ROpenAPICore | ROpenAPIGroup string string
  | RCollection bool pathvals | RItem bool bool pathvals | RPortForward string | RHealth

definition core_path :: "string \<Rightarrow> string \<Rightarrow> string \<Rightarrow> string \<Rightarrow> pathvals" where
  "core_path ns res nm sub = \<lparr>pvGroup = '''', pvVersion = '''', pvNamespace = ns, pvResource = res, pvName = nm, pvSubresource = sub\<rparr>"

definition group_path :: "string \<Rightarrow> string \<Rightarrow> string \<Rightarrow> string \<Rightarrow> string \<Rightarrow> string \<Rightarrow> pathvals" where
  "group_path g v ns res nm sub = \<lparr>pvGroup = g, pvVersion = v, pvNamespace = ns, pvResource = res, pvName = nm, pvSubresource = sub\<rparr>"

definition buildMux :: "bool \<Rightarrow> string list \<Rightarrow> route option" where
  "buildMux portForward path = (case path of
      [a] \<Rightarrow> (if a = ''version'' then Some RVersion else if a = ''api'' then Some RAPIVersions
        else if a = ''apis'' then Some RGroupList else if a = ''healthz'' \<or> a = ''readyz'' then Some RHealth else None)
    | [a, b] \<Rightarrow> (if a = ''api'' \<and> b = ''v1'' then Some RCoreResources
        else if a = ''openapi'' \<and> b = ''v3'' then Some ROpenAPIRoot else None)
    | [a, b, c] \<Rightarrow> (if a = ''api'' \<and> b = ''v1'' then Some (RCollection False (core_path '''' c '''' ''''))
        else if a = ''apis'' then Some (RGroupResources b c) else None)
    | [a, b, c, d] \<Rightarrow> (if a = ''api'' \<and> b = ''v1'' then Some (RItem False False (core_path '''' c d ''''))
        else if a = ''apis'' then Some (RCollection False (group_path b c '''' d '''' ''''))
        else if a = ''openapi'' \<and> b = ''v3'' \<and> c = ''api'' \<and> d = ''v1'' then Some ROpenAPICore else None)
    | [a, b, c, d, e] \<Rightarrow> (if a = ''api'' \<and> b = ''v1'' \<and> c = ''namespaces'' then Some (RCollection True (core_path d e '''' ''''))
        else if a = ''apis'' then Some (RItem False False (group_path b c '''' d e ''''))
        else if a = ''openapi'' \<and> b = ''v3'' \<and> c = ''apis'' then Some (ROpenAPIGroup d e) else None)
    | [a, b, c, d, e, f] \<Rightarrow> (if a = ''api'' \<and> b = ''v1'' \<and> c = ''namespaces'' then Some (RItem True False (core_path d e f ''''))
        else if a = ''apis'' \<and> d = ''namespaces'' then Some (RCollection True (group_path b c e f '''' '''')) else None)
    | [a, b, c, d, e, f, g] \<Rightarrow> (if a = ''api'' \<and> b = ''v1'' \<and> c = ''namespaces''
        then Some (if portForward \<and> e = ''pods'' \<and> g = ''portforward'' then RPortForward f else RItem True True (core_path d e f g))
        else if a = ''apis'' \<and> d = ''namespaces'' then Some (RItem True False (group_path b c e f g '''')) else None)
    | [a, b, c, d, e, f, g, i] \<Rightarrow> (if a = ''apis'' \<and> d = ''namespaces'' then Some (RItem True True (group_path b c e f g i)) else None)
    | _ \<Rightarrow> None)"

text \<open>Patterns with the method \<^verbatim>\<open>GET\<close> match \<^verbatim>\<open>HEAD\<close> too; the multiplexer answers 405 to other methods and 404 where nothing matches.
  The port forwarder is \<open>pf\<close>.\<close>

definition getOnly :: "frequest \<Rightarrow> 'j fresponse \<Rightarrow> 'j fresponse" where
  "getOnly q resp = (if fqMethod q = ''GET'' \<or> fqMethod q = ''HEAD'' then resp else writeJSON 405 (BodyText ''Method Not Allowed''))"

definition facade_ServeHTTP :: "('j, 'db, 'd, 'v) Handler \<Rightarrow> (string \<Rightarrow> 'j fresponse) \<Rightarrow> frequest \<Rightarrow> ('j, 'db, 'd) world \<Rightarrow>
    (('j, 'db, 'd) world \<times> 'j fresponse) option" where
  "facade_ServeHTTP h pf q w = (case buildMux (hPortForward h) (fqPath q) of
      None \<Rightarrow> Some (w, writeJSON 404 (BodyText ''404 page not found''))
    | Some rt \<Rightarrow> (case rt of
        RVersion \<Rightarrow> Some (w, getOnly q handleVersion)
      | RAPIVersions \<Rightarrow> Some (w, getOnly q handleAPIVersions)
      | RCoreResources \<Rightarrow> Some (w, getOnly q (writeResourceList (hReg h) '''' ''v1''))
      | RGroupList \<Rightarrow> Some (w, getOnly q (handleAPIGroupList (hReg h)))
      | RGroupResources g v \<Rightarrow> Some (w, getOnly q (writeResourceList (hReg h) g v))
      | ROpenAPIRoot \<Rightarrow> Some (w, getOnly q (handleOpenAPIV3Root (hReg h)))
      | ROpenAPICore \<Rightarrow> Some (w, getOnly q (writeJSON 200 (BodyOpenAPI (openAPIV3Doc (hReg h) '''' ''v1''))))
      | ROpenAPIGroup g v \<Rightarrow> Some (w, getOnly q (writeJSON 200 (BodyOpenAPI (openAPIV3Doc (hReg h) g v))))
      | RCollection nsd pv \<Rightarrow> handleCollection h nsd pv q w
      | RItem nsd sub pv \<Rightarrow> Some (handleItem h nsd sub pv q w)
      | RPortForward nm \<Rightarrow> Some (w, pf nm)
      | RHealth \<Rightarrow> Some (w, getOnly q (writeJSON 200 (BodyText ''ok'')))))"

end
