(* ===== verification/FacadeProps.thy ===== *)
theory FacadeProps
  imports Facade ControlProps StoreProps
begin

text \<open>
  What the facade guarantees: its requests are steps of the control plane, what a create stores, and
  how discovery, the OpenAPI documents and the routes agree.
\<close>

section \<open>Requests are steps of the control plane\<close>

lemma client_steps: "store_op (rLib r) (ws w) es s \<Longrightarrow> (control_step r)\<^sup>*\<^sup>* w (w\<lparr>ws := s\<rparr>)"
  by (blast intro: control_step.client)

lemma create_steps:
  assumes "Create (rLib r) g ob (ws w) = Some (s, res)"
  shows "(control_step r)\<^sup>*\<^sup>* w (w\<lparr>ws := s\<rparr>)"
  using assms by (cases res) (auto intro!: client_steps intro: store_op.create store_op.create_error)

lemma update_steps:
  assumes "Update (rLib r) g ob st (ws w) = (s, res)"
  shows "(control_step r)\<^sup>*\<^sup>* w (w\<lparr>ws := s\<rparr>)"
  using assms by (cases res) (auto intro!: client_steps intro: store_op.update store_op.update_error)

lemma patch_steps:
  assumes p: "Patch (rLib r) g ns nm t body st (ws w) = (s, res)" and ok: "keys_ok s"
  shows "(control_step r)\<^sup>*\<^sup>* w (w\<lparr>ws := s\<rparr>)"
proof (cases res)
  case (Inl e)
  then show ?thesis using p by (auto intro!: client_steps intro: store_op.patch_error)
next
  case (Inr m)
  have "keeps_identity (ws w) g ns nm m"
    using p unfolding Inr
  proof (rule Patch_okE)
    fix rm old patched oldJSON j
    assume a: "resources (ws w) g = Some rm" and c: "commitUpdate (rLib r) g (key (rmNamespaced rm) (eff_ns rm ns) nm) old patched st (ws w) = (s, m)"
    have v: "view s (g, key (rmNamespaced rm) (eff_ns rm ns) nm) = Some m" using commitUpdate_facts(2) [OF c] by simp
    have "resources s g = Some rm" using commitUpdate_facts(1) [OF c] a by (simp add: commits_def)
    with v ok show ?thesis by (simp add: keys_ok_def keeps_identity_def a)
  qed
  then show ?thesis using p Inr by (auto intro!: client_steps intro: store_op.patch)
qed

lemma watch_steps:
  assumes "Watch ord g opts (ws w) = (s, res)"
  shows "(control_step r)\<^sup>*\<^sup>* w (w\<lparr>ws := s\<rparr>)"
  using assms by (auto intro!: client_steps intro: store_op.watch)

lemma delete_steps: "(control_step r)\<^sup>*\<^sup>* w (fst (StoreDelete r g ns nm w))"
  by (cases "StoreDelete r g ns nm w") (auto intro: control_step.cascade)

lemma ensureNamespace_steps:
  assumes "ensureNamespace h nm s = Some s'"
  shows "(control_step (hRec h))\<^sup>*\<^sup>* (w\<lparr>ws := s\<rparr>) (w\<lparr>ws := s'\<rparr>)"
  using assms create_steps [of "hRec h" NamespaceGVR _ "w\<lparr>ws := s\<rparr>"]
  by (auto simp: ensureNamespace_def split: if_splits sum.splits)

lemma facade_create_cases:
  assumes "facade_create h q res ns w = Some (w', resp)"
  obtains (refused) e where "w' = w" "resp = writeErr e"
  | (failed) ob s e where "Create (rLib (hRec h)) (rGVR res) ob (ws w) = Some (s, Inl e)" "w' = w\<lparr>ws := s\<rparr>" "resp = writeErr e"
  | (created) ob0 ob s ob' s1 where "createForm res ns ob0 = Inr ob" "Create (rLib (hRec h)) (rGVR res) ob (ws w) = Some (s, Inr ob')"
      "ensureNamespace h (namespace ob') s = Some s1" "w' = w\<lparr>ws := s1\<rparr>" "resp = writeJSON 201 (BodyObj ob')"
proof (cases "decodeObject (rLib (hRec h)) q")
  case (Inl e)
  then show ?thesis using assms refused by (auto simp: facade_create_def)
next
  case dec: (Inr ob0)
  show ?thesis
  proof (cases "createForm res ns ob0")
    case (Inl e)
    then show ?thesis using assms dec refused by (auto simp: facade_create_def)
  next
    case form: (Inr ob)
    obtain s x where c: "Create (rLib (hRec h)) (rGVR res) ob (ws w) = Some (s, x)"
      using assms dec form by (simp add: facade_create_def split: option.splits) fastforce
    show ?thesis
    proof (cases x)
      case (Inl e)
      then show ?thesis using assms dec form c failed by (auto simp: facade_create_def)
    next
      case (Inr ob')
      then obtain s1 where "ensureNamespace h (namespace ob') s = Some s1" "w' = w\<lparr>ws := s1\<rparr>" "resp = writeJSON 201 (BodyObj ob')"
        using assms dec form c by (auto simp: facade_create_def)
      with created form c Inr show ?thesis by blast
    qed
  qed
qed

lemma facade_create_steps:
  assumes "facade_create h q res ns w = Some (w', resp)"
  shows "(control_step (hRec h))\<^sup>*\<^sup>* w w'"
  using assms
proof (cases rule: facade_create_cases)
  case (failed ob s e)
  then show ?thesis by (auto intro: create_steps)
next
  case (created ob0 ob s ob' s1)
  have "(control_step (hRec h))\<^sup>*\<^sup>* w (w\<lparr>ws := s\<rparr>)" using created(2) by (rule create_steps)
  also have "(control_step (hRec h))\<^sup>*\<^sup>* (w\<lparr>ws := s\<rparr>) (w\<lparr>ws := s1\<rparr>)" using created(3) by (rule ensureNamespace_steps)
  finally show ?thesis by (simp add: created(4))
qed simp

lemma facade_update_steps: "(control_step (hRec h))\<^sup>*\<^sup>* w (fst (facade_update h q res ns nm st w))"
  by (auto simp: facade_update_def Let_def intro: update_steps split: sum.splits prod.splits)

lemma handleScale_steps: "(control_step (hRec h))\<^sup>*\<^sup>* w (fst (handleScale h q res ns nm w))"
  by (auto simp: handleScale_def intro: update_steps split: sum.splits option.splits prod.splits)

lemma facade_watch_steps: "(control_step (hRec h))\<^sup>*\<^sup>* w (fst (facade_watch h q res ns w))"
  by (auto simp: facade_watch_def intro: watch_steps split: sum.splits prod.splits)

lemma facade_delete_steps: "(control_step (hRec h))\<^sup>*\<^sup>* w (fst (facade_delete h res ns nm w))"
  using delete_steps [of "hRec h" w "rGVR res" ns nm]
  by (auto simp: facade_delete_def split: sum.splits prod.splits)

lemma facade_patch_steps:
  assumes "keys_ok (ws (fst (facade_patch h q res ns nm st w)))"
  shows "(control_step (hRec h))\<^sup>*\<^sup>* w (fst (facade_patch h q res ns nm st w))"
  using assms by (auto simp: facade_patch_def intro: patch_steps split: sum.splits prod.splits)

lemma handleItem_steps:
  assumes "handleItem h nsd sub pv q w = (w', resp)" "fqMethod q = ''PATCH'' \<Longrightarrow> keys_ok (ws w')"
  shows "(control_step (hRec h))\<^sup>*\<^sup>* w w'"
proof (cases "resolveByPath (hReg h) pv")
  case (Some res)
  show ?thesis
    using assms handleScale_steps [of h w] facade_update_steps [of h w] facade_delete_steps [of h w] facade_patch_steps [of h]
    by (auto simp: handleItem_def Some Let_def split: if_splits) (metis fst_conv)+
qed (use assms(1) in \<open>simp add: handleItem_def\<close>)

lemma handleCollection_steps:
  assumes "handleCollection h nsd pv q w = Some (w', resp)"
  shows "(control_step (hRec h))\<^sup>*\<^sup>* w w'"
  using assms facade_watch_steps [of h w] facade_create_steps [of h q _ _ w w' resp]
  by (auto simp: handleCollection_def Let_def split: option.splits if_splits) (metis fst_conv)+

text \<open>A request to the API server does to the control plane what a sequence of steps of the control plane does, so everything that holds of
  its runs holds with clients that speak HTTP: reads change nothing but the watches, a delete cascades, a write is
  one operation of the store, a create possibly two. The one exception is a patch that leaves an object under a key
  that does not name it.\<close>

theorem facade_refines_control:
  assumes "facade_ServeHTTP h pf q w = Some (w', resp)" "fqMethod q = ''PATCH'' \<Longrightarrow> keys_ok (ws w')"
  shows "(control_step (hRec h))\<^sup>*\<^sup>* w w'"
  using assms handleItem_steps [of h _ _ _ q w w' resp] handleCollection_steps [of h _ _ q w w' resp]
  by (auto simp: facade_ServeHTTP_def split: option.splits route.splits)

section \<open>Creating\<close>

lemma stored_by_Create:
  assumes "Create L g ob s = Some (s', Inr ob')"
  obtains rm where "resources s g = Some rm" "resources s' = resources s"
    "view s' = (view s)((g, key (rmNamespaced rm) (namespace ob') (name ob')) \<mapsto> ob')" "namespace ob' = eff_ns rm (namespace ob)"
    "kind ob' = kind ob" "status ob' = status ob" "spec ob' = spec ob" "name ob \<noteq> [] \<Longrightarrow> name ob' = name ob"
proof -
  from assms obtain rm ob1 i where rm: "resources s g = Some rm"
    and cn: "createNamed L g rm ob1 (s\<lparr>randCount := i\<rparr>) = (s', Inr ob')"
    and ob1: "namespace ob1 = eff_ns rm (namespace ob)" "name ob1 = name ob \<or> name ob = ''''"
      "ob1 = ob\<lparr>namespace := namespace ob1, name := name ob1\<rparr>"
    by (rule Create_okE)
  note c = createNamed_ok [OF cn, simplified, OF rm]
  obtain s1 where st: "stampNew ob1 (s\<lparr>randCount := i\<rparr>) = (s1, ob')" using c(6) by blast
  have "kind ob1 = kind ob" "status ob1 = status ob" "spec ob1 = spec ob"
    by (subst ob1(3), simp)+
  then have "kind ob' = kind ob" "status ob' = status ob" "spec ob' = spec ob"
    using st by (auto simp: stampNew_def Let_def split: if_splits)
  moreover have "resources s' = resources s" using c(1) by (simp add: commits_def)
  moreover have "view s' = (view s)((g, key (rmNamespaced rm) (namespace ob') (name ob')) \<mapsto> ob')"
    using c(3-5) by (simp add: view_def lookup_def fun_eq_iff)
  ultimately show ?thesis using that rm c(4,5) ob1(1,2) by auto
qed

lemma Get_iff_view: "resources s g = Some rm \<Longrightarrow> Get g ns nm s = Inr ob \<longleftrightarrow> view s (g, key (rmNamespaced rm) ns nm) = Some ob"
  by (auto simp: Get_def meta_def view_apply split: option.splits)

lemma ensureNamespace_effect:
  assumes ens: "ensureNamespace h nm s = Some s'" and reg: "resources s NamespaceGVR = Some rm" "\<not> rmNamespaced rm"
  shows "resources s' = resources s \<and> (nm \<noteq> [] \<longrightarrow> (\<exists>n. Get NamespaceGVR [] nm s' = Inr n)) \<and>
    (g \<noteq> NamespaceGVR \<or> nm = [] \<longrightarrow> view s' (g, k) = view s (g, k))"
proof (cases "nm = [] \<or> (\<exists>n. Get NamespaceGVR [] nm s = Inr n)")
  case True
  then show ?thesis using ens by (auto simp: ensureNamespace_def split: if_splits)
next
  case False
  then obtain e where e: "Get NamespaceGVR [] nm s = Inl e" by (cases "Get NamespaceGVR [] nm s") auto
  let ?ob = "empty_obj\<lparr>apiVersion := ''v1'', kind := ''Namespace'', name := nm, status := Some (phaseTree (hLib h) ''Active'')\<rparr>"
  obtain x where x: "Create (rLib (hRec h)) NamespaceGVR ?ob s = Some (s', x)"
    using ens False e by (auto simp: ensureNamespace_def)
  have free: "lookup s NamespaceGVR (''/'' @ nm) = None"
    using e reg by (auto simp: Get_def meta_def key_def split: option.splits)
  show ?thesis
  proof (cases x)
    case (Inl err)
    have "Create (rLib (hRec h)) NamespaceGVR ?ob s = Some (createNamed (rLib (hRec h)) NamespaceGVR rm ?ob s)"
      using False reg by (simp add: Create_def meta_def Let_def empty_obj_def)
    then have "lookup s NamespaceGVR (key (rmNamespaced rm) (namespace ?ob) (name ?ob)) \<noteq> None"
      using x Inl by (metis createNamed_err(3) option.inject)
    with free reg(2) show ?thesis by (simp add: key_def)
  next
    case (Inr ob')
    from x [unfolded Inr] obtain rm' where c: "resources s NamespaceGVR = Some rm'" "resources s' = resources s"
      "view s' = (view s)((NamespaceGVR, key (rmNamespaced rm') (namespace ob') (name ob')) \<mapsto> ob')" "name ob' = nm"
      using False by (auto elim!: stored_by_Create)
    then show ?thesis using reg False by (auto simp: Get_iff_view [of s' NamespaceGVR rm] key_def)
  qed
qed

lemma createForm_ok:
  assumes "createForm res ns ob0 = Inr ob" "rKind res \<noteq> []"
  shows "kind ob \<noteq> []" "rHasStatus res \<longrightarrow> status ob = None" "rNamespaced res \<longrightarrow> namespace ob \<noteq> [] \<and> (ns = [] \<or> namespace ob = ns)"
  using assms by (auto simp: createForm_def Let_def split: if_splits sum.splits)

text \<open>C19: an object created through the API is stored under its name in the namespace of the URL, with a kind, without the status a
  client may have sent where the resource has a status of its own, and its namespace exists afterwards. A create into a
  namespaced resource without any namespace never succeeds.\<close>

theorem create_places_object:
  assumes new: "facade_create h q res ns w = Some (w', resp)" "fcode resp = 201"
    and reg: "resources (ws w) (rGVR res) = Some rm" "rmNamespaced rm = rNamespaced res" "rKind res \<noteq> []"
    and nsreg: "resources (ws w) NamespaceGVR = Some nrm" "\<not> rmNamespaced nrm"
  shows "\<exists>ob. fbody resp = BodyObj ob \<and> Get (rGVR res) (namespace ob) (name ob) (ws w') = Inr ob \<and> kind ob \<noteq> [] \<and>
    (rHasStatus res \<longrightarrow> status ob = None) \<and>
    (rNamespaced res \<longrightarrow> namespace ob \<noteq> [] \<and> (ns = [] \<or> namespace ob = ns) \<and> (\<exists>n. Get NamespaceGVR [] (namespace ob) (ws w') = Inr n))"
  using new(1)
proof (cases rule: facade_create_cases)
  case (created ob0 ob s ob' s1)
  from created(2) reg(1) have c: "resources s = resources (ws w)" "namespace ob' = eff_ns rm (namespace ob)"
    "view s = (view (ws w))((rGVR res, key (rmNamespaced rm) (namespace ob') (name ob')) \<mapsto> ob')" "kind ob' = kind ob" "status ob' = status ob"
    by (auto elim: stored_by_Create)
  note e = ensureNamespace_effect [OF created(3), unfolded c(1), OF nsreg]
  have "rNamespaced res \<Longrightarrow> rGVR res \<noteq> NamespaceGVR" using reg(1,2) nsreg by auto
  moreover have "\<not> rNamespaced res \<Longrightarrow> namespace ob' = []" using c(2) reg(2) by (simp add: eff_ns_def)
  ultimately have "view s1 (rGVR res, k) = view s (rGVR res, k)" for k using e [of "rGVR res" k] by auto
  then have "Get (rGVR res) (namespace ob') (name ob') s1 = Inr ob'"
    using e reg(1) c(1,3) by (simp add: Get_iff_view)
  then show ?thesis
    using createForm_ok [OF created(1) reg(3)] c(2,4,5) e created(4,5) reg(2) by (auto simp: writeJSON_def eff_ns_def)
next
  case (failed ob s e)
  then show ?thesis using new(2) by (cases e) (simp_all add: writeErr_def writeJSON_def)
next
  case (refused e)
  then show ?thesis using new(2) by (cases e) (simp_all add: writeErr_def writeJSON_def)
qed

section \<open>Subresources\<close>

text \<open>Behind the dispatch the path no longer matters.\<close>

lemma path_irrelevant [simp]:
  "facade_update h (q\<lparr>fqPath := p\<rparr>) res ns nm st w = facade_update h q res ns nm st w"
  "facade_patch h (q\<lparr>fqPath := p\<rparr>) res ns nm st w = facade_patch h q res ns nm st w"
  by (simp_all add: facade_update_def facade_patch_def decodeObject_def readBody_def split: sum.split)

text \<open>A path that names a subresource the server does not have is served as the object itself, whatever the method: a DELETE
  of an unknown subresource, and of the status subresource, deletes the object with everything it owns.\<close>

theorem subresource_is_object:
  assumes "sub \<noteq> ''scale''" "sub \<noteq> ''status'' \<or> fqMethod q \<in> {''GET'', ''DELETE''}"
  shows "facade_ServeHTTP h pf (q\<lparr>fqPath := [''apis'', g, v, ''namespaces'', ns, rs, nm, sub]\<rparr>) w =
    facade_ServeHTTP h pf (q\<lparr>fqPath := [''apis'', g, v, ''namespaces'', ns, rs, nm]\<rparr>) w"
  using assms by (auto simp: facade_ServeHTTP_def buildMux_def handleItem_def group_path_def resolveByPath_def Let_def split: option.split)

section \<open>Scaling\<close>

text \<open>What the two libraries document: decoding into a map stores every number as a float, and the accessor gives only values
  stored as \<^verbatim>\<open>int64\<close>.\<close>

fun has_int64 :: "json \<Rightarrow> bool" where
  "has_int64 (JInt64 n) = True"
| "has_int64 (JArray xs) = list_ex has_int64 xs"
| "has_int64 (JObject kvs) = list_ex (\<lambda>kv. has_int64 (snd kv)) kvs"
| "has_int64 _ = False"

definition json_laws :: "'j facadelib \<Rightarrow> bool" where
  "json_laws F \<longleftrightarrow> (\<forall>bs m. jsonUnmarshal F bs = Inr m \<longrightarrow> \<not> has_int64 m) \<and>
     (\<forall>m path n. NestedInt64 F m path = Some n \<longrightarrow> has_int64 m)"

text \<open>C38: no request can scale anything: a write to the scale subresource is refused whatever its body says, and
  changes nothing, because the number in the body is decoded as a float and read as an integer.\<close>

theorem scale_writes_refused:
  assumes "json_laws (hLib h)" "fqMethod q = ''PUT'' \<or> fqMethod q = ''PATCH''"
    and "fqPath q = [''apis'', g, v, ''namespaces'', ns, rs, nm, ''scale'']"
  shows "\<exists>e. facade_ServeHTTP h pf q w = Some (w, writeErr e)"
proof -
  have "extractReplicas (hLib h) bs = None" for bs
    using assms(1) by (auto simp: extractReplicas_def json_laws_def split: sum.split) (meson not_None_eq)
  then show ?thesis
    using assms(2,3)
    by (auto simp: facade_ServeHTTP_def buildMux_def handleItem_def handleScale_def Let_def group_path_def split: option.split sum.split)
qed

section \<open>Discovery\<close>

text \<open>The path of the collection of a resource.\<close>

definition collection_path :: "Resource \<Rightarrow> string \<Rightarrow> string list" where
  "collection_path res ns = (if Group (rGVR res) = [] then [''api'', Version (rGVR res)] else [''apis'', Group (rGVR res), Version (rGVR res)]) @
     (if rNamespaced res then [''namespaces'', ns] else []) @ [ResourceName (rGVR res)]"

text \<open>The entries of the OpenAPI document of a group version for one of its resources: the operation that
  creates, and the schema it refers to.\<close>

definition documented :: "OpenAPI \<Rightarrow> Resource \<Rightarrow> bool" where
  "documented doc res = (
     let g = Group (rGVR res); v = Version (rGVR res);
         gvk = \<lparr>gvkGroup = g, gvkVersion = v, gvkKind = rKind res\<rparr>;
         op_ok = (\<lambda>op. opContent op ''application/json'' = Some (''#/components/schemas/'' @ schemaNameOf g v res) \<and> opGVK op = gvk \<and>
           ''fieldValidation'' \<in> set (map fst (opParameters op)))
     in (case oaSchemas doc (schemaNameOf g v res) of None \<Rightarrow> False | Some sm \<Rightarrow> smGVK sm = [gvk] \<and> smPreserveUnknownFields sm) \<and>
        (case oaPaths doc (collPathOf g v res) of None \<Rightarrow> False | Some p \<Rightarrow> (case piPost p of None \<Rightarrow> False | Some op \<Rightarrow> op_ok op)) \<and>
        (case oaPaths doc (collPathOf g v res @ ''/{name}'') of None \<Rightarrow> False
         | Some p \<Rightarrow> (case piPut p of None \<Rightarrow> False | Some op \<Rightarrow> op_ok op) \<and> (case piPatch p of None \<Rightarrow> False | Some op \<Rightarrow> op_ok op)))"

lemma default_documented:
  "list_all (\<lambda>res. documented (openAPIV3Doc NewDefaultRegistry (Group (rGVR res)) (Version (rGVR res))) res \<and>
     (Group (rGVR res) = [] \<longrightarrow> Version (rGVR res) = ''v1'' \<and> (rNamespaced res \<or> ResourceName (rGVR res) = ''namespaces'')) \<and>
     (Group (rGVR res) \<noteq> [] \<longrightarrow> Version (rGVR res) \<noteq> [] \<and> rNamespaced res)) (reg_list NewDefaultRegistry)"
  by code_simp

lemma default_entry:
  assumes "res \<in> set (reg_list NewDefaultRegistry)"
  shows "set (resourceEntries res) \<subseteq> set (concat (map resourceEntries (ResourcesForGroupVersion NewDefaultRegistry (Group (rGVR res)) (Version (rGVR res)))))"
  using assms by (auto simp: set_ResourcesForGroupVersion)


section \<open>Witnesses\<close>

text \<open>An accessor that walks down objects, and a decoder of the one body of the samples.\<close>

fun sample_nested :: "json \<Rightarrow> string list \<Rightarrow> int option" where
  "sample_nested (JInt64 n) [] = Some n"
| "sample_nested (JObject kvs) (k # ks) = (case map_of kvs k of Some j \<Rightarrow> sample_nested j ks | None \<Rightarrow> None)"
| "sample_nested _ _ = None"

lemma sample_nested_int64: "sample_nested j ks = Some n \<Longrightarrow> has_int64 j"
proof (induction j ks rule: sample_nested.induct)
  case (2 kvs k ks)
  then obtain j where "map_of kvs k = Some j" "sample_nested j ks = Some n" by (auto split: option.splits)
  then have "has_int64 j" "(k, j) \<in> set kvs" using 2(1) [of j] by (auto dest: map_of_SomeD)
  then show ?case by (auto simp: list_ex_iff intro: bexI [of _ "(k, j)"])
qed auto

definition sample_flib :: "tree facadelib" where
  "sample_flib = \<lparr>nestedReplicas = (\<lambda>_. Some 1), setReplicas = (\<lambda>_ t. t), phaseTree = (\<lambda>_. TSandbox 0),
     jsonUnmarshal = (\<lambda>bs. Inr (JObject [(''spec'', JObject [(''replicas'', JFloat64 3)])])), NestedInt64 = sample_nested\<rparr>"

lemma sample_json_laws: "json_laws sample_flib"
  using sample_nested_int64 by (auto simp: json_laws_def sample_flib_def)

definition sample_handler :: "(tree, unit, FakeDriver, nat) Handler" where
  "sample_handler = \<lparr>hRec = naming_rec, hReg = NewDefaultRegistry, hLib = sample_flib, hPortForward = True\<rparr>"

definition sample_request :: "string \<Rightarrow> string list \<Rightarrow> frequest" where
  "sample_request m sub = \<lparr>fqMethod = m, fqPath = [''apis'', ''agents.x-k8s.io'', ''v1beta1'', ''namespaces'', ''d'', ''sandboxes'', ''b''] @ sub,
     fqQuery = (\<lambda>_. []), fqHeader = (\<lambda>_. []), fqBody = Inr (bytesOf ''x''), fqFlusher = True\<rparr>"

definition sample_res :: Resource where
  "sample_res = mk_resource SandboxGVR ''Sandbox'' ''SandboxList'' ''sandbox'' [''sandbox'', ''sb''] True True False\<lparr>rVerbs := defaultVerbs\<rparr>"

lemma sample_res_in: "sample_res \<in> set (Registry_All NewDefaultRegistry)"
proof -
  have "mk_resource SandboxGVR ''Sandbox'' ''SandboxList'' ''sandbox'' [''sandbox'', ''sb''] True True False \<in> set default_resources"
    by (simp add: default_resources_def)
  then show ?thesis
    unfolding sample_res_def Registry_All_def default_registry_list set_sort set_map by (rule imageI)
qed

definition api_world :: "(tree, unit, FakeDriver) world" where
  "api_world = \<lparr>ws = Register NamespaceGVR False sample_empty, wd = NewFakeDriver\<rparr>"

theorem facade_refines_control_witness:
  "\<exists>w' resp. facade_ServeHTTP sample_handler (\<lambda>_. handleVersion) (sample_request ''DELETE'' []) (box_world 0) = Some (w', resp) \<and>
     (control_step naming_rec)\<^sup>*\<^sup>* (box_world 0) w'"
proof -
  obtain w' resp where s: "facade_ServeHTTP sample_handler (\<lambda>_. handleVersion) (sample_request ''DELETE'' []) (box_world 0) = Some (w', resp)"
    by (cases "handleItem sample_handler True False (group_path ''agents.x-k8s.io'' ''v1beta1'' ''d'' ''sandboxes'' ''b'' []) (sample_request ''DELETE'' []) (box_world 0)")
       (simp add: facade_ServeHTTP_def buildMux_def sample_request_def)
  have "(control_step (hRec sample_handler))\<^sup>*\<^sup>* (box_world 0) w'"
    by (rule facade_refines_control [OF s]) (simp add: sample_request_def)
  with s show ?thesis by (auto simp: sample_handler_def)
qed

theorem create_places_object_witness:
  "\<exists>w' ob. Get SandboxGVR ''d'' ''x'' (ws w') = Inr ob \<and> (\<exists>n. Get NamespaceGVR [] ''d'' (ws w') = Inr n) \<and> status ob = None \<and>
     facade_create sample_handler (sample_request ''POST'' []) sample_res ''d'' api_world = Some (w', writeJSON 201 (BodyObj ob))"
proof -
  have "case facade_create sample_handler (sample_request ''POST'' []) sample_res ''d'' api_world of
      None \<Rightarrow> False | Some (w', resp) \<Rightarrow> fcode resp = 201 \<and> (case fbody resp of BodyObj ob \<Rightarrow> name ob = ''x'' | _ \<Rightarrow> False)"
    by code_simp
  then obtain w' resp where r0: "facade_create sample_handler (sample_request ''POST'' []) sample_res ''d'' api_world = Some (w', resp)"
      "fcode resp = 201" "case fbody resp of BodyObj ob \<Rightarrow> name ob = ''x'' | _ \<Rightarrow> False"
    unfolding evaluates_Some by blast
  then obtain ob where "fbody resp = BodyObj ob" "name ob = ''x''" by (cases "fbody resp") simp_all
  with r0 have c: "facade_create sample_handler (sample_request ''POST'' []) sample_res ''d'' api_world = Some (w', resp)"
      "fcode resp = 201" "fbody resp = BodyObj ob" "name ob = ''x''" by blast+
  have reg: "resources (ws api_world) (rGVR sample_res) = Some \<lparr>rmNamespaced = True, rmGroupRes = GVR_GroupResource SandboxGVR\<rparr>"
    "resources (ws api_world) NamespaceGVR = Some \<lparr>rmNamespaced = False, rmGroupRes = GVR_GroupResource NamespaceGVR\<rparr>"
    by (simp_all add: api_world_def sample_empty_def Register_def sample_res_def mk_resource_def gvr_defs)
  have r: "rNamespaced sample_res" "rKind sample_res \<noteq> []" "rHasStatus sample_res" "rGVR sample_res = SandboxGVR"
    by (simp_all add: sample_res_def mk_resource_def)
  have "resp = writeJSON 201 (BodyObj ob)" using c(2,3) by (cases resp) (simp add: writeJSON_def)
  with create_places_object [OF c(1,2) reg(1) _ _ reg(2)] c r show ?thesis by auto
qed

theorem subresource_is_object_witness:
  "facade_ServeHTTP sample_handler (\<lambda>_. handleVersion) (sample_request ''DELETE'' [''log'']) (box_world 0) =
   facade_ServeHTTP sample_handler (\<lambda>_. handleVersion) (sample_request ''DELETE'' []) (box_world 0)"
  using subresource_is_object [of "''log''" "sample_request ''DELETE'' []" sample_handler "\<lambda>_. handleVersion"
      "''agents.x-k8s.io''" "''v1beta1''" "''d''" "''sandboxes''" "''b''" "box_world 0"]
  by (simp add: sample_request_def)

theorem scale_writes_refused_witness:
  "\<exists>e. facade_ServeHTTP sample_handler (\<lambda>_. handleVersion) (sample_request ''PUT'' [''scale'']) (box_world 0) = Some (box_world 0, writeErr e)"
  by (rule scale_writes_refused) (simp_all add: sample_handler_def sample_json_laws sample_request_def)


end
