(* ===== verification/ResponseProps.thy ===== *)
theory ResponseProps
  imports FacadeProps
begin

text \<open>
  The answers of the API server are of the type their request asks for: an error with its own status code, or the kind of
  body the route and the method promise, about the object or the collection the URL names. One judgement per kind of route, one lemma
  per handler.
\<close>

section \<open>The judgements\<close>

text \<open>The resources of the registry are those of the store, as the construction of the handler registers them.\<close>

definition serves :: "('j, 'db, 'd, 'v) Handler \<Rightarrow> ('j, 'db) store \<Rightarrow> bool" where
  "serves h s \<longleftrightarrow> (\<forall>pv res rm. resolveByPath (hReg h) pv = Some res \<longrightarrow> resources s (rGVR res) = Some rm \<longrightarrow> rmNamespaced rm = rNamespaced res)"

definition is_error :: "'j fresponse \<Rightarrow> bool" where
  "is_error resp \<longleftrightarrow> (\<exists>e. resp = writeErr e)"

text \<open>The URL of an item and an object agree.\<close>

definition addressed :: "Resource \<Rightarrow> string \<Rightarrow> string \<Rightarrow> string \<Rightarrow> string \<Rightarrow> bool" where
  "addressed res ns nm ns' nm' \<longleftrightarrow> key (rNamespaced res) ns' nm' = key (rNamespaced res) ns nm"

definition item_answer :: "Resource \<Rightarrow> string \<Rightarrow> string \<Rightarrow> bool \<Rightarrow> frequest \<Rightarrow> 'j fresponse \<Rightarrow> bool" where
  "item_answer res ns nm scaling q resp \<longleftrightarrow> is_error resp \<or>
     (if scaling then \<exists>sc. resp = writeJSON 200 (BodyScale sc) \<and> fqMethod q \<in> {''GET'', ''PUT'', ''PATCH''} \<and> addressed res ns nm (slNamespace sc) (slName sc)
      else \<exists>ob. resp = writeJSON 200 (BodyObj ob) \<and> fqMethod q \<in> {''GET'', ''PUT'', ''PATCH'', ''DELETE''} \<and>
        (fqMethod q \<noteq> ''PATCH'' \<longrightarrow> addressed res ns nm (namespace ob) (name ob)))"

definition listed_in :: "Resource \<Rightarrow> string \<Rightarrow> 'j obj \<Rightarrow> bool" where
  "listed_in res ns ob \<longleftrightarrow> (rNamespaced res \<and> ns \<noteq> '''' \<longrightarrow> namespace ob = ns)"

definition collection_answer :: "Resource \<Rightarrow> string \<Rightarrow> frequest \<Rightarrow> 'j fresponse \<Rightarrow> bool" where
  "collection_answer res ns q resp \<longleftrightarrow> is_error resp \<or>
     (if fqMethod q = ''GET'' then
        (if isWatch q then \<exists>p. resp = writeJSON 200 (BodyStream p)
         else \<exists>v items. resp = writeJSON 200 (BodyList (GroupVersion (rGVR res)) (rListKind res) v items) \<and> (\<forall>ob \<in> set items. listed_in res ns ob))
      else fqMethod q = ''POST'' \<and> (\<exists>ob. resp = writeJSON 201 (BodyObj ob) \<and> listed_in res ns ob))"

definition answers :: "('j, 'db, 'd, 'v) Handler \<Rightarrow> (string \<Rightarrow> 'j fresponse) \<Rightarrow> frequest \<Rightarrow> 'j fresponse \<Rightarrow> bool" where
  "answers h pf q resp \<longleftrightarrow> (case buildMux (hPortForward h) (fqPath q) of
      None \<Rightarrow> fcode resp = 404
    | Some (RItem nsd sub pv) \<Rightarrow> (case resolveByPath (hReg h) pv of None \<Rightarrow> is_error resp
        | Some res \<Rightarrow> item_answer res (if nsd then pvNamespace pv else '''') (pvName pv) (sub \<and> pvSubresource pv = ''scale'') q resp)
    | Some (RCollection nsd pv) \<Rightarrow> (case resolveByPath (hReg h) pv of None \<Rightarrow> is_error resp
        | Some res \<Rightarrow> collection_answer res (if nsd then pvNamespace pv else '''') q resp)
    | Some (RPortForward nm) \<Rightarrow> resp = pf nm
    | Some _ \<Rightarrow> fcode resp = (if fqMethod q \<in> {''GET'', ''HEAD''} then 200 else 405))"

lemma writeJSON_inject [simp]: "writeJSON c b = writeJSON c' b' \<longleftrightarrow> c = c' \<and> b = b'"
  by (simp add: writeJSON_def)

lemma item_error [intro]: "is_error resp \<Longrightarrow> item_answer res ns nm sc q resp"
  by (simp add: item_answer_def)

lemma collection_error [intro]: "is_error resp \<Longrightarrow> collection_answer res ns q resp"
  by (simp add: collection_answer_def)

lemma item_object:
  "addressed res ns nm (namespace ob) (name ob) \<Longrightarrow> fqMethod q \<in> {''GET'', ''PUT'', ''DELETE''} \<Longrightarrow> item_answer res ns nm False q (writeJSON 200 (BodyObj ob))"
  by (auto simp: item_answer_def)

lemma is_error_writeErr [simp]: "is_error (writeErr e)"
  by (auto simp: is_error_def)

section \<open>Items\<close>

lemma key_eff_ns: "key (rmNamespaced rm) (eff_ns rm ns) nm = key (rmNamespaced rm) ns nm"
  by (simp add: key_def eff_ns_def)

lemma stored_addressed:
  assumes "keys_ok s" "resources s (rGVR res) = Some rm" "rmNamespaced rm = rNamespaced res"
    "lookup s (rGVR res) (key (rmNamespaced rm) (eff_ns rm ns) nm) = Some ob"
  shows "addressed res ns nm (namespace ob) (name ob)"
proof -
  have "key (rmNamespaced rm) (eff_ns rm ns) nm = key (rmNamespaced rm) (namespace ob) (name ob)"
    using assms(1,2,4) unfolding keys_ok_def view_apply by blast
  then show ?thesis using key_eff_ns [of rm ns nm] assms(3) by (simp add: addressed_def)
qed

lemma Get_addressed:
  assumes "keys_ok s" "Get (rGVR res) ns nm s = Inr ob" "\<And>rm. resources s (rGVR res) = Some rm \<Longrightarrow> rmNamespaced rm = rNamespaced res"
  shows "addressed res ns nm (namespace ob) (name ob)"
proof -
  from assms(2) obtain rm where rm: "resources s (rGVR res) = Some rm" "lookup s (rGVR res) (key (rmNamespaced rm) ns nm) = Some ob"
    by (auto simp: Get_def meta_def split: option.splits)
  then show ?thesis using stored_addressed [OF assms(1) rm(1) assms(3) [OF rm(1)], of ns nm ob] by (simp add: key_eff_ns)
qed

lemma Update_addressed:
  assumes "keys_ok s" "Update L (rGVR res) ob st s = (s', Inr m)" "\<And>rm. resources s (rGVR res) = Some rm \<Longrightarrow> rmNamespaced rm = rNamespaced res"
    "addressed res ns nm (namespace ob) (name ob)"
  shows "addressed res ns nm (namespace m) (name m)"
proof -
  from assms(2) obtain rm old where u: "resources s (rGVR res) = Some rm"
      "lookup s (rGVR res) (key (rmNamespaced rm) (eff_ns rm (namespace ob)) (name ob)) = Some old"
      "commitUpdate L (rGVR res) (key (rmNamespaced rm) (eff_ns rm (namespace ob)) (name ob)) old ob st s = (s', m)"
    by (rule Update_okE)
  have "addressed res (namespace ob) (name ob) (namespace old) (name old)" by (rule stored_addressed [OF assms(1) u(1) assms(3) [OF u(1)] u(2)])
  then show ?thesis using assms(4) commitUpdate_facts(3) [OF u(3)] by (simp add: addressed_def)
qed

lemma Delete_addressed:
  assumes "keys_ok s" "Delete L (rGVR res) ns nm s = (s', Inr d)" "\<And>rm. resources s (rGVR res) = Some rm \<Longrightarrow> rmNamespaced rm = rNamespaced res"
  shows "addressed res ns nm (namespace d) (name d)"
proof -
  from assms(2) obtain rm old where d: "resources s (rGVR res) = Some rm" "lookup s (rGVR res) (key (rmNamespaced rm) (eff_ns rm ns) nm) = Some old"
      "d = old\<lparr>resourceVersion := FormatUint (rv s + 1)\<rparr>"
    by (rule Delete_okE)
  show ?thesis using stored_addressed [OF assms(1) d(1) assms(3) [OF d(1)] d(2)] d(3) by simp
qed

lemma facade_get_answer:
  assumes "keys_ok s" "fqMethod q = ''GET''" "\<And>rm. resources s (rGVR res) = Some rm \<Longrightarrow> rmNamespaced rm = rNamespaced res"
  shows "item_answer res ns nm False q (facade_get res ns nm s)"
  using assms Get_addressed [of s res ns nm] by (auto simp: facade_get_def split: sum.split intro!: item_object)

lemma facade_update_answer:
  assumes "keys_ok (ws w)" "fqMethod q = ''PUT''" "\<And>rm. resources (ws w) (rGVR res) = Some rm \<Longrightarrow> rmNamespaced rm = rNamespaced res"
    and up: "facade_update h q res ns nm st w = (w', resp)"
  shows "item_answer res ns nm False q resp"
proof (cases "is_error resp")
  case False
  with up obtain ob s m where m: "Update (rLib (hRec h)) (rGVR res) (if rNamespaced res then ob\<lparr>name := nm, namespace := ns\<rparr> else ob\<lparr>name := nm\<rparr>) st (ws w) = (s, Inr m)"
      "resp = writeJSON 200 (BodyObj m)"
    by (auto simp: facade_update_def Let_def split: sum.splits prod.splits)
  have "addressed res ns nm (namespace (if rNamespaced res then ob\<lparr>name := nm, namespace := ns\<rparr> else ob\<lparr>name := nm\<rparr>))
      (name (if rNamespaced res then ob\<lparr>name := nm, namespace := ns\<rparr> else ob\<lparr>name := nm\<rparr>))"
    by (simp add: addressed_def key_def)
  note adr = Update_addressed [OF assms(1) m(1) assms(3) this]
  show ?thesis using item_object [OF adr, of q] assms(2) m(2) by simp
qed (rule item_error)

lemma facade_patch_answer:
  assumes "fqMethod q = ''PATCH''"
  shows "item_answer res ns nm False q (snd (facade_patch h q res ns nm st w))"
  using assms by (auto simp: facade_patch_def item_answer_def split: sum.split prod.split)

lemma facade_delete_answer:
  assumes "keys_ok (ws w)" "fqMethod q = ''DELETE''" "\<And>rm. resources (ws w) (rGVR res) = Some rm \<Longrightarrow> rmNamespaced rm = rNamespaced res"
    and del: "facade_delete h res ns nm w = (w', resp)"
  shows "item_answer res ns nm False q resp"
proof (cases "is_error resp")
  case False
  with del obtain d where d: "snd (StoreDelete (hRec h) (rGVR res) ns nm w) = Inr d" "resp = writeJSON 200 (BodyObj d)"
    by (auto simp: facade_delete_def split: sum.splits prod.splits)
  obtain s' where "Delete (rLib (hRec h)) (rGVR res) ns nm (ws w) = (s', Inr d)" using d(1) by (metis StoreDelete_result prod.collapse)
  note adr = Delete_addressed [OF assms(1) this assms(3)]
  show ?thesis using item_object [OF adr, of q] assms(2) d(2) by simp
qed (rule item_error)

lemma handleScale_answer:
  assumes "keys_ok (ws w)" "\<And>rm. resources (ws w) (rGVR res) = Some rm \<Longrightarrow> rmNamespaced rm = rNamespaced res"
    and sc: "handleScale h q res ns nm w = (w', resp)"
  shows "item_answer res ns nm True q resp"
proof (cases "is_error resp")
  case False
  then obtain ob where ob: "Get (rGVR res) ns nm (ws w) = Inr ob" using sc by (cases "Get (rGVR res) ns nm (ws w)") (auto simp: handleScale_def)
  note a = Get_addressed [OF assms(1) ob assms(2)]
  have "addressed res ns nm (namespace m) (name m)"
    if "Update (rLib (hRec h)) (rGVR res) (ob\<lparr>spec := x\<rparr>) False (ws w) = (s, Inr m)" for x s m
    using Update_addressed [OF assms(1) that assms(2)] a by simp
  then show ?thesis using sc False a ob
    by (auto simp: handleScale_def item_answer_def scaleObject_def Let_def split: if_splits sum.splits option.splits prod.splits)
qed (rule item_error)

lemma handleItem_answer:
  assumes ok: "keys_ok (ws w)" and res: "resolveByPath (hReg h) pv = Some res" and sv: "serves h (ws w)"
    and it: "handleItem h nsd sub pv q w = (w', resp)"
  shows "item_answer res (if nsd then pvNamespace pv else '''') (pvName pv) (sub \<and> pvSubresource pv = ''scale'') q resp"
proof -
  have ns: "resources (ws w) (rGVR res) = Some rm \<Longrightarrow> rmNamespaced rm = rNamespaced res" for rm using sv res by (auto simp: serves_def)
  have got: "fqMethod q = ''GET'' \<Longrightarrow> w' = w \<Longrightarrow> item_answer res n m False q (facade_get res n m (ws w'))" for n m
    using facade_get_answer [OF ok _ ns] by simp
  have pat: "facade_patch h q res n m st w = (w', resp) \<Longrightarrow> fqMethod q = ''PATCH'' \<Longrightarrow> item_answer res n m False q resp" for n m st
    using facade_patch_answer [of q res n m h st w] by simp
  show ?thesis
    using it unfolding handleItem_def res option.case Let_def
    by (auto split: if_splits intro: got facade_update_answer [OF ok _ ns] pat facade_delete_answer [OF ok _ ns] handleScale_answer [OF ok ns])
qed

section \<open>Collections\<close>

lemma facade_list_answer:
  assumes "fqMethod q = ''GET''" "\<not> isWatch q" "\<And>rm. resources s (rGVR res) = Some rm \<Longrightarrow> rmNamespaced rm = rNamespaced res"
  shows "collection_answer res ns q (facade_list h q res ns s)"
  using assms
  by (auto simp: facade_list_def collection_answer_def listed_in_def StoreList_def meta_def in_namespace_def split: sum.split option.splits)

lemma facade_watch_answer:
  assumes "fqMethod q = ''GET''" "isWatch q"
  shows "collection_answer res ns q (snd (facade_watch h q res ns w))"
  using assms by (auto simp: facade_watch_def collection_answer_def split: sum.split prod.split)

lemma facade_create_answer:
  assumes "fqMethod q = ''POST''" "\<And>rm. resources (ws w) (rGVR res) = Some rm \<Longrightarrow> rmNamespaced rm = rNamespaced res"
    and cr: "facade_create h q res ns w = Some (w', resp)"
  shows "collection_answer res ns q resp"
proof (cases "is_error resp")
  case False
  with cr obtain ob ob1 s m where m: "createForm res ns ob = Inr ob1" "Create (rLib (hRec h)) (rGVR res) ob1 (ws w) = Some (s, Inr m)" "resp = writeJSON 201 (BodyObj m)"
    by (auto simp: facade_create_def split: sum.splits option.splits prod.splits)
  from m(2) obtain rm where rm: "resources (ws w) (rGVR res) = Some rm" "namespace m = eff_ns rm (namespace ob1)" by (rule stored_by_Create)
  have "rNamespaced res \<longrightarrow> ns = '''' \<or> namespace ob1 = ns" using m(1) by (auto simp: createForm_def Let_def split: if_splits sum.splits)
  then show ?thesis using rm assms(1) assms(2) [OF rm(1)] m(3) by (auto simp: collection_answer_def listed_in_def eff_ns_def)
qed (rule collection_error)

lemma handleCollection_answer:
  assumes res: "resolveByPath (hReg h) pv = Some res" and sv: "serves h (ws w)" and c: "handleCollection h nsd pv q w = Some (w', resp)"
  shows "collection_answer res (if nsd then pvNamespace pv else '''') q resp"
proof -
  have ns: "resources (ws w) (rGVR res) = Some rm \<Longrightarrow> rmNamespaced rm = rNamespaced res" for rm using sv res by (auto simp: serves_def)
  have wat: "facade_watch h q res n w = (w', resp) \<Longrightarrow> fqMethod q = ''GET'' \<Longrightarrow> isWatch q \<Longrightarrow> collection_answer res n q resp" for n
    using facade_watch_answer [of q res n h w] by simp
  show ?thesis
    using c unfolding handleCollection_def res option.case Let_def
    by (auto split: if_splits intro: facade_list_answer [OF _ _ ns] wat facade_create_answer [OF _ ns])
qed

section \<open>All requests\<close>

text \<open>C10: every answer of the API server is of the type its request asks for. An error carries its own status code; an item is answered by
  the object the URL names, its scale by a scale of that name, a list by the list kind of the resource with objects of the namespace alone,
  a watch by a stream, a create by an object in that namespace with code 201; discovery by 200, or 405 for other methods; an unknown path by 404.
  Only a patched object may carry another name than the URL.\<close>

theorem responses_typed:
  assumes "facade_ServeHTTP h pf q w = Some (w', resp)" "keys_ok (ws w)" "serves h (ws w)"
  shows "answers h pf q resp"
proof (cases "buildMux (hPortForward h) (fqPath q)")
  case None
  then show ?thesis using assms(1) by (auto simp: facade_ServeHTTP_def answers_def writeJSON_def)
next
  case (Some rt)
  note served = assms(1) [unfolded facade_ServeHTTP_def Some option.case]
  show ?thesis
  proof (cases rt)
    case (RItem nsd sub pv)
    with served have it: "handleItem h nsd sub pv q w = (w', resp)" by simp
    show ?thesis
      using handleItem_answer [OF assms(2) _ assms(3) it] it
      by (cases "resolveByPath (hReg h) pv") (auto simp: answers_def Some RItem handleItem_def)
  next
    case (RCollection nsd pv)
    with served have c: "handleCollection h nsd pv q w = Some (w', resp)" by simp
    show ?thesis
      using handleCollection_answer [OF _ assms(3) c] c
      by (cases "resolveByPath (hReg h) pv") (auto simp: answers_def Some RCollection handleCollection_def)
  qed (use served in \<open>auto simp: answers_def Some getOnly_def writeJSON_def handleVersion_def handleAPIVersions_def writeResourceList_def
      handleAPIGroupList_def handleOpenAPIV3Root_def split: if_splits\<close>)
qed

section \<open>The registry of the program\<close>

lemma byResource_listed:
  assumes "\<And>k r. byResource reg k = Some r \<Longrightarrow> r \<in> set (reg_list reg)"
  shows "byResource (foldl add_resource reg rs) k = Some r \<Longrightarrow> r \<in> set (reg_list (foldl add_resource reg rs))"
  using assms
proof (induction rs arbitrary: reg)
  case (Cons r0 rs)
  have short: "foldl (\<lambda>m sn. m(f sn \<mapsto> x)) m sns k = Some r \<Longrightarrow> m k = Some r \<or> r = x" for f :: "string \<Rightarrow> string" and x :: Resource and m sns k r
    by (induction sns arbitrary: m) (fastforce split: if_splits)+
  have "r \<in> set (reg_list (add_resource reg r0))" if "byResource (add_resource reg r0) k = Some r" for k r
    using that Cons.prems(2) by (auto simp: add_resource_def Let_def dest!: short split: if_splits)
  from Cons.IH [OF _ this] Cons.prems(1) show ?case by simp
qed simp

lemma serves_default:
  assumes "hReg h = NewDefaultRegistry"
    "\<And>r rm. r \<in> set default_resources \<Longrightarrow> resources s (rGVR r) = Some rm \<Longrightarrow> rmNamespaced rm = rNamespaced r"
  shows "serves h s"
proof -
  have "\<exists>r \<in> set default_resources. rGVR res = rGVR r \<and> rNamespaced res = rNamespaced r" if "resolveByPath NewDefaultRegistry pv = Some res" for pv res
  proof -
    have "res \<in> set (reg_list NewDefaultRegistry)"
      using that byResource_listed [of "\<lparr>byGVR = Map.empty, byGVKind = Map.empty, byResource = Map.empty, reg_list = []\<rparr>" default_resources]
      by (simp add: resolveByPath_def ResolveResource_def Let_def NewDefaultRegistry_def)
    then show ?thesis by (auto simp: default_registry_list)
  qed
  then show ?thesis unfolding serves_def assms(1) by (metis assms(2))
qed

text \<open>Witness: the deletion of a sandbox.\<close>

lemma box_resources: "resources (ws (box_world n)) = resources sample_empty"
  using Create_frame [of sample_wlib SandboxGVR _ sample_empty]
  by (auto simp: box_world_def SetDeleteHook_def add_obj_def split: option.split)

lemma box_serves: "serves sample_handler (ws (box_world n))"
  by (rule serves_default)
     (auto simp: sample_handler_def box_resources sample_empty_def store_New_def Register_def default_resources_def mk_resource_def gvr_defs group_defs split: if_splits)

theorem responses_typed_witness:
  "\<exists>w' resp. facade_ServeHTTP sample_handler (\<lambda>_. handleVersion) (sample_request ''DELETE'' []) (box_world 0) = Some (w', resp) \<and>
     answers sample_handler (\<lambda>_. handleVersion) (sample_request ''DELETE'' []) resp"
proof -
  obtain w' resp where s: "facade_ServeHTTP sample_handler (\<lambda>_. handleVersion) (sample_request ''DELETE'' []) (box_world 0) = Some (w', resp)"
    by (cases "handleItem sample_handler True False (group_path ''agents.x-k8s.io'' ''v1beta1'' ''d'' ''sandboxes'' ''b'' []) (sample_request ''DELETE'' []) (box_world 0)")
       (simp add: facade_ServeHTTP_def buildMux_def sample_request_def)
  moreover have "keys_ok (ws (box_world 0))" using sample_ready(1) by (simp add: ready_world_def)
  ultimately show ?thesis using responses_typed [OF s _ box_serves] by blast
qed

end
