(* ===== verification/Cli.thy ===== *)
theory Cli
  imports App Docker Runtime
begin

text \<open>
  \<^verbatim>\<open>cmd/lasd\<close>, \<^verbatim>\<open>internal/kubeconfig/kubeconfig.go\<close>, the paths of \<^verbatim>\<open>internal/config/config.go\<close> and the life of the server in \<^verbatim>\<open>internal/app/app.go\<close>:
  constructing it, running it and closing it. The host is a parameter: a record of the calls of \<^verbatim>\<open>os\<close>, \<^verbatim>\<open>net\<close> and \<^verbatim>\<open>exec\<close> on the
  state \<open>'fs\<close> of its files. A command returns what it prints as data; flag parsing is a library's.
\<close>

section \<open>Paths\<close>

text \<open>\<^verbatim>\<open>filepath.Clean\<close>, \<^verbatim>\<open>filepath.Join\<close> and \<^verbatim>\<open>filepath.Dir\<close> on any path: in a relative path a leading \<^verbatim>\<open>..\<close> stays.\<close>

fun clean_rel :: "string list \<Rightarrow> string list \<Rightarrow> string list" where
  "clean_rel [] out = out"
| "clean_rel (c # cs) out =
     (if c = '''' \<or> c = ''.'' then clean_rel cs out
      else if c = ''..'' then (if out = [] \<or> last out = ''..'' then clean_rel cs (out @ [c]) else clean_rel cs (butlast out))
      else clean_rel cs (out @ [c]))"

definition Clean :: "string \<Rightarrow> string" where
  "Clean p = (if HasPrefix p ''/'' then CleanRooted p
     else case clean_rel (path_comps p) [] of [] \<Rightarrow> ''.'' | c # cs \<Rightarrow> Join (c # cs) ''/'')"

definition PathJoin :: "string list \<Rightarrow> string" where
  "PathJoin es = (case filter (\<lambda>e. e \<noteq> '''') es of [] \<Rightarrow> '''' | x # xs \<Rightarrow> Clean (Join (x # xs) ''/''))"

definition Dir :: "string \<Rightarrow> string" where
  "Dir p = Clean (rev (dropWhile (\<lambda>c. c \<noteq> CHR ''/'') (rev p)))"

section \<open>Configuration\<close>

definition DefaultDataDir :: "(string \<Rightarrow> string) \<Rightarrow> string + string \<Rightarrow> string \<Rightarrow> string" where
  "DefaultDataDir getenv homeDir tempDir = (
     let x = getenv ''XDG_DATA_HOME''
     in if x \<noteq> '''' then PathJoin [x, ''local-agent-sandbox'']
        else case homeDir of
            Inl _ \<Rightarrow> PathJoin [tempDir, ''local-agent-sandbox'']
          | Inr home \<Rightarrow> PathJoin [home, ''.local'', ''share'', ''local-agent-sandbox''])"

definition DBPath :: "Config \<Rightarrow> string" where
  "DBPath cfg = PathJoin [cfgDataDir cfg, ''state.db'']"

definition KubeconfigPath :: "Config \<Rightarrow> string" where
  "KubeconfigPath cfg = PathJoin [cfgDataDir cfg, ''kubeconfig'']"

section \<open>The host\<close>

datatype removeError = NotExist | RemoveError string

record 'fs hostlib =
  hostMkdirAll :: "string \<Rightarrow> 'fs \<Rightarrow> 'fs \<times> string option"
  hostWriteFile :: "string \<Rightarrow> bytes \<Rightarrow> 'fs \<Rightarrow> 'fs \<times> string option"
  hostRemove :: "string \<Rightarrow> 'fs \<Rightarrow> 'fs \<times> removeError option"
  hostStat :: "string \<Rightarrow> 'fs \<Rightarrow> bool"
  hostLookPath :: "string \<Rightarrow> 'fs \<Rightarrow> bool"
  hostListen :: "string \<Rightarrow> 'fs \<Rightarrow> string option"

section \<open>Kubeconfig\<close>

record KubeContext =
  kxCluster :: string
  kxAuthInfo :: string
  kxNamespace :: string

record Kubeconfig =
  kcClusters :: "string \<rightharpoonup> string"
  kcAuthInfos :: "string \<rightharpoonup> unit"
  kcContexts :: "string \<rightharpoonup> KubeContext"
  kcCurrentContext :: string

definition clusterName :: string where "clusterName = ''lasd''"
definition contextName :: string where "contextName = ''lasd''"
definition userName :: string where "userName = ''lasd''"
definition kubeNamespace :: string where "kubeNamespace = ''default''"

definition kube_Build :: "string \<Rightarrow> Kubeconfig" where
  "kube_Build server = \<lparr>kcClusters = [clusterName \<mapsto> server], kcAuthInfos = [userName \<mapsto> ()],
     kcContexts = [contextName \<mapsto> \<lparr>kxCluster = clusterName, kxAuthInfo = userName, kxNamespace = kubeNamespace\<rparr>],
     kcCurrentContext = contextName\<rparr>"

text \<open>\<open>enc\<close> is the codec of client-go.\<close>

definition kube_Bytes :: "(Kubeconfig \<Rightarrow> string + bytes) \<Rightarrow> string \<Rightarrow> string + bytes" where
  "kube_Bytes enc server = enc (kube_Build server)"

definition kube_Write :: "'fs hostlib \<Rightarrow> (Kubeconfig \<Rightarrow> string + bytes) \<Rightarrow> string \<Rightarrow> string \<Rightarrow> 'fs \<Rightarrow> 'fs \<times> string option" where
  "kube_Write H enc server path fs = (case kube_Bytes enc server of
      Inl err \<Rightarrow> (fs, Some err)
    | Inr bs \<Rightarrow>
       (case hostMkdirAll H (Dir path) fs of
          (fs1, Some err) \<Rightarrow> (fs1, Some err)
        | (fs1, None) \<Rightarrow> hostWriteFile H path bs fs1))"

section \<open>Commands\<close>

text \<open>The command \<^verbatim>\<open>kubeconfig\<close>: what it prints on success is the export line or the file's bytes.\<close>

definition kubeconfigCmd :: "'fs hostlib \<Rightarrow> (Kubeconfig \<Rightarrow> string + bytes) \<Rightarrow> Config \<Rightarrow> bool \<Rightarrow> bool \<Rightarrow> 'fs \<Rightarrow> 'fs \<times> (string + (string + bytes))" where
  "kubeconfigCmd H enc cfg wr printExport fs = (
     let server = APIServerURL cfg
     in case (if wr then kube_Write H enc server (KubeconfigPath cfg) fs else (fs, None)) of
          (fs1, Some err) \<Rightarrow> (fs1, Inl err)
        | (fs1, None) \<Rightarrow>
           (if printExport then (fs1, Inr (Inl (''export KUBECONFIG='' @ KubeconfigPath cfg)))
            else case kube_Bytes enc server of Inl err \<Rightarrow> (fs1, Inl err) | Inr bs \<Rightarrow> (fs1, Inr (Inr bs))))"

text \<open>The lines of \<^verbatim>\<open>doctor\<close>. \<open>dk\<close> is the result of constructing the Docker driver.\<close>

datatype finding =
    DockerClientError string | DockerUnreachable derr | DockerReachable
  | KubectlMissing | KubectlFound
  | PortInUse string string | PortAvailable string
  | DataDirError string string | DataDirWritable string

fun is_problem :: "finding \<Rightarrow> bool" where
  "is_problem (DockerClientError _) = True"
| "is_problem (DockerUnreachable _) = True"
| "is_problem (PortInUse _ _) = True"
| "is_problem (DataDirError _ _) = True"
| "is_problem _ = False"

definition checkDocker :: "string + ('d Driver \<times> 'd) \<Rightarrow> finding" where
  "checkDocker dk = (case dk of
      Inl err \<Rightarrow> DockerClientError err
    | Inr (D, d) \<Rightarrow> (case Ping D d of Some perr \<Rightarrow> DockerUnreachable perr | None \<Rightarrow> DockerReachable))"

definition checkPort :: "'fs hostlib \<Rightarrow> Config \<Rightarrow> 'fs \<Rightarrow> int \<Rightarrow> finding" where
  "checkPort H cfg fs p = (
     let addr = JoinHostPort (cfgBind cfg) (Itoa p)
     in case hostListen H addr fs of Some err \<Rightarrow> PortInUse addr err | None \<Rightarrow> PortAvailable addr)"

definition doctorCmd :: "'fs hostlib \<Rightarrow> Config \<Rightarrow> string + ('d Driver \<times> 'd) \<Rightarrow> 'fs \<Rightarrow> 'fs \<times> finding list \<times> string option" where
  "doctorCmd H cfg dk fs = (
     let docker = checkDocker dk;
         kubectl = (if hostLookPath H ''kubectl'' fs then KubectlFound else KubectlMissing);
         ports = map (checkPort H cfg fs) [cfgAPIPort cfg, cfgRouterPort cfg];
         (fs1, merr) = hostMkdirAll H (cfgDataDir cfg) fs;
         dataDir = (case merr of Some err \<Rightarrow> DataDirError (cfgDataDir cfg) err | None \<Rightarrow> DataDirWritable (cfgDataDir cfg));
         ok = (\<not> is_problem docker \<and> list_all (\<lambda>f. \<not> is_problem f) ports \<and> \<not> is_problem dataDir)
     in (fs1, docker # kubectl # ports @ [dataDir], if \<not> ok then Some ''doctor found problems'' else None))"

text \<open>The commands that ask the API server: \<open>api\<close> is the result of making the client, and then its \<^verbatim>\<open>List\<close> over all namespaces.\<close>

record statusReport =
  srAPI :: string
  srRouter :: string
  srTemplates :: nat
  srWarmpools :: nat
  srClaims :: nat
  srSandboxes :: nat
  srContainers :: "nat option"

definition countOf :: "(GVR \<Rightarrow> string + 'j obj list) \<Rightarrow> GVR \<Rightarrow> nat" where
  "countOf lst g = (case lst g of Inl _ \<Rightarrow> 0 | Inr items \<Rightarrow> length items)"

definition statusCmd :: "Config \<Rightarrow> string + (GVR \<Rightarrow> string + 'j obj list) \<Rightarrow> string + ('d Driver \<times> 'd) \<Rightarrow> string + statusReport" where
  "statusCmd cfg api dk = (case api of
      Inl err \<Rightarrow> Inl (''connect to lasd (is it running?): '' @ err)
    | Inr lst \<Rightarrow> Inr \<lparr>srAPI = APIServerURL cfg, srRouter = RouterURL cfg,
        srTemplates = countOf lst TemplateGVR, srWarmpools = countOf lst WarmPoolGVR, srClaims = countOf lst SandboxClaimGVR, srSandboxes = countOf lst SandboxGVR,
        srContainers = (case dk of Inl _ \<Rightarrow> None
          | Inr (D, d) \<Rightarrow> Some (case ListManaged D d of Inl _ \<Rightarrow> 0 | Inr cs \<Rightarrow> length cs))\<rparr>)"

record lsRow =
  lsNamespace :: string
  lsName :: string
  lsReady :: string
  lsContainer :: string
  lsHostPort :: string

text \<open>The loop over the containers: the published server ports and the states, by namespace and sandbox.\<close>

fun lsContainers :: "int \<Rightarrow> ContainerInfo list \<Rightarrow> (string \<rightharpoonup> int) \<Rightarrow> (string \<rightharpoonup> string) \<Rightarrow> (string \<rightharpoonup> int) \<times> (string \<rightharpoonup> string)" where
  "lsContainers port [] ports states = (ports, states)"
| "lsContainers port (c # cs) ports states = (
     let k = ci_Namespace c @ ''/'' @ ci_Sandbox c
     in lsContainers port cs (case ciPortMap c port of Some hp \<Rightarrow> ports(k \<mapsto> hp) | None \<Rightarrow> ports) (states(k \<mapsto> ciState c)))"

definition lsRowOf :: "('j, 'v) convlib \<Rightarrow> (string \<rightharpoonup> int) \<Rightarrow> (string \<rightharpoonup> string) \<Rightarrow> 'j obj \<Rightarrow> lsRow" where
  "lsRowOf X ports states sb = (
     let k = namespace sb @ ''/'' @ name sb
     in \<lparr>lsNamespace = namespace sb, lsName = name sb, lsReady = conditionStatus X sb ''Ready'', lsContainer = map_get states k,
         lsHostPort = (case ports k of Some p \<Rightarrow> Itoa p | None \<Rightarrow> '''')\<rparr>)"

definition lsCmd :: "('j, 'v) convlib \<Rightarrow> Config \<Rightarrow> string + (GVR \<Rightarrow> string + 'j obj list) \<Rightarrow> string + ('d Driver \<times> 'd) \<Rightarrow> string + lsRow list" where
  "lsCmd X cfg api dk = (case api of
      Inl err \<Rightarrow> Inl (''connect to lasd (is it running?): '' @ err)
    | Inr lst \<Rightarrow>
       (case lst SandboxGVR of
          Inl err \<Rightarrow> Inl err
        | Inr items \<Rightarrow>
           (let (ports, states) = (case dk of Inl _ \<Rightarrow> (Map.empty, Map.empty)
                  | Inr (D, d) \<Rightarrow> (case ListManaged D d of Inl _ \<Rightarrow> (Map.empty, Map.empty)
                      | Inr cs \<Rightarrow> lsContainers (cfgServerPort cfg) cs Map.empty Map.empty))
            in Inr (map (lsRowOf X ports states) items))))"

text \<open>The part of \<^verbatim>\<open>purge\<close> that deletes the database, and the build context \<^verbatim>\<open>serve\<close> finds in a source checkout.\<close>

definition purgeState :: "'fs hostlib \<Rightarrow> Config \<Rightarrow> bool \<Rightarrow> 'fs \<Rightarrow> 'fs \<times> string option" where
  "purgeState H cfg withState fs = (
     if withState then (case hostRemove H (DBPath cfg) fs of
          (fs1, Some (RemoveError err)) \<Rightarrow> (fs1, Some err)
        | (fs1, _) \<Rightarrow> (fs1, None))
     else (fs, None))"

definition detectBuildContext :: "'fs hostlib \<Rightarrow> 'fs \<Rightarrow> Config \<Rightarrow> Config" where
  "detectBuildContext H fs cfg = (
     if cfgRuntimeBuildContext cfg = '''' then (if hostStat H ''runtime/Dockerfile'' fs then cfg\<lparr>cfgRuntimeBuildContext := ''runtime''\<rparr> else cfg)
     else cfg)"

section \<open>The life of the server\<close>

record ('j, 'db, 'd) App =
  appStore :: "('j, 'db) store"
  appDriver :: "('d Driver) option"

text \<open>\<open>opened\<close> is the result of opening the database file; the driver is kept if it answers.\<close>

definition app_New :: "('j, 'db) storelib \<Rightarrow> 'fs hostlib \<Rightarrow> (snapshot \<Rightarrow> snapshot) \<Rightarrow> time \<Rightarrow> (nat \<Rightarrow> string) \<Rightarrow> (nat \<Rightarrow> nat) \<Rightarrow> Config \<Rightarrow>
    (string \<Rightarrow> string + 'db) \<Rightarrow> string + ('d Driver \<times> 'd) \<Rightarrow> 'fs \<Rightarrow> 'fs \<times> (string + ('j, 'db, 'd) App)" where
  "app_New L H ord t0 uids draws cfg opened dk fs = (case hostMkdirAll H (cfgDataDir cfg) fs of
      (fs1, Some err) \<Rightarrow> (fs1, Inl (''app: create data dir: '' @ err))
    | (fs1, None) \<Rightarrow> (fs1, case opened (DBPath cfg) of
          Inl err \<Rightarrow> Inl (''app: open state db: '' @ err)
        | Inr db \<Rightarrow>
           (case restore L ord t0 uids draws db of
              Inl err \<Rightarrow> Inl err
            | Inr st \<Rightarrow> Inr (case dk of
                  Inr (D, d) \<Rightarrow> (case Ping D d of
                      None \<Rightarrow> \<lparr>appStore = SetDeleteHook st, appDriver = Some D\<rparr>
                    | Some _ \<Rightarrow> \<lparr>appStore = st, appDriver = None\<rparr>)
                | Inl _ \<Rightarrow> \<lparr>appStore = st, appDriver = None\<rparr>))))"

text \<open>The run of the server: \<open>serving\<close> is what happens to the store and the containers between the start and the end of the
  context or the failure of a listener (its second result). \<open>None\<close> where creating the first objects does not return.\<close>

definition app_Run :: "('j, 'db) storelib \<Rightarrow> 'fs hostlib \<Rightarrow> (Kubeconfig \<Rightarrow> string + bytes) \<Rightarrow> 'j vrouterlib \<Rightarrow> ('j, 'v) bootlib \<Rightarrow> Config \<Rightarrow>
    (('j, 'db) store \<times> 'd \<Rightarrow> (('j, 'db) store \<times> 'd) \<times> string option) \<Rightarrow> ('j, 'db, 'd) App \<Rightarrow> 'd \<Rightarrow> 'fs \<Rightarrow>
    ('fs \<times> ('j, 'db) store \<times> 'd \<times> string option) option" where
  "app_Run L H enc V B cfg serving a d fs = (
     let (fs1, _) = kube_Write H enc (APIServerURL cfg) (KubeconfigPath cfg) fs;
         apiAddr = JoinHostPort (cfgBind cfg) (Itoa (cfgAPIPort cfg));
         routerAddr = JoinHostPort (cfgBind cfg) (Itoa (cfgRouterPort cfg))
     in case hostListen H apiAddr fs1 of
          Some err \<Rightarrow> Some (fs1, appStore a, d, Some (''app: listen '' @ apiAddr @ '': '' @ err))
        | None \<Rightarrow>
           (case hostListen H routerAddr fs1 of
              Some err \<Rightarrow> Some (fs1, appStore a, app_close cfg (appDriver a) d, Some (''app: listen router '' @ routerAddr @ '': '' @ err))
            | None \<Rightarrow>
               (case app_boot L V B cfg (appDriver a) (appStore a) d of
                  None \<Rightarrow> None
                | Some sd \<Rightarrow> (case serving sd of ((s, d1), err) \<Rightarrow> Some (fs1, s, app_close cfg (appDriver a) d1, err)))))"

end
