(* ===== verification/Server.thy ===== *)
theory Server
  imports Cli AppProps FacadeProps
begin

text \<open>
  The server as a whole: requests to the API server, the loops, the watch on namespaces and the steps of the start take
  turns on one world, from a start on a database to the next. Everything they do to the store is a run of store operations, so a start
  on the database they leave gives back what they stored.
\<close>

section \<open>What the start does to the store\<close>

lemma reach_create: "map_option fst (Create L g ob s) = Some s' \<Longrightarrow> reach L s s'"
  by (auto intro: reach_Create)

lemma reach_EnsureNamespace:
  assumes "EnsureNamespace L V ns s = Some s'"
  shows "reach L s s'"
proof -
  from assms obtain s1 s2 where e: "ensurePod L V ns s = Some s1" "ensureService L V ns s1 = Some s2" "ensureEndpointSlice L V ns s2 = Some s'"
    by (auto simp: EnsureNamespace_def bind_eq_Some_conv)
  have "reach L s s1" using e(1) by (auto simp: ensurePod_def vrouter_create_def split: sum.splits prod.splits intro: reach_Create)
  also have "reach L s1 s2" using e(2) by (auto simp: ensureService_def vrouter_create_def split: sum.splits prod.splits intro: reach_Create)
  also have "reach L s2 s'" using e(3) by (auto simp: ensureEndpointSlice_def vrouter_create_def Let_def split: sum.splits prod.splits intro: reach_Create)
  finally show ?thesis .
qed

lemma reach_bootstrapOne: "bootstrapOne L g k e s = Some s' \<Longrightarrow> reach L s s'"
  by (auto simp: bootstrapOne_def split: sum.splits prod.splits intro: reach_Create)

lemma reach_app_boot:
  assumes "app_boot L V B cfg D s d = Some (s', d')"
  shows "reach L s s'"
proof -
  from assms obtain s1 where b: "(if cfgBootstrap cfg then bootstrapObjects L B cfg s else Some s) = Some s1" "startVirtualRouter L V s1 = Some s'"
    by (auto simp: app_boot_def Let_def bind_eq_Some_conv split: if_splits)
  have "reach L s s1"
    using b(1) by (auto simp: bootstrapObjects_def bind_eq_Some_conv split: if_splits intro: reach_trans reach_bootstrapOne)
  also have "reach L s1 s'"
    using b(2) by (auto simp: startVirtualRouter_def bind_eq_Some_conv intro: reach_trans reach_EnsureNamespace)
  finally show ?thesis .
qed

section \<open>The server\<close>

text \<open>The exception of the API server is a patch that leaves an object under a key that does not name it.\<close>

inductive server_act :: "('j, 'db, 'd, 'v) Handler \<Rightarrow> (string \<Rightarrow> 'j fresponse) \<Rightarrow> 'j vrouterlib \<Rightarrow> ('j, 'v) bootlib \<Rightarrow> Config \<Rightarrow>
    ('j, 'db, 'd) world \<Rightarrow> ('j, 'db, 'd) world \<Rightarrow> bool" for h pf V B cfg where
  request: "facade_ServeHTTP h pf q w = Some (w', resp) \<Longrightarrow> (fqMethod q = ''PATCH'' \<Longrightarrow> keys_ok (ws w')) \<Longrightarrow> server_act h pf V B cfg w w'"
| loop: "control_step (hRec h) w w' \<Longrightarrow> server_act h pf V B cfg w w'"
| namespace_event: "namespaceEvent (rLib (hRec h)) V ev (ws w) = Some s \<Longrightarrow> server_act h pf V B cfg w (w\<lparr>ws := s\<rparr>)"
| boot: "app_boot (rLib (hRec h)) V B cfg D (ws w) (wd w) = Some (s, d) \<Longrightarrow> server_act h pf V B cfg w \<lparr>ws = s, wd = d\<rparr>"

text \<open>An act together with a sequence of events that explains what it does to the store.\<close>

definition server_step :: "('j, 'db, 'd, 'v) Handler \<Rightarrow> (string \<Rightarrow> 'j fresponse) \<Rightarrow> 'j vrouterlib \<Rightarrow> ('j, 'v) bootlib \<Rightarrow> Config \<Rightarrow>
    ('j, 'db, 'd) world \<Rightarrow> 'j Event list \<Rightarrow> ('j, 'db, 'd) world \<Rightarrow> bool" where
  "server_step h pf V B cfg w log w' \<longleftrightarrow> server_act h pf V B cfg w w' \<and> run (store_step (rLib (hRec h))) (ws w) log (ws w')"


lemma control_steps_wreach:
  assumes "annotation_law (rLib r)" "races_reach r" "(control_step r)\<^sup>*\<^sup>* w w'"
  shows "wreach r w w'"
  using assms(3) by (induction rule: rtranclp.induct) (auto intro: wreach_trans control_step_wreach assms(1,2))

lemma server_act_wreach:
  assumes "annotation_law (rLib (hRec h))" "races_reach (hRec h)" "server_act h pf V B cfg w w'"
  shows "wreach (hRec h) w w'"
  using assms(3)
proof cases
  case (request q resp)
  from facade_refines_control [OF this] show ?thesis by (rule control_steps_wreach [OF assms(1,2)])
next
  case loop
  then show ?thesis by (rule control_step_wreach [OF assms(1,2)])
next
  case (namespace_event ev s)
  then show ?thesis using reach_EnsureNamespace by (auto simp: namespaceEvent_def wreach_def)
next
  case (boot D s d)
  then show ?thesis using reach_app_boot by (auto simp: wreach_def)
qed

text \<open>The runs of the store that the steps carry compose.\<close>

lemma server_run_store:
  "run (server_step h pf V B cfg) w log w' \<Longrightarrow> run (store_step (rLib (hRec h))) (ws w) log (ws w')"
  by (induction rule: run.induct) (auto simp: server_step_def intro: run.run_refl run_trans)



section \<open>From one start to the next\<close>

lemma SetDeleteHook_same [simp]:
  "view (SetDeleteHook s) = view s" "rv (SetDeleteHook s) = rv s" "resources (SetDeleteHook s) = resources s"
  "store_wf (SetDeleteHook s) \<longleftrightarrow> store_wf s"
proof -
  show v: "view (SetDeleteHook s) = view s" "rv (SetDeleteHook s) = rv s" "resources (SetDeleteHook s) = resources s"
    by (simp_all add: SetDeleteHook_def view_def lookup_def)
  have "keys_ok (SetDeleteHook s) = keys_ok s" "versions_ok (SetDeleteHook s) = versions_ok s" "history_ok (SetDeleteHook s) = history_ok s"
    "subs_ok (SetDeleteHook s) = subs_ok s"
    unfolding keys_ok_def versions_ok_def history_ok_def subs_ok_def v by (simp_all add: SetDeleteHook_def)
  then show "store_wf (SetDeleteHook s) \<longleftrightarrow> store_wf s" by (simp add: store_wf_def)
qed

text \<open>A server that was constructed holds the restored store, with the hook of the cascade if there is a driver.\<close>

lemma app_New_ok:
  assumes "app_New L H ord t0 uids draws cfg opened dk fs = (fs1, Inr a)"
  obtains db s where "opened (DBPath cfg) = Inr db" "restore L ord t0 uids draws db = Inr s" "appStore a = s \<or> appStore a = SetDeleteHook s"
  using assms by (auto simp: app_New_def split: prod.splits option.splits sum.splits)

lemma app_New_restores:
  assumes "snd (hostMkdirAll H (cfgDataDir cfg) fs) = None" "opened (DBPath cfg) = Inr db" "restore L ord t0 uids draws db = Inr s"
  shows "\<exists>a. app_New L H ord t0 uids draws cfg opened dk fs = (fst (hostMkdirAll H (cfgDataDir cfg) fs), Inr a) \<and>
    (appStore a = s \<or> appStore a = SetDeleteHook s)"
  using assms by (auto simp: app_New_def split: prod.splits option.splits sum.splits)



section \<open>Witnesses\<close>

definition sample_boot :: "(tree, nat) bootlib" where
  "sample_boot = \<lparr>encTemplate = (\<lambda>_. Inr (TTemplate 1, None)), encPool = (\<lambda>sp. Inr (TPool sp, None))\<rparr>"


text \<open>A control plane on the sample database: a library whose conversions all fail, which no client operation uses.\<close>

definition plain_conv :: "(nat, nat) convlib" where
  "plain_conv = \<lparr>decSandboxSpec = (\<lambda>_. Inl ''bad''), encSandboxSpec = (\<lambda>_. Inl ''bad''), decSandboxStatus = (\<lambda>_. Inl ''bad''),
     encSandboxStatus = (\<lambda>_. Inl ''bad''), sandboxZeroStatus = None, partialSandboxStatus = (\<lambda>_ _. empty_SandboxStatus),
     decClaimSpec = (\<lambda>_. Inl ''bad''), decClaimStatus = (\<lambda>_. Inl ''bad''), encClaimStatus = (\<lambda>_. Inl ''bad''), decTemplateSpec = (\<lambda>_. Inl ''bad''),
     decWarmPool = (\<lambda>_ _. Inl ''bad''), encWarmPoolStatus = (\<lambda>_. Inl ''bad''), decPVC = (\<lambda>_ _. Inl ''bad''), encPVCSpec = (\<lambda>_. Inl ''bad''),
     pvcZeroStatus = None, encPVCStatus = (\<lambda>_. Inl ''bad''), nestedConditions = (\<lambda>_. None), nestedPhase = (\<lambda>_. ''''), nestedSandboxName = (\<lambda>_. '''')\<rparr>"

definition plain_rec :: "(nat, sampledb, FakeDriver, nat) Reconcilers" where
  "plain_rec = \<lparr>rAPI = rAPI sample_rec, rLib = sample_lib, rConv = plain_conv, rCond = sample_cond, rErrText = (\<lambda>_. ''error''),
     rDriver = fakeDriver, mapOrder = (\<lambda>xs. xs), sortSlice = (\<lambda>_ xs. xs), race = (\<lambda>_ s. s), DefaultServerPort = 0, RuntimeImage = ''runtime'',
     RuntimeBuildContext = '''', ClusterDomain = '''', NodeName = '''', Clock = (\<lambda>_. 100), wall = 100\<rparr>"

definition plain_handler :: "(nat, sampledb, FakeDriver, nat) Handler" where
  "plain_handler = \<lparr>hRec = plain_rec, hReg = NewDefaultRegistry, hLib = \<lparr>nestedReplicas = (\<lambda>_. None), setReplicas = (\<lambda>_ t. t), phaseTree = (\<lambda>_. 0),
     jsonUnmarshal = (\<lambda>_. Inl ''bad''), NestedInt64 = (\<lambda>_ _. None)\<rparr>, hPortForward = False\<rparr>"

definition plain_vrouter :: "nat vrouterlib" where
  "plain_vrouter = \<lparr>vrPod = (\<lambda>_. Inl ''bad''), vrService = (\<lambda>_. Inl ''bad''), vrEndpointSlice = (\<lambda>_. Inl ''bad'')\<rparr>"

definition plain_boot :: "(nat, nat) bootlib" where
  "plain_boot = \<lparr>encTemplate = (\<lambda>_. Inl ''bad''), encPool = (\<lambda>_. Inl ''bad'')\<rparr>"

text \<open>A host on which everything succeeds; its state is the set of files.\<close>

definition plain_host :: "(string \<rightharpoonup> bytes) hostlib" where
  "plain_host = \<lparr>hostMkdirAll = (\<lambda>_ fs. (fs, None)), hostWriteFile = (\<lambda>p bs fs. (fs(p \<mapsto> bs), None)),
     hostRemove = (\<lambda>p fs. if fs p = None then (fs, Some NotExist) else (fs(p := None), None)), hostStat = (\<lambda>p fs. fs p \<noteq> None),
     hostLookPath = (\<lambda>_ _. True), hostListen = (\<lambda>_ _. None)\<rparr>"

definition plain_app :: "(nat, sampledb, FakeDriver) App" where
  "plain_app = \<lparr>appStore = sample_start, appDriver = None\<rparr>"

lemma plain_New:
  "app_New sample_lib plain_host id 0 (\<lambda>n. ''u'' @ Itoa (int n)) (\<lambda>n. n) (Defaults ''data'') (\<lambda>_. Inr []) (Inl ''no docker'') Map.empty = (Map.empty, Inr plain_app)"
  by (simp add: app_New_def plain_host_def sample_restore [simplified] plain_app_def)

lemma plain_lib [simp]: "rLib (hRec plain_handler) = sample_lib"
  by (simp add: plain_handler_def plain_rec_def)

lemma plain_created: "server_act plain_handler pf V B cfg \<lparr>ws = sample_start, wd = d\<rparr> \<lparr>ws = sample_store, wd = d\<rparr>"
  using control_step.client [of "hRec plain_handler" "\<lparr>ws = sample_start, wd = d\<rparr>" "[sample_created_event]" sample_store] sample_create_step
  by (intro server_act.loop) simp


end
