(* ===== verification/CliProps.thy ===== *)
theory CliProps
  imports Server
begin

text \<open>
  What the commands guarantee: that a run of the server returns and what it leaves behind in ephemeral mode, what \<^verbatim>\<open>ls\<close> prints
  about a sandbox, when \<^verbatim>\<open>doctor\<close> fails, and where the files of the server are.
\<close>

section \<open>Running the server\<close>

text \<open>Every object of the start has a name of its own, so creating it does not search for one.\<close>

lemma Create_named_returns: "name ob \<noteq> '''' \<Longrightarrow> \<exists>s'. map_option fst (Create L g ob s) = Some s'"
  by (simp add: Create_def meta_def Let_def split: option.split)

lemma EnsureNamespace_returns: "\<exists>s'. EnsureNamespace L V ns s = Some s'"
proof -
  have "\<exists>s'. ensurePod L V ns s = Some s'" for s
    unfolding ensurePod_def vrouter_create_def by (auto split: sum.split prod.split intro!: Create_named_returns [simplified] simp: PodName_def)
  moreover have "\<exists>s'. ensureService L V ns s = Some s'" for s
    unfolding ensureService_def vrouter_create_def by (auto split: sum.split prod.split intro!: Create_named_returns [simplified] simp: ServiceName_def)
  moreover have "\<exists>s'. ensureEndpointSlice L V ns s = Some s'" for s
    unfolding ensureEndpointSlice_def vrouter_create_def Let_def by (auto split: sum.split prod.split intro!: Create_named_returns [simplified] simp: ServiceName_def)
  ultimately show ?thesis unfolding EnsureNamespace_def by (metis Option.bind.bind_lunit)
qed

lemma app_boot_returns: "\<exists>s'. app_boot L V B cfg D s d = Some (s', case D of Some D' \<Rightarrow> bootAdoption D' s d | None \<Rightarrow> d)"
proof -
  have "\<exists>s'. bootstrapOne L g k e s = Some s'" for g k e s
    unfolding bootstrapOne_def by (auto split: sum.split prod.split intro!: Create_named_returns [simplified])
  then have "\<exists>s'. bootstrapObjects L B cfg s = Some s'" for s unfolding bootstrapObjects_def by (metis Option.bind.bind_lunit)
  moreover have "\<exists>s'. startVirtualRouter L V s = Some s'" for s
    unfolding startVirtualRouter_def using EnsureNamespace_returns by (metis Option.bind.bind_lunit)
  ultimately obtain s1 s2 where "(if cfgBootstrap cfg then bootstrapObjects L B cfg s else Some s) = Some s1" "startVirtualRouter L V s1 = Some s2" by metis
  then show ?thesis by (simp add: app_boot_def)
qed

text \<open>A teardown and the removal of lost containers, for drivers whose listings and removals succeed.\<close>

definition removes :: "'d Driver \<Rightarrow> ('d \<Rightarrow> bool) \<Rightarrow> bool" where
  "removes D good \<longleftrightarrow> (\<forall>i d. snd (RemoveContainer D i d) = None) \<and> (\<forall>n d. snd (RemoveVolume D n d) = None) \<and>
     (\<forall>d. good d \<longrightarrow> (\<exists>cs vs. ListManaged D d = Inr cs \<and> ListManagedVolumes D d = Inr vs))"

lemma teardownAll_empty:
  assumes D: "container_inventory D good hv" "removes D good" and "good d"
  shows "ListManaged D (teardownAll D d) = Inr [] \<and> ListManagedVolumes D (teardownAll D d) = Inr []"
proof -
  obtain cs vs where l: "ListManaged D d = Inr cs" "ListManagedVolumes D d = Inr vs" using D(2) assms(3) unfolding removes_def by blast
  have c: "good (removeContainers D cs d)" "ListManaged D (removeContainers D cs d) = Inr []" "ListManagedVolumes D (removeContainers D cs d) = Inr vs"
    using container_inventory.removeContainers_list [OF D(1) _ assms(3) l(1), of cs] D(2) l(2) by (auto simp: removes_def filter_empty_conv)
  show ?thesis
    using container_inventory.removeVolumes_list [OF D(1) _ c(1,3), of vs] D(2) c l by (auto simp: teardownAll_def removes_def filter_empty_conv)
qed

lemma bootAdoption_good:
  assumes D: "container_inventory D good hv" "removes D good" and "good d"
  shows "good (bootAdoption D s d)"
proof -
  obtain cs where l: "ListManaged D d = Inr cs" using D(2) assms(3) unfolding removes_def by blast
  show ?thesis
    using container_inventory.removeContainers_list [OF D(1) _ assms(3) l, of "filter (lost s) cs"] D(2)
    by (simp add: bootAdoption_def l removeOrphans_lost removes_def)
qed


text \<open>Witness: the in-memory driver with a container of a sandbox.\<close>

lemma fake_removes_all: "removes fakeDriver fake_listed"
  by (simp add: removes_def fake_Remove_def fake_RemoveVolume_def fake_ListManaged_def fake_ListVolumes_def)



section \<open>Listing sandboxes\<close>

definition container_key :: "ContainerInfo \<Rightarrow> string" where
  "container_key c = ci_Namespace c @ ''/'' @ ci_Sandbox c"

lemma lsContainers_found:
  "lsContainers port cs ports states = (ports', states') \<Longrightarrow> distinct (map container_key cs) \<Longrightarrow>
    states' k = (case find (\<lambda>c. container_key c = k) cs of None \<Rightarrow> states k | Some c \<Rightarrow> Some (ciState c)) \<and>
    ports' k = (case find (\<lambda>c. container_key c = k) cs of None \<Rightarrow> ports k
      | Some c \<Rightarrow> (case ciPortMap c port of None \<Rightarrow> ports k | Some p \<Rightarrow> Some p))"
proof (induction cs arbitrary: ports states)
  case (Cons c cs)
  note IH = Cons.IH [OF Cons.prems(1) [unfolded lsContainers.simps Let_def]] Cons.prems(2)
  have "find (\<lambda>x. container_key x = container_key c) cs = None" using Cons.prems(2) by (auto simp: find_None_iff image_iff)
  then show ?case using IH by (auto simp: container_key_def split: option.splits)
qed simp

text \<open>Every row \<^verbatim>\<open>ls\<close> prints is about one sandbox and the container that is labelled with it: one row for each sandbox the API server
  lists, in its order, with the state of its container and the host port its server port is published on, both empty without
  a container, and the port also if it is not published. Namespaces without a slash keep the keys of different sandboxes apart.\<close>

theorem ls_rows_exact:
  assumes "lst SandboxGVR = Inr items" "ListManaged D d = Inr cs" "distinct (map (\<lambda>c. (ci_Namespace c, ci_Sandbox c)) cs)"
    and slash: "\<forall>c \<in> set cs. CHR ''/'' \<notin> set (ci_Namespace c)" "\<forall>sb \<in> set items. CHR ''/'' \<notin> set (namespace sb)"
  shows "\<exists>rows. lsCmd X cfg (Inr lst) (Inr (D, d)) = Inr rows \<and> list_all2 (\<lambda>sb row. lsNamespace row = namespace sb \<and> lsName row = name sb \<and>
    lsReady row = conditionStatus X sb ''Ready'' \<and>
    (case find (\<lambda>c. ci_Namespace c = namespace sb \<and> ci_Sandbox c = name sb) cs of
       None \<Rightarrow> lsContainer row = '''' \<and> lsHostPort row = ''''
     | Some c \<Rightarrow> lsContainer row = ciState c \<and>
         lsHostPort row = (case ciPortMap c (cfgServerPort cfg) of None \<Rightarrow> '''' | Some p \<Rightarrow> Itoa p))) items rows"
proof -
  obtain ports states where lc: "lsContainers (cfgServerPort cfg) cs Map.empty Map.empty = (ports, states)" by fastforce
  have "inj_on container_key (set cs)"
    using slash(1) assms(3) by (auto simp: inj_on_def container_key_def distinct_map append_slash_inject)
  then have "distinct (map container_key cs)" using assms(3) by (simp add: distinct_map)
  note found = lsContainers_found [OF lc this]
  have fnd: "find (\<lambda>c. container_key c = namespace sb @ CHR ''/'' # name sb) cs = find (\<lambda>c. ci_Namespace c = namespace sb \<and> ci_Sandbox c = name sb) cs"
    if "sb \<in> set items" for sb
    using slash that by (intro find_cong refl) (auto simp: container_key_def append_slash_inject)
  show ?thesis
    by (auto simp: lsCmd_def assms(1,2) lc list_all2_conv_all_nth lsRowOf_def Let_def map_get_def found fnd split: option.splits)
qed


theorem ls_rows_exact_witness:
  "\<exists>c row. ListManaged fakeDriver busy_driver = Inr [c] \<and>
     lsCmd sample_conv (Defaults ''data'') (Inr (\<lambda>_. Inr [named ''b'' (TSandbox 1)])) (Inr (fakeDriver, busy_driver)) = Inr [row] \<and>
     lsNamespace row = ''d'' \<and> lsName row = ''b'' \<and> lsContainer row = ciState c"
proof -
  obtain c where c: "ListManaged fakeDriver busy_driver = Inr [c]" "ci_Namespace c = ''d''" "ci_Sandbox c = ''b''" using busy_lists by blast
  have "\<exists>rows. lsCmd sample_conv (Defaults ''data'') (Inr (\<lambda>_. Inr [named ''b'' (TSandbox 1)])) (Inr (fakeDriver, busy_driver)) = Inr rows \<and>
     (\<exists>row. rows = [row] \<and> lsNamespace row = ''d'' \<and> lsName row = ''b'' \<and> lsContainer row = ciState c)"
    using ls_rows_exact [of "\<lambda>_. Inr [named ''b'' (TSandbox 1)]", OF refl c(1), of sample_conv "Defaults ''data''"] c(2,3)
    by (auto simp: named_def list_all2_Cons1)
  with c(1) show ?thesis by blast
qed

section \<open>Doctor\<close>

text \<open>The command \<^verbatim>\<open>doctor\<close> fails exactly when one of the lines it prints is a problem; a missing \<^verbatim>\<open>kubectl\<close> is none. It checks both ports
  and makes the data directory.\<close>

lemma doctor_fails_iff:
  assumes "doctorCmd H cfg dk fs = (fs', fnds, err)"
  shows "err \<noteq> None \<longleftrightarrow> (\<exists>f \<in> set fnds. is_problem f)"
    and "fs' = fst (hostMkdirAll H (cfgDataDir cfg) fs)" and "length fnds = 5"
  using assms by (auto simp: doctorCmd_def Let_def split: prod.splits if_splits)

lemma doctor_free_ports:
  assumes "doctorCmd H cfg dk fs = (fs', fnds, None)" "p \<in> {cfgAPIPort cfg, cfgRouterPort cfg}"
  shows "hostListen H (JoinHostPort (cfgBind cfg) (Itoa p)) fs = None"
  using assms by (auto simp: doctorCmd_def Let_def checkPort_def split: prod.splits if_splits option.splits)

section \<open>Files\<close>

text \<open>A name that is not special stays the last component of a cleaned path, so the database and the kubeconfig are two files, and
  deleting the state does not touch the kubeconfig.\<close>


lemma clean_rel_last: "plain_comp n \<Longrightarrow> clean_rel (cs @ [n]) out = clean_rel cs out @ [n]"
  by (induction cs arbitrary: out) (auto simp: plain_comp_def)

lemma path_comps_last:
  assumes "plain_comp n"
  shows "path_comps (p @ CHR ''/'' # n) = path_comps p @ [n]"
proof -
  have "split_slash n acc = [acc @ n]" for acc using assms split_slash_plain [of n] by (simp add: plain_comp_def)
  then have "split_slash (p @ CHR ''/'' # n) acc = split_slash p acc @ [n]" for acc
    by (induction p arbitrary: acc) auto
  then show ?thesis by (simp add: path_comps_def)
qed

lemma Join_last: "\<exists>q. Join (cs @ [n]) ''/'' = (if cs = [] then n else q @ CHR ''/'' # n)"
proof (induction cs)
  case (Cons c cs)
  then show ?case by (cases cs) auto
qed simp

lemma Clean_last:
  assumes "plain_comp n"
  shows "\<exists>q. Clean (p @ CHR ''/'' # n) = n \<or> Clean (p @ CHR ''/'' # n) = q @ CHR ''/'' # n"
proof (cases "HasPrefix (p @ CHR ''/'' # n) ''/''")
  case True
  have "clean_comps (path_comps p @ [n]) [] = clean_comps (path_comps p) [] @ [n]"
    using assms by (simp add: clean_comps_append plain_comp_def)
  then show ?thesis using True by (auto simp: Clean_def CleanRooted_def path_comps_last [OF assms] join_comps_def)
next
  case False
  obtain q where "Join (clean_rel (path_comps p) [] @ [n]) ''/'' = (if clean_rel (path_comps p) [] = [] then n else q @ CHR ''/'' # n)"
    using Join_last by blast
  then show ?thesis using False
    by (cases "clean_rel (path_comps p) [] @ [n]") (auto simp: Clean_def path_comps_last [OF assms] clean_rel_last [OF assms] split: if_splits)
qed

lemma PathJoin_last:
  assumes "plain_comp n"
  shows "takeWhile (\<lambda>c. c \<noteq> CHR ''/'') (rev (PathJoin [dir, n])) = rev n"
proof -
  have n: "n \<noteq> ''''" "CHR ''/'' \<notin> set n" using assms by (simp_all add: plain_comp_def)
  have alone: "Clean n = n"
    using assms split_slash_plain [of n "[]"] by (cases n) (auto simp: Clean_def HasPrefix_def path_comps_def plain_comp_def)
  have ends: "\<exists>q. PathJoin [dir, n] = n \<or> PathJoin [dir, n] = q @ CHR ''/'' # n"
    using n(1) alone Clean_last [OF assms, of dir] by (simp add: PathJoin_def)
  have "CHR ''/'' \<notin> set a \<Longrightarrow> takeWhile (\<lambda>c. c \<noteq> CHR ''/'') (a @ CHR ''/'' # b) = a" for a b by (induction a) auto
  from this [of "rev n"] have "takeWhile (\<lambda>c. c \<noteq> CHR ''/'') (rev n @ CHR ''/'' # b) = rev n" for b using n(2) by simp
  moreover have "takeWhile (\<lambda>c. c \<noteq> CHR ''/'') (rev n) = rev n" using n(2) by (auto simp: takeWhile_eq_all_conv)
  ultimately show ?thesis using ends by (elim exE disjE) simp_all
qed

lemma purge_keeps_kubeconfig: "DBPath cfg \<noteq> KubeconfigPath cfg"
proof
  assume "DBPath cfg = KubeconfigPath cfg"
  then have "rev ''state.db'' = rev ''kubeconfig''"
    using PathJoin_last [of "''state.db''" "cfgDataDir cfg"] PathJoin_last [of "''kubeconfig''" "cfgDataDir cfg"]
    by (simp add: DBPath_def KubeconfigPath_def plain_comp_def)
  then show False by simp
qed

text \<open>The kubeconfig points at the API server: the cluster of its current context is the address the server listens on, and its user is
  one of its users.\<close>

definition kube_server :: "Kubeconfig \<Rightarrow> string option" where
  "kube_server c = do { x \<leftarrow> kcContexts c (kcCurrentContext c); _ \<leftarrow> kcAuthInfos c (kxAuthInfo x); kcClusters c (kxCluster x) }"

lemma kubeconfig_points_at_server:
  assumes "\<And>c bs. enc c = Inr bs \<Longrightarrow> dec bs = Some c" "kubeconfigCmd H enc cfg True False fs = (fs', Inr (Inr bs))"
  shows "Option.bind (dec bs) kube_server = Some (APIServerURL cfg)"
    and "(fs', None) = hostWriteFile H (KubeconfigPath cfg) bs (fst (hostMkdirAll H (Dir (KubeconfigPath cfg)) fs))"
proof -
  have bs: "enc (kube_Build (APIServerURL cfg)) = Inr bs"
    using assms(2) by (auto simp: kubeconfigCmd_def kube_Bytes_def Let_def split: prod.splits option.splits sum.splits)
  then show "Option.bind (dec bs) kube_server = Some (APIServerURL cfg)"
    using assms(1) by (simp add: kube_server_def kube_Build_def)
  show "(fs', None) = hostWriteFile H (KubeconfigPath cfg) bs (fst (hostMkdirAll H (Dir (KubeconfigPath cfg)) fs))"
    using assms(2) bs by (auto simp: kubeconfigCmd_def kube_Bytes_def kube_Write_def Let_def split: prod.splits option.splits sum.splits)
qed

end
