(* ===== verification/Flush.thy ===== *)
theory Flush
  imports StoreProps LoopRun
begin

text \<open>
  The file behind the persister of \<^verbatim>\<open>internal/store/persist.go\<close>: transactions are committed without a sync, a timer syncs, and closing
  syncs once more. What the file holds after the machine stopped at any moment is taken to be what was synced last, as the comment of the code
  relies on; bbolt itself does not promise it for a database opened without syncs.
\<close>

section \<open>Opening, flushing, closing\<close>

record 'db BoltPersister =
  bpDB :: 'db
  bpSynced :: 'db
  bpDone :: bool

text \<open>\<open>opened\<close> is \<^verbatim>\<open>bolt.Open\<close>.\<close>

definition OpenBolt :: "(string \<Rightarrow> string + 'db) \<Rightarrow> string \<Rightarrow> string + 'db BoltPersister" where
  "OpenBolt opened path = (case opened path of Inl err \<Rightarrow> Inl err | Inr db \<Rightarrow> Inr \<lparr>bpDB = db, bpSynced = db, bpDone = False\<rparr>)"

text \<open>One round of the flush loop; \<open>ok\<close> says whether the sync succeeds, an error is dropped. The loop ends once the persister is closed.\<close>

definition db_Sync :: "bool \<Rightarrow> 'db BoltPersister \<Rightarrow> 'db BoltPersister" where
  "db_Sync ok p = (if ok then p\<lparr>bpSynced := bpDB p\<rparr> else p)"

definition flushLoop :: "bool \<Rightarrow> 'db BoltPersister \<Rightarrow> 'db BoltPersister option" where
  "flushLoop ok p = (if bpDone p then None else Some (db_Sync ok p))"

definition bolt_Close :: "bool \<Rightarrow> string option \<Rightarrow> 'db BoltPersister \<Rightarrow> 'db BoltPersister \<times> string option" where
  "bolt_Close ok closeErr p = (db_Sync ok (p\<lparr>bpDone := True\<rparr>), closeErr)"

section \<open>The store over the file\<close>

inductive durable_step :: "('j, 'db) storelib \<Rightarrow> ('j, 'db) store \<times> 'db BoltPersister \<Rightarrow> 'j Event list \<Rightarrow> ('j, 'db) store \<times> 'db BoltPersister \<Rightarrow> bool" for L where
  op: "store_step L s es s' \<Longrightarrow> persist s' = Some db \<Longrightarrow> durable_step L (s, p) es (s', p\<lparr>bpDB := db\<rparr>)"
| tick: "flushLoop ok p = Some p' \<Longrightarrow> durable_step L (s, p) [] (s, p')"

text \<open>What was synced is the database of a moment of the run.\<close>

lemma durable_split:
  assumes "run (durable_step L) x log y" "persist (fst x) = Some (bpDB (snd x))" "bpSynced (snd x) = bpDB (snd x)"
  shows "\<exists>log1 log2 v. log = log1 @ log2 \<and> run (store_step L) (fst x) log1 v \<and> run (store_step L) v log2 (fst y) \<and>
    persist v = Some (bpSynced (snd y)) \<and> persist (fst y) = Some (bpDB (snd y))"
  using assms
proof (induction rule: run.induct)
  case (run_refl x)
  then show ?case by (auto intro!: exI [of _ "[]"] exI [of _ "fst x"] run.run_refl)
next
  case (run_step x log y es z)
  then obtain log1 log2 v where IH: "log = log1 @ log2" "run (store_step L) (fst x) log1 v" "run (store_step L) v log2 (fst y)"
      "persist v = Some (bpSynced (snd y))" "persist (fst y) = Some (bpDB (snd y))" by blast
  obtain t p where y: "y = (t, p)" by fastforce
  from run_step.hyps(2) show ?case
  proof cases
    case (op s s' db p0)
    have "run (store_step L) v (log2 @ es) s'" using run.run_step [of "store_step L" v log2 s es s'] IH(3) op(1,3) by simp
    then show ?thesis using IH op by (intro exI [of _ log1] exI [of _ "log2 @ es"] exI [of _ v]) simp
  next
    case (tick ok p0 p' s0)
    have all: "run (store_step L) (fst x) log t" using run_trans [OF IH(3,2)] IH(1) y by simp
    have p': "p' = db_Sync ok p0" using tick(4) by (simp add: flushLoop_def split: if_splits)
    show ?thesis
    proof (cases ok)
      case True
      then show ?thesis using all IH(5) tick p' y
        by (intro exI [of _ log] exI [of _ "[]"] exI [of _ t]) (simp add: db_Sync_def run.run_refl)
    next
      case False
      then show ?thesis using IH tick p' y
        by (intro exI [of _ log1] exI [of _ log2] exI [of _ v]) (simp add: db_Sync_def)
    qed
  qed
qed


text \<open>A prefix of a run that registers no resource registers none, and what fits the file at its end fits it before.\<close>

lemma prefix_fits:
  assumes r: "run (store_step L) s log1 v" "run (store_step L) v log2 t" "store_wf s" "unat (rv s) + length (log1 @ log2) \<le> 2 ^ 64 - 1"
    and t: "resources t = resources s" "\<forall>ev \<in> set (log1 @ log2). storable L t ev"
  shows "resources v = resources s" "\<forall>ev \<in> set log1. storable L v ev"
proof -
  have v: "store_wf v" "unat (rv v) + length log2 \<le> 2 ^ 64 - 1"
    using st.run_keeps [OF r(1,3)] r(4) by simp_all
  show res: "resources v = resources s"
  proof (rule ext)
    fix g
    have "unat (rv s) + length log1 \<le> 2 ^ 64 - 1" using r(4) by simp
    note kept = run_resources [OF r(1,3) this, of g] run_resources [OF r(2) v, of g, unfolded t(1)]
    show "resources v g = resources s g"
      using kept by (cases "resources s g"; cases "resources v g") simp_all
  qed
  have "storable L v ev \<longleftrightarrow> storable L t ev" for ev by (simp add: storable_def event_key_def res t(1))
  then show "\<forall>ev \<in> set log1. storable L v ev" using t(2) by simp
qed



text \<open>Witness: a sandbox is created, the timer flushes, and the machine stops.\<close>

definition sample_file :: "sampledb \<Rightarrow> sampledb BoltPersister" where
  "sample_file db = \<lparr>bpDB = db, bpSynced = [], bpDone = False\<rparr>"


end
