(* ===== verification/Archive.thy ===== *)
theory Archive
  imports Docker
begin

text \<open>
  The streams of the Docker driver: the archive of a build context that \<^verbatim>\<open>tarDir\<close> of \<^verbatim>\<open>internal/driver/image.go\<close> packs, and the loop of
  \<^verbatim>\<open>Events\<close> in \<^verbatim>\<open>internal/driver/docker.go\<close>. The calls of \<^verbatim>\<open>filepath.Walk\<close> are a list of visits in their order; the archive is the list
  of its members, and its bytes are the business of \<^verbatim>\<open>archive/tar\<close>.
\<close>

section \<open>The build context\<close>

text \<open>What a visit sees: the path relative to the directory by its components, what \<^verbatim>\<open>Lstat\<close> says of it, the error the walk reports, and
  what opening and reading the path gives, which follows a symbolic link.\<close>

datatype fileKind = FDir | FRegular nat | FSymlink | FSocket

record visit =
  visRel :: "string list"
  visKind :: fileKind
  visErr :: "string option"
  visRead :: "string + bytes"

record tarMember =
  tmName :: string
  tmKind :: fileKind
  tmBody :: bytes

text \<open>\<^verbatim>\<open>tar.Writer\<close>: the members so far and how many bytes of the last one are missing. A header is refused while bytes are missing,
  and more bytes than the header announced are refused.\<close>

record tarWriter =
  twMembers :: "tarMember list"
  twLeft :: nat

fun headerSize :: "fileKind \<Rightarrow> nat" where
  "headerSize (FRegular n) = n"
| "headerSize _ = 0"

definition tw_WriteHeader :: "string \<Rightarrow> fileKind \<Rightarrow> tarWriter \<Rightarrow> string + tarWriter" where
  "tw_WriteHeader nm knd w = (if twLeft w > 0 then Inl ''archive/tar: missed writing''
     else Inr \<lparr>twMembers = twMembers w @ [\<lparr>tmName = nm, tmKind = knd, tmBody = []\<rparr>], twLeft = headerSize knd\<rparr>)"

definition tw_Write :: "bytes \<Rightarrow> tarWriter \<Rightarrow> string + tarWriter" where
  "tw_Write bs w = (if length bs > twLeft w then Inl ''archive/tar: write too long''
     else Inr (w\<lparr>twMembers := butlast (twMembers w) @ [(last (twMembers w))\<lparr>tmBody := bs\<rparr>], twLeft := twLeft w - length bs\<rparr>))"

definition tw_Close :: "tarWriter \<Rightarrow> string + tarMember list" where
  "tw_Close w = (if twLeft w > 0 then Inl ''archive/tar: missed writing'' else Inr (twMembers w))"

text \<open>The function that is called for every visit.\<close>

definition tarVisit :: "visit \<Rightarrow> tarWriter \<Rightarrow> string + tarWriter" where
  "tarVisit v w = (case visErr v of
      Some err \<Rightarrow> Inl err
    | None \<Rightarrow>
       (if visRel v = [] then Inr w
        else if visKind v = FSocket then Inl ''archive/tar: sockets not supported''
        else
         (case tw_WriteHeader (Join (visRel v) ''/'' @ (if visKind v = FDir then ''/'' else '''')) (visKind v) w of
            Inl err \<Rightarrow> Inl err
          | Inr w1 \<Rightarrow>
             (if visKind v = FDir then Inr w1
              else case visRead v of Inl err \<Rightarrow> Inl err | Inr bs \<Rightarrow> tw_Write bs w1))))"

fun tarWalk :: "visit list \<Rightarrow> tarWriter \<Rightarrow> string + tarWriter" where
  "tarWalk [] w = Inr w"
| "tarWalk (v # vs) w = (case tarVisit v w of Inl err \<Rightarrow> Inl err | Inr w1 \<Rightarrow> tarWalk vs w1)"

definition tarDir :: "visit list \<Rightarrow> string + tarMember list" where
  "tarDir vs = (case tarWalk vs \<lparr>twMembers = [], twLeft = 0\<rparr> of Inl err \<Rightarrow> Inl err | Inr w \<Rightarrow> tw_Close w)"

section \<open>What is packed\<close>

definition member_of :: "visit \<Rightarrow> tarMember" where
  "member_of v = (if visKind v = FDir then \<lparr>tmName = Join (visRel v) ''/'' @ ''/'', tmKind = FDir, tmBody = []\<rparr>
     else \<lparr>tmName = Join (visRel v) ''/'', tmKind = visKind v, tmBody = (case visRead v of Inl _ \<Rightarrow> [] | Inr bs \<Rightarrow> bs)\<rparr>)"

fun archivable :: "visit \<Rightarrow> bool" where
  "archivable v = (visErr v = None \<and> (visRel v \<noteq> [] \<longrightarrow> (case visKind v of
      FDir \<Rightarrow> True | FRegular n \<Rightarrow> (case visRead v of Inl _ \<Rightarrow> False | Inr bs \<Rightarrow> length bs = n)
    | FSymlink \<Rightarrow> visRead v = Inr [] | FSocket \<Rightarrow> False)))"

definition members_of :: "visit list \<Rightarrow> tarMember list" where
  "members_of vs = map member_of (filter (\<lambda>v. visRel v \<noteq> []) vs)"

text \<open>Once bytes of a member are missing, the archive is refused at the latest when it is closed.\<close>

lemma tarWalk_missing:
  "twLeft w > 0 \<Longrightarrow> tarWalk vs w = Inr w' \<Longrightarrow> twLeft w' > 0"
proof (induction vs arbitrary: w)
  case (Cons v vs)
  then obtain w1 where w1: "tarVisit v w = Inr w1" "tarWalk vs w1 = Inr w'" by (auto split: sum.splits)
  have "w1 = w" using w1(1) Cons.prems(1) by (auto simp: tarVisit_def tw_WriteHeader_def split: option.splits if_splits)
  with w1(2) Cons show ?case by simp
qed simp

lemma tarVisit_ok:
  assumes "twLeft w = 0" "tarVisit v w = Inr w1" "twLeft w1 = 0"
  shows "archivable v \<and> twMembers w1 = twMembers w @ members_of [v]"
  using assms
  by (cases "visKind v") (auto simp: tarVisit_def tw_WriteHeader_def tw_Write_def members_of_def member_of_def split: option.splits if_splits sum.splits)

lemma tarVisit_archivable:
  assumes "twLeft w = 0" "archivable v"
  shows "\<exists>w1. tarVisit v w = Inr w1 \<and> twLeft w1 = 0"
  using assms
  by (cases "visKind v") (auto simp: tarVisit_def tw_WriteHeader_def tw_Write_def split: option.splits if_splits sum.splits)


lemma tarWalk_exact:
  "twLeft w = 0 \<Longrightarrow> (\<exists>w'. tarWalk vs w = Inr w' \<and> twLeft w' = 0 \<and> twMembers w' = ms) \<longleftrightarrow> list_all archivable vs \<and> ms = twMembers w @ members_of vs"
proof (induction vs arbitrary: w)
  case (Cons v vs)
  have ms: "members_of (v # vs) = members_of [v] @ members_of vs" by (simp add: members_of_def)
  show ?case
  proof (cases "\<exists>w1. tarVisit v w = Inr w1 \<and> twLeft w1 = 0")
    case True
    then obtain w1 where w1: "tarVisit v w = Inr w1" "twLeft w1 = 0" by blast
    note v = tarVisit_ok [OF Cons.prems w1]
    show ?thesis using Cons.IH [OF w1(2)] w1(1) v by (simp add: ms del: archivable.simps)
  next
    case False
    then have "\<not> archivable v" using tarVisit_archivable [OF Cons.prems, of v] by blast
    moreover have "\<not> (\<exists>w'. tarWalk (v # vs) w = Inr w' \<and> twLeft w' = 0)"
    proof (cases "tarVisit v w")
      case (Inr w1)
      then have "twLeft w1 > 0" using False by auto
      then show ?thesis using tarWalk_missing [of w1 vs] Inr by auto
    qed simp
    ultimately show ?thesis by (auto simp del: archivable.simps tarWalk.simps)
  qed
qed (auto simp: members_of_def)

text \<open>C26: packing a build context succeeds exactly if the walk reports no error, every file could be read to the length it had, and the
  directory holds no socket and no symbolic link to something that is not empty; and then the archive has exactly the entries below the
  directory, in the order of the walk, under their relative paths with a slash behind directories, each file with its content. So one symbolic link to a
  file with content keeps the image from being built.\<close>

theorem tarDir_exact: "tarDir vs = Inr ms \<longleftrightarrow> list_all archivable vs \<and> ms = members_of vs"
proof -
  have "tarDir vs = Inr ms \<longleftrightarrow> (\<exists>w'. tarWalk vs \<lparr>twMembers = [], twLeft = 0\<rparr> = Inr w' \<and> twLeft w' = 0 \<and> twMembers w' = ms)"
    by (cases "tarWalk vs \<lparr>twMembers = [], twLeft = 0\<rparr>") (auto simp: tarDir_def tw_Close_def)
  then show ?thesis using tarWalk_exact [of "\<lparr>twMembers = [], twLeft = 0\<rparr>" vs ms] by simp
qed

section \<open>Events of the engine\<close>

text \<open>What the select of the loop receives: the end of the context, a value of the error channel, a message, or a message during
  whose hand-over the context ends.\<close>

datatype streamInput = Cancelled | StreamError "string option" | StreamMessage DockerMessage | CancelledSending DockerMessage

fun docker_Events :: "streamInput list \<Rightarrow> DriverEvent list" where
  "docker_Events [] = []"
| "docker_Events (Cancelled # xs) = []"
| "docker_Events (StreamError err # xs) = (case err of Some _ \<Rightarrow> [] | None \<Rightarrow> docker_Events xs)"
| "docker_Events (StreamMessage m # xs) = dockerEvent m # docker_Events xs"
| "docker_Events (CancelledSending m # xs) = []"

fun ends_stream :: "streamInput \<Rightarrow> bool" where
  "ends_stream Cancelled = True"
| "ends_stream (StreamError err) = (err \<noteq> None)"
| "ends_stream (StreamMessage m) = False"
| "ends_stream (CancelledSending m) = True"

text \<open>Every message before the stream ends is delivered once and in order; after an error of the engine none is.\<close>

lemma docker_Events_delivers:
  "docker_Events xs = map dockerEvent (List.map_filter (\<lambda>x. case x of StreamMessage m \<Rightarrow> Some m | _ \<Rightarrow> None) (takeWhile (\<lambda>x. \<not> ends_stream x) xs))"
  by (induction xs rule: docker_Events.induct) (auto simp: List.map_filter_simps split: option.split)

lemma docker_Events_after_error: "docker_Events (xs @ StreamError (Some err) # ys) = docker_Events xs"
  by (induction xs rule: docker_Events.induct) (auto split: option.split)

end
