(* ===== verification/Tunnel.thy ===== *)
theory Tunnel
  imports PortForward RouterProps "HOL-Library.Sublist"
begin

text \<open>
  The data plane: the two copies of a forwarded connection in \<^verbatim>\<open>internal/portforward/server.go\<close>, which run beside each other, and the router's
  answer to a request with the proxy of \<^verbatim>\<open>net/http/httputil\<close> as a parameter.
\<close>

section \<open>Copying\<close>

text \<open>What is left to read of each direction, what was written, whether the goroutine has ended and whether its copy failed. When the copy to the
  router ends, its side of the connection is closed for writing.\<close>

record tunnel =
  tnRequest :: bytes
  tnSent :: bytes
  tnSendEnd :: bool
  tnSendFailed :: bool
  tnResponse :: bytes
  tnReceived :: bytes
  tnReceiveEnd :: bool
  tnReceiveFailed :: bool

definition tunnel_start :: "bytes \<Rightarrow> bytes \<Rightarrow> tunnel" where
  "tunnel_start req rsp = \<lparr>tnRequest = req, tnSent = [], tnSendEnd = False, tnSendFailed = False,
     tnResponse = rsp, tnReceived = [], tnReceiveEnd = False, tnReceiveFailed = False\<rparr>"

inductive copy_step :: "tunnel \<Rightarrow> tunnel \<Rightarrow> bool" where
  send: "\<not> tnSendEnd t \<Longrightarrow> tnRequest t = as @ bs \<Longrightarrow> as \<noteq> [] \<Longrightarrow> copy_step t (t\<lparr>tnRequest := bs, tnSent := tnSent t @ as\<rparr>)"
| send_end: "\<not> tnSendEnd t \<Longrightarrow> tnRequest t = [] \<Longrightarrow> copy_step t (t\<lparr>tnSendEnd := True\<rparr>)"
| send_error: "\<not> tnSendEnd t \<Longrightarrow> copy_step t (t\<lparr>tnSendEnd := True, tnSendFailed := True\<rparr>)"
| receive: "\<not> tnReceiveEnd t \<Longrightarrow> tnResponse t = as @ bs \<Longrightarrow> as \<noteq> [] \<Longrightarrow> copy_step t (t\<lparr>tnResponse := bs, tnReceived := tnReceived t @ as\<rparr>)"
| receive_end: "\<not> tnReceiveEnd t \<Longrightarrow> tnResponse t = [] \<Longrightarrow> copy_step t (t\<lparr>tnReceiveEnd := True\<rparr>)"
| receive_error: "\<not> tnReceiveEnd t \<Longrightarrow> copy_step t (t\<lparr>tnReceiveEnd := True, tnReceiveFailed := True\<rparr>)"

inductive_cases copy_stepE: "copy_step t t'"

text \<open>The function returns once it has received from both goroutines.\<close>

definition forward_done :: "tunnel \<Rightarrow> bool" where
  "forward_done t \<longleftrightarrow> tnSendEnd t \<and> tnReceiveEnd t"

definition tunnel_ok :: "bytes \<Rightarrow> bytes \<Rightarrow> tunnel \<Rightarrow> bool" where
  "tunnel_ok req rsp t \<longleftrightarrow> tnSent t @ tnRequest t = req \<and> tnReceived t @ tnResponse t = rsp \<and>
     (tnSendEnd t \<and> \<not> tnSendFailed t \<longrightarrow> tnRequest t = []) \<and> (tnReceiveEnd t \<and> \<not> tnReceiveFailed t \<longrightarrow> tnResponse t = [])"

lemma copy_step_ok: "copy_step t t' \<Longrightarrow> tunnel_ok req rsp t \<Longrightarrow> tunnel_ok req rsp t'"
  by (auto simp: tunnel_ok_def elim!: copy_stepE)

definition work_left :: "tunnel \<Rightarrow> nat" where
  "work_left t = length (tnRequest t) + length (tnResponse t) + (if tnSendEnd t then 0 else 1) + (if tnReceiveEnd t then 0 else 1)"

lemma copy_step_work: "copy_step t t' \<Longrightarrow> work_left t' < work_left t"
  by (auto simp: work_left_def elim!: copy_stepE)

text \<open>However the two copies are interleaved, each side has received a prefix of what the other sent, all of it if its copy ended without an error (so
  the router sees the end of a request only behind the whole request); the function does not return before both ended, and copying
  comes to an end: no run is infinite, and one that cannot go on has returned.\<close>

theorem tunnel_transparent:
  assumes "copy_step\<^sup>*\<^sup>* (tunnel_start req rsp) t"
  shows "prefix (tnSent t) req \<and> prefix (tnReceived t) rsp \<and> (tnSendEnd t \<and> \<not> tnSendFailed t \<longrightarrow> tnSent t = req) \<and>
    (tnReceiveEnd t \<and> \<not> tnReceiveFailed t \<longrightarrow> tnReceived t = rsp) \<and> (forward_done t \<longleftrightarrow> (\<nexists>t'. copy_step t t')) \<and> wfp (\<lambda>t' t. copy_step t t')"
proof -
  have "tunnel_ok req rsp (tunnel_start req rsp)" by (simp add: tunnel_ok_def tunnel_start_def)
  with assms have "tunnel_ok req rsp t" by (induction rule: rtranclp_induct) (blast intro: copy_step_ok)+
  moreover have "forward_done t \<longleftrightarrow> (\<nexists>t'. copy_step t t')"
    by (auto simp: forward_done_def elim!: copy_stepE intro: copy_step.intros)
  moreover have "wfp (\<lambda>t' t. copy_step t t')" by (rule wfp_if_convertible_to_nat [of _ work_left]) (rule copy_step_work)
  ultimately show ?thesis by (auto simp: tunnel_ok_def)
qed

section \<open>Proxying\<close>

text \<open>The router's answer to a request: what the proxy sends on, if anything, and what the client gets. \<open>clone\<close> is the request the proxy prepares, \<open>parse\<close>
  the scheme and host of an address, \<open>upstream\<close> the answer of the sandbox or the error of reaching it.\<close>

definition proxyError :: "string \<Rightarrow> int \<times> (string \<rightharpoonup> string) \<times> string" where
  "proxyError err = writeProxyError 502 ''upstream request failed''"

definition router_serve :: "(string \<Rightarrow> string \<Rightarrow> int \<Rightarrow> string \<times> ResolveState) \<Rightarrow> (string \<Rightarrow> string \<times> string) \<Rightarrow> (proxyRequest \<Rightarrow> proxyRequest \<Rightarrow> proxyRequest) \<Rightarrow>
    (proxyRequest \<Rightarrow> proxyRequest) \<Rightarrow> (proxyRequest \<Rightarrow> string + (int \<times> (string \<rightharpoonup> string) \<times> string)) \<Rightarrow> request \<Rightarrow> proxyRequest \<Rightarrow>
    proxyRequest option \<times> (int \<times> (string \<rightharpoonup> string) \<times> string)" where
  "router_serve resolve parse setXForwarded clone upstream r inreq = (case ServeHTTP resolve r of
      HealthOK \<Rightarrow> (None, 200, Map.empty, ''ok'')
    | Refused code msg \<Rightarrow> (None, writeProxyError code msg)
    | Proxied target \<Rightarrow>
       (let outreq = Rewrite setXForwarded (parse target) inreq (clone inreq)
        in (Some outreq, case upstream outreq of Inl err \<Rightarrow> proxyError err | Inr answer \<Rightarrow> answer)))"

text \<open>A request leaves the router only for a host port of this machine that a resolved sandbox is published on, without the client's credentials;
  and a client gets an answer in every case.\<close>

lemma router_forwards_locally:
  assumes "router_serve (Resolve X s drv) parse sx clone upstream r inreq = (Some out, ans)"
    and "\<And>i q. pxHost (sx i q) = pxHost q" "\<And>i q. pxHeader (sx i q) ''Authorization'' = pxHeader q ''Authorization''"
  shows "\<exists>h. h \<noteq> 0 \<and> pxHost out = snd (parse (''http://127.0.0.1:'' @ Itoa h))" "pxHeader out ''Authorization'' = None"
proof -
  from assms(1) obtain target where t: "ServeHTTP (Resolve X s drv) r = Proxied target" "out = Rewrite sx (parse target) inreq (clone inreq)"
    by (auto simp: router_serve_def Let_def split: routing.splits)
  from sr.proxied_loopback [OF t(1)] show "\<exists>h. h \<noteq> 0 \<and> pxHost out = snd (parse (''http://127.0.0.1:'' @ Itoa h))"
    using assms(2) by (auto simp: t(2) Rewrite_def)
  show "pxHeader out ''Authorization'' = None" using assms(3) by (simp add: t(2) Rewrite_def)
qed

end
