(* ===== verification/Spec2Isabelle.thy ===== *)
theory Spec2Isabelle
  imports StoreProps DriverProps Runtime RouterProps BuildProps ControlProps ClaimProps ManagerProps DockerProps PortForward ResponseProps CliProps Flush Archive Tunnel
begin

text \<open>
  A verification of the local agent sandbox (\<^verbatim>\<open>lasd\<close>), a single-process control plane that serves the
  agent-sandbox Kubernetes API on one machine and runs each Sandbox as a container.

  \<^bold>\<open>The program.\<close> An object store (\<^verbatim>\<open>internal/store\<close>) keeps Kubernetes objects in memory under one lock,
  numbers every change with a 64-bit version, mirrors changes to a bbolt file, keeps a ring of recent events and feeds watchers. A facade
  (\<^verbatim>\<open>internal/kubefacade\<close>) exposes it over HTTP under the resource registry of \<^verbatim>\<open>internal/apis\<close>. The reconcile loops (\<^verbatim>\<open>internal/reconciler\<close>) watch the store
  and drive sandboxes, claims, warm pools, volume claims and templates, through a container driver (\<^verbatim>\<open>internal/driver\<close>), writing
  what they see back as status. A delete of the store calls the loops' hook, which cascades. The router (\<^verbatim>\<open>internal/router\<close>) sends
  client requests to the published port of a sandbox; inside the container the runtime (\<^verbatim>\<open>runtime\<close>) serves command execution and files. The server (\<^verbatim>\<open>internal/app\<close>) puts these
  together, creates default objects and the objects that stand for the router (\<^verbatim>\<open>internal/vrouter\<close>), and removes containers that lost their
  sandbox; \<^verbatim>\<open>internal/portforward\<close> tunnels to the router.

  \<^bold>\<open>Theories and sources.\<close>
  \<^item> \<open>Prelude\<close>: the parts of Go's standard library the sources use on strings and integers; shared lemmas.
  \<^item> \<open>Apis\<close>: \<^verbatim>\<open>apis/scheme.go\<close>. \<open>Objects\<close>: unstructured objects, API errors, \<^verbatim>\<open>store/selectors.go\<close>, the record \<open>storelib\<close> of libraries.
  \<^item> \<open>Persist\<close>: \<^verbatim>\<open>store/persist.go\<close>. \<open>Store\<close>: \<^verbatim>\<open>store/store.go\<close>, \<^verbatim>\<open>store/meta.go\<close> and the emitting side of \<^verbatim>\<open>store/watch.go\<close>. \<open>Patch\<close>: \<^verbatim>\<open>store/patch.go\<close>.
    \<open>Watch\<close>: \<^verbatim>\<open>store/watch.go\<close>.
  \<^item> \<open>StoreFacts\<close>, \<open>StoreRun\<close>, \<open>WatchRun\<close>, \<open>Recovery\<close>, \<open>StoreProps\<close>: what one operation does; runs of interleaved operations with their
    log of events; one watch among them; what a restart recovers; the properties of the store. \<open>Flush\<close>: opening, flushing and closing the file, and what a stop of the machine loses.
  \<^item> \<open>Types\<close>, \<open>Convert\<close>: pod specs, the typed resources and \<^verbatim>\<open>reconciler/convert.go\<close>. \<open>Driver\<close>: \<^verbatim>\<open>driver/driver.go\<close> and \<^verbatim>\<open>driver/mapping.go\<close>.
    \<open>FakeDriver\<close>: \<^verbatim>\<open>driver/fake.go\<close> with the contract of a driver. \<open>DriverProps\<close>: properties of both.
  \<^item> \<open>Build\<close>: \<^verbatim>\<open>reconciler/build.go\<close>. \<open>Reconciler\<close>: \<^verbatim>\<open>reconciler/reconcile.go\<close>, the delete hook of the store. \<open>SandboxLoop\<close>: \<^verbatim>\<open>reconciler/sandbox.go\<close>
    and \<^verbatim>\<open>reconciler/pvc.go\<close>. \<open>ClaimLoop\<close>: \<^verbatim>\<open>reconciler/claim.go\<close>, \<^verbatim>\<open>reconciler/warmpool.go\<close>, \<^verbatim>\<open>reconciler/template.go\<close>.
  \<^item> \<open>LoopRun\<close>, \<open>LoopFacts\<close>, \<open>Cascade\<close>, \<open>SandboxFacts\<close>, \<open>ClaimFacts\<close>, \<open>PoolFacts\<close>: the loops as runs of the store; that they return; what a
    delete removes; the status a reconcile leaves; adoption under interference; the members of a pool. \<open>SandboxProps\<close>, \<open>ControlProps\<close>,
    \<open>ClaimProps\<close>, \<open>BuildProps\<close>: the properties.
  \<^item> \<open>Manager\<close>, \<open>ManagerProps\<close>: \<^verbatim>\<open>reconciler/manager.go\<close>, the watches, queues and workers that run the loops, as an inductive step relation.
  \<^item> \<open>Facade\<close>, \<open>FacadeProps\<close>: \<^verbatim>\<open>internal/kubefacade\<close>, its routes, discovery and OpenAPI documents and every handler.
    \<open>ResponseProps\<close>: the type of every answer.
  \<^item> \<open>Docker\<close>, \<open>DockerProps\<close>: \<^verbatim>\<open>driver/docker.go\<close> and \<^verbatim>\<open>driver/image.go\<close>, over the client of the engine. \<open>Archive\<close>: packing the build context and the
    event loop.
  \<^item> \<open>App\<close>, \<open>AppProps\<close>: \<^verbatim>\<open>app/app.go\<close>, \<^verbatim>\<open>config/config.go\<close>, \<^verbatim>\<open>vrouter/vrouter.go\<close> and the commands of \<^verbatim>\<open>cmd/lasd/commands.go\<close> that change something.
  \<^item> \<open>Cli\<close>, \<open>CliProps\<close>: the other commands of \<^verbatim>\<open>cmd/lasd\<close>, \<^verbatim>\<open>kubeconfig/kubeconfig.go\<close>, the paths of the configuration, constructing and running the server.
    \<open>Server\<close>: requests, loops, the start and new namespaces as one step relation, from one start to the next.
  \<^item> \<open>PortForward\<close>: \<^verbatim>\<open>portforward/server.go\<close>, and of \<^verbatim>\<open>router/router.go\<close> what the proxy changes in a request. \<open>Tunnel\<close>: the two copies of a
    forwarded connection as a step relation, and the router's answers with its proxy.
  \<^item> \<open>Router\<close>, \<open>RouterProps\<close>: \<^verbatim>\<open>router/router.go\<close>. \<open>Runtime\<close>: \<^verbatim>\<open>runtime/split.go\<close> and \<^verbatim>\<open>runtime/server.go\<close>.
  \<^item> \<open>SampleLib\<close>, \<open>SampleWorld\<close>, \<open>SampleFacts\<close>: concrete libraries and states on which the witnesses compute; they show that what is
    assumed of the libraries can hold.

  \<^bold>\<open>How the state corresponds.\<close> The record \<open>store\<close> has the fields of the Go \<^verbatim>\<open>Store\<close>; a method under the lock is one function on it. A method
  that can loop forever (name generation draws until a name is free) returns an option, \<open>None\<close> for not returning. A goroutine that
  delivers a watch is a state \<open>pump\<close> with one function per statement between channel operations, interleaved with everything else by the relation
  of \<open>WatchRun\<close>. A reconcile is a function on a \<open>world\<close>, the store and the state of the driver; a Go panic is the error \<open>Panicked\<close>. The adoption loop,
  written for concurrent writers, takes what they do between its read and its write as a parameter (\<open>race\<close>). Third-party code
  (bbolt, the Kubernetes converters, selector parsers, patch algorithms, condition helpers, work queues, the client of the
  Docker engine, \<^verbatim>\<open>sort.Slice\<close>) is a parameter in the records \<open>storelib\<close>, \<open>condlib\<close>, \<open>convlib\<close>, \<open>facadelib\<close>, \<open>vrouterlib\<close>, \<open>bootlib\<close>, \<open>DockerClient\<close>, the host in \<open>hostlib\<close>; what is
  used of its documentation are the predicates \<open>bolt_laws\<close>, \<open>cond_laws\<close>, \<open>status_laws\<close>, \<open>annotation_law\<close>, \<open>json_laws\<close>, \<open>queue_laws\<close>,
  \<open>docker_engine\<close>, \<open>sorts\<close>, \<open>permutes\<close>. The interfaces within the program are locales: \<open>persister\<close>, \<open>resolver\<close>, and for the record \<open>Driver\<close> of a container
  backend \<open>container_driver\<close>, which the loops rely on, with its extension \<open>container_inventory\<close>, which the server and the commands rely on.
  They are interpreted on the code's own persister, resolver and in-memory driver; that the Docker driver
  meets them is a theorem, since it depends on the engine.

  \<^bold>\<open>What is shown.\<close> Of the store: an invariant over every interleaving, consecutive versions, objects determined by the events, exact lists,
  in-order watches, list-then-watch, optimistic concurrency, recovery after a restart, the loss after a crash, the behaviour of each operation on each branch. Of the
  loops: Ready is reported only for a serving container, suspension, termination and containment of cascades, exclusive adoption, claims bound only to their own
  sandboxes, convergence of pools, that runs of the whole control plane are runs of the store, that no wake-up of a loop is lost. Of the facade: that its
  requests are steps of the control plane, where a created object is placed, that every answer has the type its request asks for, that what discovery announces is served. Of the drivers: that both meet the
  contract the loops and commands are proved against, and what the build context holds. Of the server: that everything it does between two starts is a run of the store and
  that the next start finds what was stored, which containers a start removes, that an ephemeral run leaves nothing, that the virtual router
  is created once; of the tunnel, that each request is forwarded once and that the copies deliver what was sent. Of the builder, the mapping, the router and the
  runtime: equivalence with reference definitions, refusals, confinement of paths and file handlers, splitting as
  inverse of quoting. Where the code departs from its comments or fails, a theorem states what it does.

  \<^bold>\<open>Bounds.\<close> Versions are 64-bit words; properties of runs assume fewer than \<open>2 ^ 64\<close> changes in all, since the counter wraps after them. Adoption makes five
  attempts, as the code. The delete hook recurses through the store: the model unrolls it three times, and \<open>delete_cascade_terminates\<close>
  shows that deeper unrolling changes nothing. Recovery after a restart speaks of a database whose
  committed transactions are all there, as after a clean stop; \<open>Flush\<close> says what is left otherwise, with a flush at any moment instead of a timer.

  \<^bold>\<open>Not modelled.\<close> Logging, metrics, contexts and timeouts (the hook's 30 seconds, the router's request timeout, the deadlines of watches and probes), the
  pauses between attempts and the order of a shutdown. The engine behind the Docker client, the reverse proxy of the router, the SPDY connection
  of \<^verbatim>\<open>internal/portforward\<close>, the bytes of archives and kubeconfigs: library code. Of \<^verbatim>\<open>cmd/lasd\<close> and \<^verbatim>\<open>runtime\<close>, declaring flags, the layout of
  what is printed and the start of the process.
\<close>

end
